(* ===== verification/Prelude.thy ===== *)
theory Prelude
  imports Main "HOL-Library.Word" "HOL-Library.Code_Target_Nat"
begin

text \<open>
  Generic material that every component shares: bytes and code-point strings, the
  exception-passing combinators (\<open>ebind\<close>, \<open>emap\<close>), big-endian integer
  conversion, and the collections of simplification rules the component proofs use.

  A Python \<open>bytes\<close> object is a list of 8-bit words.  A Python \<open>str\<close> is a list of
  Unicode code points; \<open>U\<close> turns an ASCII literal of the source into one, and is
  injective, so that literals are compared without ever being unfolded.  A call that may
  raise is a value of \<open>'e + 'a\<close>: \<open>Inl\<close> is the exception.
\<close>

named_theorems ebind_inv \<open>inversion of exception-passing combinators\<close>
named_theorems py_simps \<open>evaluation of Python-level operations on objects and dicts\<close>
named_theorems frame_simps \<open>evaluation of the GATT framing operations\<close>

type_synonym byte = "8 word"
type_synonym bytes = "byte list"
type_synonym pystr = "nat list"

section \<open>Text literals\<close>

definition U :: "string \<Rightarrow> pystr" where
  "U s = map of_char s"

lemma U_eq_iff [simp]: "U s = U t \<longleftrightarrow> s = t"
proof -
  have "inj (of_char :: char \<Rightarrow> nat)" by (rule injI) simp
  then show ?thesis by (simp add: U_def inj_map_eq_map)
qed

lemma U_empty [simp]: "U s = [] \<longleftrightarrow> s = []" "[] = U s \<longleftrightarrow> s = []"
  by (auto simp: U_def)

section \<open>Passing exceptions\<close>

definition ebind :: "'e + 'a \<Rightarrow> ('a \<Rightarrow> 'e + 'b) \<Rightarrow> 'e + 'b" where
  "ebind m f = (case m of Inl e \<Rightarrow> Inl e | Inr x \<Rightarrow> f x)"

lemma ebind_simps [simp]:
  "ebind (Inl e) f = Inl e"
  "ebind (Inr x) f = f x"
  by (simp_all add: ebind_def)

lemma ebind_eq_Inr [ebind_inv]: "ebind m f = Inr y \<longleftrightarrow> (\<exists>x. m = Inr x \<and> f x = Inr y)"
  by (cases m) auto

lemma ebind_eq_Inl [ebind_inv]:
  "ebind m f = Inl e \<longleftrightarrow> m = Inl e \<or> (\<exists>x. m = Inr x \<and> f x = Inl e)"
  by (cases m) auto

lemma ebind_cong [fundef_cong]:
  assumes "m = m'" and "\<And>x. m' = Inr x \<Longrightarrow> f x = f' x"
  shows "ebind m f = ebind m' f'"
  using assms by (cases m') auto

lemma if_Inl_eq_Inr [ebind_inv]:
  "(if b then Inl e else m) = Inr y \<longleftrightarrow> \<not> b \<and> m = Inr y"
  by simp

fun emap :: "('a \<Rightarrow> 'e + 'b) \<Rightarrow> 'a list \<Rightarrow> 'e + 'b list" where
  "emap f [] = Inr []"
| "emap f (x # xs) = ebind (f x) (\<lambda>y. ebind (emap f xs) (\<lambda>ys. Inr (y # ys)))"

lemma emap_cong [fundef_cong]:
  assumes "xs = ys" and "\<And>x. x \<in> set ys \<Longrightarrow> f x = g x"
  shows "emap f xs = emap g ys"
  unfolding assms(1) using assms(2) by (induction ys) auto

lemma emap_eq_Inr: "emap f xs = Inr ys \<longleftrightarrow> list_all2 (\<lambda>x y. f x = Inr y) xs ys"
  by (induction xs arbitrary: ys) (auto simp: ebind_inv list_all2_Cons1)

lemma emap_all_Inr: "(\<And>x. x \<in> set xs \<Longrightarrow> f x = Inr (g x)) \<Longrightarrow> emap f xs = Inr (map g xs)"
  by (induction xs) auto

lemma emap_length: "emap f xs = Inr ys \<Longrightarrow> length ys = length xs"
  by (auto simp: emap_eq_Inr list_all2_lengthD)

lemma emap_memberE:
  assumes "emap f xs = Inr ys" and "y \<in> set ys"
  obtains x where "x \<in> set xs" and "f x = Inr y"
proof -
  from assms(1) have "list_all2 (\<lambda>x y. f x = Inr y) xs ys" by (simp add: emap_eq_Inr)
  from this assms(2) have "\<exists>x\<in>set xs. f x = Inr y"
    by (induction rule: list_all2_induct) auto
  then show ?thesis using that by blast
qed

lemma emap_memberI:
  assumes "emap f xs = Inr ys" and "x \<in> set xs"
  obtains y where "y \<in> set ys" and "f x = Inr y"
proof -
  from assms(1) have "list_all2 (\<lambda>x y. f x = Inr y) xs ys" by (simp add: emap_eq_Inr)
  from this assms(2) have "\<exists>y\<in>set ys. f x = Inr y"
    by (induction rule: list_all2_induct) auto
  then show ?thesis using that by blast
qed

section \<open>Big-endian integers\<close>

definition from_bytes_be :: "bytes \<Rightarrow> int" where
  "from_bytes_be bs = foldl (\<lambda>acc b. acc * 256 + uint b) 0 bs"

fun to_bytes_be :: "nat \<Rightarrow> int \<Rightarrow> bytes" where
  "to_bytes_be 0 n = []"
| "to_bytes_be (Suc k) n = to_bytes_be k (n div 256) @ [word_of_int (n mod 256)]"

lemma length_to_bytes_be [simp]: "length (to_bytes_be k n) = k"
  by (induction k arbitrary: n) auto

lemma from_bytes_be_Nil [simp]: "from_bytes_be [] = 0"
  by (simp add: from_bytes_be_def)

lemma from_bytes_be_snoc [simp]: "from_bytes_be (bs @ [b]) = from_bytes_be bs * 256 + uint b"
  by (simp add: from_bytes_be_def)

lemma uint_byte_bounds [simp]: "0 \<le> uint (b :: byte)" "uint (b :: byte) < 256"
  using uint_bounded [of b] by simp_all

lemma from_bytes_be_nonneg [simp]: "0 \<le> from_bytes_be bs"
  by (induction bs rule: rev_induct) (auto simp: add_nonneg_nonneg)

lemma from_bytes_be_less: "from_bytes_be bs < 256 ^ length bs"
proof (induction bs rule: rev_induct)
  case (snoc b bs)
  have "from_bytes_be bs * 256 + uint b < (from_bytes_be bs + 1) * 256"
    using uint_byte_bounds(2) [of b] by (simp add: algebra_simps)
  also have "\<dots> \<le> 256 ^ length bs * 256"
    using snoc by (intro mult_right_mono) auto
  finally show ?case by simp
qed simp

lemma uint_word_of_int_mod [simp]: "uint (word_of_int (n mod 256) :: byte) = n mod 256"
  by (simp add: uint_word_of_int take_bit_eq_mod)

lemma from_to_bytes_be: "0 \<le> n \<Longrightarrow> n < 256 ^ k \<Longrightarrow> from_bytes_be (to_bytes_be k n) = n"
proof (induction k arbitrary: n)
  case (Suc k)
  have "n div 256 < 256 ^ k"
    using Suc.prems(2) by (simp add: div_less_iff_less_mult mult.commute)
  then have "from_bytes_be (to_bytes_be k (n div 256)) = n div 256"
    using Suc.prems(1) by (intro Suc.IH) (simp_all add: pos_imp_zdiv_nonneg_iff)
  then show ?case by simp
qed simp

lemma to_from_bytes_be: "to_bytes_be (length bs) (from_bytes_be bs) = bs"
proof (induction bs rule: rev_induct)
  case (snoc b bs)
  have "(from_bytes_be bs * 256 + uint b) div 256 = from_bytes_be bs"
    and "(from_bytes_be bs * 256 + uint b) mod 256 = uint b"
    using uint_byte_bounds [of b] by simp_all
  with snoc show ?case by simp
qed simp

lemma to_bytes_be_inject:
  "0 \<le> m \<Longrightarrow> m < 256 ^ k \<Longrightarrow> 0 \<le> n \<Longrightarrow> n < 256 ^ k \<Longrightarrow>
    to_bytes_be k m = to_bytes_be k n \<longleftrightarrow> m = n"
  by (metis from_to_bytes_be)

end
