(* ===== verification/Py_Object.thy ===== *)
theory Py_Object
  imports Prelude
begin

text \<open>
  The Python objects that a CBOR decoder hands to the program, the exceptions the program
  raises or lets through, and the built-in operations the source applies to such objects:
  \<open>isinstance\<close> and \<open>type(x) is int\<close> tests, truth values, \<open>dict.get\<close>, \<open>list(x)\<close>, hashing.

  \<^item> A \<open>dict\<close> (or \<open>frozendict\<close>) is \<open>PMap\<close> of its items in insertion order.
  \<^item> \<open>PDateTime tz w\<close> is a \<open>datetime\<close> with wall-clock reading \<open>w\<close> (in microseconds).
  \<^item> \<open>POther k t n\<close> is any other object (a float, a \<open>Decimal\<close>, a CBOR simple value,
    \<open>undefined\<close>, a set, a UUID ...): \<open>k\<close> tells such objects apart, \<open>t\<close> is its truth value
    and \<open>n\<close> the integer it compares equal to, if there is one (\<open>1.0 == 1\<close> holds in Python).
    Such objects are taken to be hashable and not iterable.
\<close>

section \<open>Exceptions\<close>

text \<open>
  The classes an exception is caught by: \<open>except ValueError\<close> and the tuple
  \<open>(ValueError, TypeError, KeyError, AttributeError)\<close> of the command-line layer.
\<close>

datatype exn_class =
  IsValueError | IsTypeError | IsKeyError | IsAttributeError | IsTrustError | IsClientError | IsRecursionError | IsOtherError

datatype exn =
    ValueError string
  | MdocStructureError string
  | UnsupportedAlgorithm string
  | UnsupportedEngagementError string
  | TypeError string
  | KeyError
  | AttributeError string
  | IndexError
  | OverflowError
  | StructError
  | TrustError string
  | TrustDenied string
  | TrustUnavailable string
  | DeviceNotFoundError
  | RuntimeError string
  | QrNotFoundError
  | BleakError
  | TimeoutError
  | ImportError string
  | SystemExit string
  | AssertionError
  | RecursionError
  | LibError nat exn_class

fun class_of :: "exn \<Rightarrow> exn_class" where
  "class_of (ValueError _) = IsValueError"
| "class_of (MdocStructureError _) = IsValueError"
| "class_of (UnsupportedAlgorithm _) = IsValueError"
| "class_of (UnsupportedEngagementError _) = IsValueError"
| "class_of (TypeError _) = IsTypeError"
| "class_of KeyError = IsKeyError"
| "class_of (AttributeError _) = IsAttributeError"
| "class_of (TrustError _) = IsTrustError"
| "class_of (TrustDenied _) = IsTrustError"
| "class_of (TrustUnavailable _) = IsTrustError"
| "class_of RecursionError = IsRecursionError"
| "class_of (LibError _ c) = c"
| "class_of _ = IsOtherError"

section \<open>Objects\<close>

datatype tzinfo = NoTz | TzNoOffset | TzOffset int

datatype pyobj =
    PNone
  | PBool bool
  | PInt int
  | PBytes bytes
  | PStr pystr
  | PList "pyobj list"
  | PTuple "pyobj list"
  | PMap "(pyobj \<times> pyobj) list"
  | PTag int pyobj
  | PDateTime tzinfo int
  | PDate int
  | POther nat bool "int option"

type_synonym dict = "(pyobj \<times> pyobj) list"

abbreviation S :: "string \<Rightarrow> pyobj" where
  "S s \<equiv> PStr (U s)"

fun is_mapping :: "pyobj \<Rightarrow> bool" where
  "is_mapping (PMap _) = True"
| "is_mapping _ = False"

fun is_str :: "pyobj \<Rightarrow> bool" where
  "is_str (PStr _) = True"
| "is_str _ = False"

fun is_bytes :: "pyobj \<Rightarrow> bool" where
  "is_bytes (PBytes _) = True"
| "is_bytes _ = False"

text \<open>\<open>isinstance(x, (list, tuple))\<close>, with the elements.\<close>

fun seq_items :: "pyobj \<Rightarrow> pyobj list option" where
  "seq_items (PList xs) = Some xs"
| "seq_items (PTuple xs) = Some xs"
| "seq_items _ = None"

text \<open>\<open>type(x) is int and 0 <= x < (1 << 64)\<close>; \<open>True\<close> is not such an integer.\<close>

fun is_uint64 :: "pyobj \<Rightarrow> bool" where
  "is_uint64 (PInt i) \<longleftrightarrow> 0 \<le> i \<and> i < 2 ^ 64"
| "is_uint64 _ \<longleftrightarrow> False"

fun truthy :: "pyobj \<Rightarrow> bool" where
  "truthy PNone = False"
| "truthy (PBool b) = b"
| "truthy (PInt i) = (i \<noteq> 0)"
| "truthy (PBytes b) = (b \<noteq> [])"
| "truthy (PStr s) = (s \<noteq> [])"
| "truthy (PList xs) = (xs \<noteq> [])"
| "truthy (PTuple xs) = (xs \<noteq> [])"
| "truthy (PMap m) = (m \<noteq> [])"
| "truthy (POther _ t _) = t"
| "truthy _ = True"

text \<open>\<open>x or d\<close>.\<close>

definition or_else :: "pyobj \<Rightarrow> pyobj \<Rightarrow> pyobj" where
  "or_else x d = (if truthy x then x else d)"

text \<open>Whether \<open>hash(x)\<close> succeeds, as looking a key up in a dict requires.\<close>

fun hashable :: "pyobj \<Rightarrow> bool" where
  "hashable (PList _) = False"
| "hashable (PMap _) = False"
| "hashable (PTuple xs) = (\<forall>x\<in>set xs. hashable x)"
| "hashable (PTag _ x) = hashable x"
| "hashable _ = True"

section \<open>Equality and dicts\<close>

fun num_of :: "pyobj \<Rightarrow> int option" where
  "num_of (PInt i) = Some i"
| "num_of (PBool b) = Some (if b then 1 else 0)"
| "num_of (POther _ _ n) = n"
| "num_of _ = None"

text \<open>
  Python's \<open>==\<close> where one side is a number, a text, a byte string or \<open>None\<close>, which is how
  the source uses it: numbers compare by value whatever their type (\<open>True == 1\<close>).
\<close>

definition py_eq :: "pyobj \<Rightarrow> pyobj \<Rightarrow> bool" where
  "py_eq a b = (case num_of a of Some n \<Rightarrow> num_of b = Some n | None \<Rightarrow> a = b)"

fun dict_lookup :: "dict \<Rightarrow> pyobj \<Rightarrow> pyobj option" where
  "dict_lookup [] k = None"
| "dict_lookup ((k', v) # m) k = (if py_eq k k' then Some v else dict_lookup m k)"

text \<open>\<open>m.get(k, d)\<close>, \<open>m.get(k)\<close> and \<open>m[k]\<close>.\<close>

definition get_or :: "dict \<Rightarrow> pyobj \<Rightarrow> pyobj \<Rightarrow> pyobj" where
  "get_or m k d = (case dict_lookup m k of Some v \<Rightarrow> v | None \<Rightarrow> d)"

definition get :: "dict \<Rightarrow> pyobj \<Rightarrow> pyobj" where
  "get m k = get_or m k PNone"

definition getitem :: "dict \<Rightarrow> pyobj \<Rightarrow> exn + pyobj" where
  "getitem m k = (case dict_lookup m k of Some v \<Rightarrow> Inr v | None \<Rightarrow> Inl KeyError)"

text \<open>\<open>x.get(k, d)\<close> on an object that need not be a mapping.\<close>

fun obj_get :: "pyobj \<Rightarrow> pyobj \<Rightarrow> pyobj \<Rightarrow> exn + pyobj" where
  "obj_get (PMap m) k d = Inr (get_or m k d)"
| "obj_get _ k d = Inl (AttributeError ''get'')"

text \<open>\<open>list(x)\<close>: iterating a text gives one-character texts, iterating a dict its keys.\<close>

fun py_list :: "pyobj \<Rightarrow> exn + pyobj list" where
  "py_list (PList xs) = Inr xs"
| "py_list (PTuple xs) = Inr xs"
| "py_list (PMap m) = Inr (map fst m)"
| "py_list (PStr s) = Inr (map (\<lambda>c. PStr [c]) s)"
| "py_list (PBytes bs) = Inr (map (\<lambda>b. PInt (uint b)) bs)"
| "py_list _ = Inl (TypeError ''object is not iterable'')"

text \<open>\<open>int.from_bytes(x, "big")\<close> accepts bytes and any iterable of integers below 256.\<close>

fun byte_of :: "pyobj \<Rightarrow> exn + byte" where
  "byte_of (PInt i) = (if 0 \<le> i \<and> i < 256 then Inr (word_of_int i) else Inl (ValueError ''bytes must be in range(0, 256)''))"
| "byte_of (PBool b) = Inr (if b then 1 else 0)"
| "byte_of _ = Inl (TypeError ''cannot be interpreted as an integer'')"

fun as_bytes :: "pyobj \<Rightarrow> exn + bytes" where
  "as_bytes (PBytes b) = Inr b"
| "as_bytes (PList xs) = emap byte_of xs"
| "as_bytes (PTuple xs) = emap byte_of xs"
| "as_bytes (PMap m) = emap byte_of (map fst m)"
| "as_bytes _ = Inl (TypeError ''cannot convert object to bytes'')"

definition int_from_bytes :: "pyobj \<Rightarrow> exn + int" where
  "int_from_bytes x = ebind (as_bytes x) (\<lambda>b. Inr (from_bytes_be b))"

lemma py_eq_PInt [py_simps]: "py_eq (PInt i) v \<longleftrightarrow> num_of v = Some i"
  by (simp add: py_eq_def)

lemma py_eq_PStr [py_simps]: "py_eq (PStr s) v \<longleftrightarrow> v = PStr s"
  by (auto simp: py_eq_def)

lemma py_eq_refl [simp]: "py_eq a a"
  by (simp add: py_eq_def split: option.split)

lemma get_or_Nil [py_simps]: "get_or [] k d = d"
  by (simp add: get_or_def)

lemma get_or_Cons [py_simps]:
  "get_or ((k', v) # m) k d = (if py_eq k k' then v else get_or m k d)"
  by (simp add: get_or_def)

lemma get_Nil [py_simps]: "get [] k = PNone"
  by (simp add: get_def py_simps)

lemma get_Cons [py_simps]: "get ((k', v) # m) k = (if py_eq k k' then v else get m k)"
  by (simp add: get_def py_simps)

lemma getitem_Nil [py_simps]: "getitem [] k = Inl KeyError"
  by (simp add: getitem_def)

lemma getitem_Cons [py_simps]: "getitem ((k', v) # m) k = (if py_eq k k' then Inr v else getitem m k)"
  by (simp add: getitem_def)

lemma getitem_get: "getitem m k = Inr v \<Longrightarrow> get m k = v"
  by (simp add: getitem_def get_def get_or_def split: option.splits)

lemma obj_get_eq_Inr [ebind_inv]:
  "obj_get x k d = Inr v \<longleftrightarrow> (\<exists>m. x = PMap m \<and> v = get_or m k d)"
  by (cases x) auto

text \<open>Inversion of the case distinctions that reject every object but one kind.\<close>

lemma case_PMap_Inr [ebind_inv]:
  "(case x of PMap m \<Rightarrow> f m | _ \<Rightarrow> Inl e) = Inr y \<longleftrightarrow> (\<exists>m. x = PMap m \<and> f m = Inr y)"
  by (cases x) auto

lemma case_PStr_Inr [ebind_inv]:
  "(case x of PStr s \<Rightarrow> f s | _ \<Rightarrow> Inl e) = Inr y \<longleftrightarrow> (\<exists>s. x = PStr s \<and> f s = Inr y)"
  by (cases x) auto

lemma case_PBytes_Inr [ebind_inv]:
  "(case x of PBytes b \<Rightarrow> f b | _ \<Rightarrow> Inl e) = Inr y \<longleftrightarrow> (\<exists>b. x = PBytes b \<and> f b = Inr y)"
  by (cases x) auto

lemma case_PInt_Inr [ebind_inv]:
  "(case x of PInt i \<Rightarrow> f i | _ \<Rightarrow> Inl e) = Inr y \<longleftrightarrow> (\<exists>i. x = PInt i \<and> f i = Inr y)"
  by (cases x) auto

lemma case_PList_Inr [ebind_inv]:
  "(case x of PList xs \<Rightarrow> f xs | _ \<Rightarrow> Inl e) = Inr y \<longleftrightarrow> (\<exists>xs. x = PList xs \<and> f xs = Inr y)"
  by (cases x) auto

lemma case_option_Inr [ebind_inv]:
  "(case z of None \<Rightarrow> Inl e | Some a \<Rightarrow> f a) = Inr y \<longleftrightarrow> (\<exists>a. z = Some a \<and> f a = Inr y)"
  by (cases z) auto

lemma is_mapping_iff: "is_mapping x \<longleftrightarrow> (\<exists>m. x = PMap m)"
  by (cases x) auto

lemma is_uint64_iff: "is_uint64 x \<longleftrightarrow> (\<exists>i. x = PInt i \<and> 0 \<le> i \<and> i < 2 ^ 64)"
  by (cases x) auto

lemma is_str_iff: "is_str x \<longleftrightarrow> (\<exists>s. x = PStr s)"
  by (cases x) auto

lemma get_not_PNone: "get m k \<noteq> PNone \<Longrightarrow> \<exists>k'. (k', get m k) \<in> set m \<and> py_eq k k'"
  by (induction m) (auto simp: py_simps split: if_splits)

section \<open>Text\<close>

text \<open>Decimal rendering of an integer, as \<open>str\<close> gives it.\<close>

fun dec_nat :: "nat \<Rightarrow> pystr" where
  "dec_nat n = (if n < 10 then [48 + n] else dec_nat (n div 10) @ [48 + n mod 10])"

declare dec_nat.simps [simp del]

definition dec_int :: "int \<Rightarrow> pystr" where
  "dec_int i = (if i < 0 then 45 # dec_nat (nat (- i)) else dec_nat (nat i))"

lemma dec_nat_nonempty [simp]: "dec_nat n \<noteq> []"
  by (subst dec_nat.simps) simp

lemma dec_nat_digits: "c \<in> set (dec_nat n) \<Longrightarrow> 48 \<le> c \<and> c \<le> 57"
proof (induction n rule: dec_nat.induct)
  case (1 n)
  from "1.prems" have "c \<in> set (if n < 10 then [48 + n] else dec_nat (n div 10) @ [48 + n mod 10])"
    by (simp add: dec_nat.simps [of n])
  with "1.IH" show ?case by (auto split: if_splits)
qed

text \<open>
  \<open>str.isspace\<close> on one code point, \<open>str.strip()\<close>, and the control characters (Unicode
  category Cc).
\<close>

definition is_space :: "nat \<Rightarrow> bool" where
  "is_space c \<longleftrightarrow> (9 \<le> c \<and> c \<le> 13) \<or> (28 \<le> c \<and> c \<le> 32) \<or> c \<in> {133, 160, 5760} \<or>
     (8192 \<le> c \<and> c \<le> 8202) \<or> c \<in> {8232, 8233, 8239, 8287, 12288}"

definition is_control :: "nat \<Rightarrow> bool" where
  "is_control c \<longleftrightarrow> c < 32 \<or> (127 \<le> c \<and> c < 160)"

definition strip :: "pystr \<Rightarrow> pystr" where
  "strip s = rev (dropWhile is_space (rev (dropWhile is_space s)))"

definition starts_with :: "pystr \<Rightarrow> pystr \<Rightarrow> bool" where
  "starts_with s prefix \<longleftrightarrow> take (length prefix) s = prefix"

lemma starts_with_append [simp]: "starts_with (p @ s) p"
  by (simp add: starts_with_def)

lemma strip_strip [simp]: "strip (strip s) = strip s"
proof -
  let ?d = "dropWhile is_space"
  let ?t = "rev (?d (rev (?d s)))"
  have "?d ?t = ?t"
  proof (cases ?t)
    case (Cons c cs)
    have "?d s = ?t @ rev (takeWhile is_space (rev (?d s)))"
      by (metis rev_append rev_rev_ident takeWhile_dropWhile_id)
    with Cons have ds: "?d s = c # cs @ rev (takeWhile is_space (rev (?d s)))"
      by (metis append_Cons)
    then have "\<not> is_space c" by (rule dropWhile_eq_Cons_conv [THEN iffD1, THEN conjunct2])
    with Cons show ?thesis by simp
  next
    case Nil
    then show ?thesis by (simp only: dropWhile.simps)
  qed
  then show ?thesis by (simp add: strip_def dropWhile_idem)
qed

text \<open>\<open>str.lower\<close> on ASCII letters.\<close>

definition lower_ascii :: "pystr \<Rightarrow> pystr" where
  "lower_ascii s = map (\<lambda>c. if 65 \<le> c \<and> c \<le> 90 then c + 32 else c) s"

section \<open>Splitting\<close>

text \<open>\<open>s.split(sep, n)\<close> and \<open>s.split(sep)\<close> for a one-character separator.\<close>

fun split_first :: "nat \<Rightarrow> pystr \<Rightarrow> pystr \<times> pystr option" where
  "split_first sep [] = ([], None)"
| "split_first sep (c # s) =
     (if c = sep then ([], Some s) else (let (p, r) = split_first sep s in (c # p, r)))"

fun split_max :: "nat \<Rightarrow> nat \<Rightarrow> pystr \<Rightarrow> pystr list" where
  "split_max sep 0 s = [s]"
| "split_max sep (Suc n) s = (case split_first sep s of (p, None) \<Rightarrow> [p] | (p, Some r) \<Rightarrow> p # split_max sep n r)"

fun split_all :: "nat \<Rightarrow> pystr \<Rightarrow> pystr list" where
  "split_all sep [] = [[]]"
| "split_all sep (c # s) =
     (if c = sep then [] # split_all sep s
      else (case split_all sep s of [] \<Rightarrow> [[c]] | p # ps \<Rightarrow> (c # p) # ps))"

end
