(* ===== verification/Py_Datetime.thy ===== *)
theory Py_Datetime
  imports Py_Object
begin

text \<open>
  \<open>isoformat\<close> and \<open>str\<close> of \<open>datetime.date\<close> and \<open>datetime.datetime\<close> of the Python standard library, on
  the proleptic Gregorian calendar.  The days of \<open>PDate\<close> and the microseconds of \<open>PDateTime\<close> count from
  the first of January of the year 1; \<open>civil\<close> is checked against the calendar's own counting rule.
\<close>

section \<open>Calendar\<close>

definition is_leap :: "nat \<Rightarrow> bool" where
  "is_leap y \<longleftrightarrow> y mod 4 = 0 \<and> (y mod 100 \<noteq> 0 \<or> y mod 400 = 0)"

definition month_lengths :: "nat \<Rightarrow> nat list" where
  "month_lengths y = [31, if is_leap y then 29 else 28, 31, 30, 31, 30, 31, 31, 30, 31, 30, 31]"

text \<open>The month and day of the \<open>n\<close>-th day of a year, counting both from 0.\<close>

fun month_day :: "nat list \<Rightarrow> nat \<Rightarrow> nat \<Rightarrow> nat \<times> nat" where
  "month_day [] m n = (m, n)"
| "month_day (l # ls) m n = (if n < l then (m, n) else month_day ls (Suc m) (n - l))"

text \<open>Cycles of 400, 100, 4 and 1 years, as \<open>_ord2ymd\<close> takes them; year, month and day count from 1.\<close>

definition year_day :: "nat \<Rightarrow> nat \<times> nat" where
  "year_day n =
     (let n400 = n div 146097; r = n mod 146097;
          n100 = min 3 (r div 36524); r = r - n100 * 36524;
          n4 = r div 1461; r = r mod 1461;
          n1 = min 3 (r div 365)
      in (1 + 400 * n400 + 100 * n100 + 4 * n4 + n1, r - n1 * 365))"

definition civil :: "nat \<Rightarrow> nat \<times> nat \<times> nat" where
  "civil n = (let (y, r) = year_day n; (m, d) = month_day (month_lengths y) 0 r in (y, m + 1, d + 1))"

text \<open>How many days lie before a year, and before a month in it.\<close>

definition days_before_year :: "nat \<Rightarrow> nat" where
  "days_before_year y = (y - 1) * 365 + (y - 1) div 4 - (y - 1) div 100 + (y - 1) div 400"

definition ordinal :: "nat \<times> nat \<times> nat \<Rightarrow> nat" where
  "ordinal ymd = (let (y, m, d) = ymd in
     days_before_year y + sum_list (take (m - 1) (month_lengths y)) + (d - 1))"

lemma month_day_sum:
  "n < sum_list ls \<Longrightarrow> month_day ls m n = (m', d) \<Longrightarrow>
    m \<le> m' \<and> m' - m < length ls \<and> d < ls ! (m' - m) \<and> sum_list (take (m' - m) ls) + d = n"
proof (induction ls m n rule: month_day.induct)
  case (2 l ls m n)
  show ?case
  proof (cases "n < l")
    case False
    with "2.prems" "2.IH" have IH: "Suc m \<le> m'" "m' - Suc m < length ls" "d < ls ! (m' - Suc m)"
      "sum_list (take (m' - Suc m) ls) + d = n - l" by auto
    then have "m' - m = Suc (m' - Suc m)" by simp
    with IH False show ?thesis by simp
  qed (use "2.prems" in auto)
qed simp

lemma year_length: "sum_list (month_lengths y) = (if is_leap y then 366 else 365)"
  by (simp add: month_lengths_def)

lemma year_day_sound:
  assumes "year_day n = (y, r)"
  shows "days_before_year y + r = n \<and> r < sum_list (month_lengths y) \<and> 1 \<le> y"
proof -
  define a b where "a = n div 146097" and "b = n mod 146097"
  define c where "c = min 3 (b div 36524)"
  define e where "e = b - c * 36524"
  define f g where "f = e div 1461" and "g = e mod 1461"
  define h where "h = min 3 (g div 365)"
  have yr: "y = 1 + 400 * a + 100 * c + 4 * f + h" "r = g - h * 365"
    using assms by (auto simp: year_day_def Let_def a_def b_def c_def e_def f_def g_def h_def)
  have n: "n = 146097 * a + b" "b < 146097" by (simp_all add: a_def b_def)
  have c: "c \<le> 3" "b = 36524 * c + e" "c < 3 \<longrightarrow> e < 36524" "e < 36525"
    using n(2) by (auto simp: c_def e_def min_def split: if_splits)
  have f: "f \<le> 24" "e = 1461 * f + g" "g < 1461" using c(4) by (auto simp: f_def g_def div_less_iff_less_mult less_Suc_eq_le [symmetric])
  have h: "h \<le> 3" "g = 365 * h + r" "h < 3 \<longrightarrow> r < 365" "r < 366"
    using f(3) by (auto simp: h_def yr(2) min_def split: if_splits)
  have y1: "y - 1 = 400 * a + 100 * c + 4 * f + h" by (simp add: yr(1))
  have "(y - 1) div 400 = a" "(y - 1) div 100 = 4 * a + c" "(y - 1) div 4 = 100 * a + 25 * c + f"
    unfolding y1 using c(1) f(1) h(1) by (auto intro!: div_nat_eqI)
  then have "days_before_year y + r = n"
    unfolding days_before_year_def y1 using n(1) c(2) f(2) h(2) by simp
  moreover have "is_leap y" if "r = 365"
  proof -
    from that h have h3: "h = 3" "g = 1460" by auto
    then have y4: "y = 4 * (100 * a + 25 * c + f + 1)" by (simp add: yr(1))
    have "f = 24 \<longrightarrow> c = 3" using h3 f(2) c(1,3) by auto
    then consider "f = 24" "c = 3" | "f < 24" using f(1) by linarith
    then show ?thesis
    proof cases
      case 1
      then have "y = 400 * (a + 1)" using y4 by simp
      then show ?thesis by (simp add: is_leap_def)
    next
      case 2
      then have "y div 100 = 4 * a + c" using y4 by (auto intro!: div_nat_eqI)
      then have "y mod 100 = 4 * f + 4" using y4 by (simp add: minus_mult_div_eq_mod [symmetric])
      then show ?thesis using y4 by (simp add: is_leap_def)
    qed
  qed
  ultimately show ?thesis using h(4) yr(1) by (cases "r = 365") (simp_all add: year_length)
qed

text \<open>\<open>civil\<close> inverts the calendar's counting, and its month and day are in range.\<close>

lemma civil_ordinal:
  assumes "civil n = (y, m, d)"
  shows "ordinal (y, m, d) = n \<and> 1 \<le> m \<and> m \<le> 12 \<and> 1 \<le> d \<and> d \<le> month_lengths y ! (m - 1)"
proof -
  obtain r m' d' where yr: "year_day n = (y, r)" and md: "month_day (month_lengths y) 0 r = (m', d')"
    and eq: "m = m' + 1" "d = d' + 1"
    using assms by (auto simp: civil_def Let_def split: prod.splits)
  from year_day_sound [OF yr] month_day_sum [OF _ md] have
    "days_before_year y + r = n" "m' < length (month_lengths y)" "d' < month_lengths y ! m'"
    "sum_list (take m' (month_lengths y)) + d' = r" by auto
  then show ?thesis by (simp add: eq ordinal_def month_lengths_def)
qed

lemma civil_known_days:
  "civil 0 = (1, 1, 1)" "civil 719162 = (1970, 1, 1)" "civil 730178 = (2000, 2, 29)" "civil 3652058 = (9999, 12, 31)"
  by code_simp+

section \<open>isoformat\<close>

text \<open>\<open>f"{n:0kd}"\<close> of a number that fits \<open>k\<close> digits.\<close>

fun dec_fixed :: "nat \<Rightarrow> nat \<Rightarrow> pystr" where
  "dec_fixed 0 n = []"
| "dec_fixed (Suc k) n = dec_fixed k (n div 10) @ [48 + n mod 10]"

definition date_text :: "nat \<Rightarrow> pystr" where
  "date_text n = (let (y, m, d) = civil n in dec_fixed 4 y @ [45] @ dec_fixed 2 m @ [45] @ dec_fixed 2 d)"

text \<open>Hours, minutes and seconds of a number of microseconds; the microseconds only if there are any.\<close>

definition fraction_text :: "nat \<Rightarrow> pystr" where
  "fraction_text us = (if us mod 1000000 = 0 then [] else [46] @ dec_fixed 6 (us mod 1000000))"

definition hours_minutes :: "nat \<Rightarrow> pystr" where
  "hours_minutes us = dec_fixed 2 (us div 3600000000) @ [58] @ dec_fixed 2 (us div 60000000 mod 60)"

definition time_text :: "nat \<Rightarrow> pystr" where
  "time_text us = hours_minutes us @ [58] @ dec_fixed 2 (us div 1000000 mod 60) @ fraction_text us"

text \<open>The offset's seconds only if they or the microseconds are not zero.\<close>

definition offset_text :: "tzinfo \<Rightarrow> pystr" where
  "offset_text tz =
     (case tz of
        TzOffset offset \<Rightarrow>
          (let us = nat \<bar>offset\<bar> in
           [if offset < 0 then 45 else 43] @ hours_minutes us @
           (if us mod 60000000 = 0 then [] else [58] @ dec_fixed 2 (us div 1000000 mod 60) @ fraction_text us))
      | _ \<Rightarrow> [])"

definition datetime_text :: "nat \<Rightarrow> tzinfo \<Rightarrow> int \<Rightarrow> pystr" where
  "datetime_text sep tz wall =
     (let us = nat wall; day = 86400000000
      in date_text (us div day) @ [sep] @ time_text (us mod day) @ offset_text tz)"

lemma isoformat_examples:
  "datetime_text 84 (TzOffset 0) 63902822400000000 = U ''2026-01-01T00:00:00+00:00''"
  "datetime_text 32 (TzOffset (- 5400000000)) 63902822461000250 = U ''2026-01-01 00:01:01.000250-01:30''"
  "date_text 738885 = U ''2024-01-01''"
  by code_simp+

lemma dec_fixed_digits: "c \<in> set (dec_fixed k n) \<Longrightarrow> 48 \<le> c \<and> c \<le> 57"
proof (induction k arbitrary: n)
  case (Suc k)
  have "n mod 10 \<le> 9" using mod_less_divisor [of 10 n] by linarith
  with Suc show ?case by auto
qed simp

lemma dec_fixed_range: "set (dec_fixed k n) \<subseteq> {43..58}"
  using dec_fixed_digits by fastforce

lemma date_text_range: "set (date_text n) \<subseteq> {43..58}"
  using dec_fixed_range by (cases "civil n") (simp add: date_text_def)

lemma time_text_range: "set (time_text us) \<subseteq> {43..58}" "set (hours_minutes us) \<subseteq> {43..58}" "set (fraction_text us) \<subseteq> {43..58}"
  using dec_fixed_range by (simp_all add: time_text_def hours_minutes_def fraction_text_def)

lemma offset_text_range: "set (offset_text tz) \<subseteq> {43..58}"
proof (cases tz)
  case (TzOffset offset)
  define us where "us = nat \<bar>offset\<bar>"
  have "offset_text tz = [if offset < 0 then 45 else 43] @ hours_minutes us @
      (if us mod 60000000 = 0 then [] else [58] @ dec_fixed 2 (us div 1000000 mod 60) @ fraction_text us)"
    unfolding TzOffset offset_text_def us_def Let_def by simp
  then show ?thesis using dec_fixed_range time_text_range by simp
qed (simp_all add: offset_text_def)

lemma datetime_text_range: "set (datetime_text sep tz w) \<subseteq> insert sep {43..58}"
  using date_text_range time_text_range offset_text_range
  by (simp add: datetime_text_def Let_def subset_insertI2)

section \<open>isoformat and str of an object\<close>

fun isoformat :: "pyobj \<Rightarrow> pystr" where
  "isoformat (PDateTime tz wall) = datetime_text 84 tz wall"
| "isoformat (PDate n) = date_text (nat n)"
| "isoformat _ = []"

fun date_str :: "pyobj \<Rightarrow> pystr" where
  "date_str (PDateTime tz wall) = datetime_text 32 tz wall"
| "date_str v = isoformat v"

lemma isoformat_range: "set (isoformat v) \<subseteq> insert 84 {43..58}"
  using datetime_text_range date_text_range by (cases v) (simp_all add: subset_insertI2)

lemma date_str_range: "set (date_str v) \<subseteq> {32, 84} \<union> {43..58}"
  using datetime_text_range [of 32] isoformat_range [of v] by (cases v) (auto simp: subset_iff simp del: isoformat.simps)

end
