(* ===== verification/Externals.thy ===== *)
theory Externals
  imports Py_Datetime
begin

text \<open>
  The third-party code the program calls, as one record of functions that the model's
  definitions take as an argument: \<open>cbor2\<close> and \<open>cryptography\<close>.  Nothing is known about these
  functions except what a theorem assumes in its statement.  A call that may raise returns
  a value of \<open>exn + 'a\<close>; a verification returns \<open>Inr False\<close> for \<open>InvalidSignature\<close>.
\<close>

datatype hash_alg = SHA256 | SHA384 | SHA512

text \<open>
  Public keys by the class the source tests for: elliptic-curve keys with their curve's key
  size in bits, Ed25519/Ed448 keys, and all others.  The last argument tells keys apart.
\<close>

datatype public_key = ECKey int nat | EdKey nat | OtherKey nat

record x509_cert =
  cert_subject :: pystr
  cert_issuer :: pystr
  cert_serial :: int
  cert_not_before :: pyobj
  cert_not_after :: pyobj
  cert_public_key :: "exn + public_key"

text \<open>
  What \<open>to_jsonable\<close> produces; \<open>JRaw\<close> is an object it passes through, which \<open>json.dumps\<close>
  may reject.
\<close>

datatype json =
    JNull
  | JBool bool
  | JInt int
  | JStr pystr
  | JList "json list"
  | JObj "(pystr \<times> json) list"
  | JRaw pyobj

record lib =
  cbor_dumps :: "pyobj \<Rightarrow> exn + bytes"
    \<comment> \<open>\<open>cbor2.dumps\<close>\<close>
  cbor_loads :: "bytes \<Rightarrow> exn + pyobj"
    \<comment> \<open>\<open>cbor2.loads\<close>\<close>
  cbor_decode :: "(int \<times> (bytes \<Rightarrow> pyobj)) list \<Rightarrow> bytes \<Rightarrow> exn + (pyobj \<times> nat)"
    \<comment> \<open>\<open>CBORDecoder(stream, semantic_decoders).decode()\<close> with the bytes consumed\<close>
  py_str :: "pyobj \<Rightarrow> exn + pystr"
    \<comment> \<open>\<open>str\<close> of bytes, a container or another object\<close>
  py_repr :: "pyobj \<Rightarrow> exn + pystr"
  json_raw :: "pyobj \<Rightarrow> exn + pystr"
    \<comment> \<open>what \<open>json.dumps\<close> writes for an object that is neither text, number, list nor dict of the model:
      the \<open>repr\<close> of a float, or an exception\<close>
  hash_digest :: "hash_alg \<Rightarrow> bytes \<Rightarrow> bytes"
  hkdf :: "nat \<Rightarrow> bytes option \<Rightarrow> bytes \<Rightarrow> bytes \<Rightarrow> bytes"
    \<comment> \<open>\<open>HKDF(SHA256, length, salt, info).derive(key material)\<close>\<close>
  aesgcm_encrypt :: "bytes \<Rightarrow> bytes \<Rightarrow> bytes \<Rightarrow> bytes \<Rightarrow> exn + bytes"
    \<comment> \<open>key, nonce, data, associated data\<close>
  aesgcm_decrypt :: "bytes \<Rightarrow> bytes \<Rightarrow> bytes \<Rightarrow> bytes \<Rightarrow> exn + bytes"
  hmac_verify :: "bytes \<Rightarrow> bytes \<Rightarrow> bytes \<Rightarrow> bool"
    \<comment> \<open>HMAC-SHA256 key, message, tag\<close>
  encode_dss :: "int \<Rightarrow> int \<Rightarrow> bytes"
  ecdsa_verify :: "public_key \<Rightarrow> bytes \<Rightarrow> bytes \<Rightarrow> hash_alg \<Rightarrow> exn + bool"
    \<comment> \<open>key, DER signature, message, hash\<close>
  eddsa_verify :: "public_key \<Rightarrow> bytes \<Rightarrow> bytes \<Rightarrow> exn + bool"
  public_numbers :: "public_key \<Rightarrow> int \<times> int"
  p256_public_key :: "int \<Rightarrow> int \<Rightarrow> exn + public_key"
    \<comment> \<open>\<open>EllipticCurvePublicNumbers(x, y, SECP256R1()).public_key()\<close>\<close>
  ecdh :: "nat \<Rightarrow> public_key \<Rightarrow> exn + bytes"
    \<comment> \<open>\<open>private_key.exchange(ECDH(), public_key)\<close>\<close>
  private_public :: "nat \<Rightarrow> public_key"
    \<comment> \<open>\<open>private_key.public_key()\<close>\<close>
  load_certificate :: "bytes \<Rightarrow> exn + x509_cert"

text \<open>
  \<open>codec_ok L v\<close>: encoding \<open>v\<close> succeeds and decoding the result with the given hooks reads
  \<open>v\<close> back and consumes every byte, the documented behaviour of a CBOR codec on values
  whose tags the hooks leave alone.
\<close>

definition codec_ok :: "(int \<times> (bytes \<Rightarrow> pyobj)) list \<Rightarrow> lib \<Rightarrow> pyobj \<Rightarrow> bool" where
  "codec_ok hooks L v \<longleftrightarrow> (case cbor_dumps L v of Inl _ \<Rightarrow> False | Inr b \<Rightarrow> cbor_decode L hooks b = Inr (v, length b))"

lemma codec_okE:
  assumes "codec_ok hooks L v"
  obtains b where "cbor_dumps L v = Inr b" and "cbor_decode L hooks b = Inr (v, length b)"
  using assms by (auto simp: codec_ok_def split: sum.splits)

text \<open>\<open>str(value)\<close>.\<close>

fun atom_str :: "lib \<Rightarrow> pyobj \<Rightarrow> exn + pystr" where
  "atom_str L (PStr s) = Inr s"
| "atom_str L (PInt i) = Inr (dec_int i)"
| "atom_str L (PBool b) = Inr (if b then U ''True'' else U ''False'')"
| "atom_str L PNone = Inr (U ''None'')"
| "atom_str L (PDateTime tz w) = Inr (date_str (PDateTime tz w))"
| "atom_str L (PDate d) = Inr (date_str (PDate d))"
| "atom_str L v = py_str L v"

section \<open>A concrete instance\<close>

text \<open>
  For evaluating the model on concrete inputs: CBOR is a table of the byte strings and objects
  of the example, a digest is the message's length and first bytes, and a signature is valid
  when it equals the message's last byte repeated.  Only witnesses use it.
\<close>

definition table_dumps :: "(bytes \<times> pyobj) list \<Rightarrow> pyobj \<Rightarrow> exn + bytes" where
  "table_dumps t v = (case find (\<lambda>(b, w). w = v) t of Some (b, _) \<Rightarrow> Inr b | None \<Rightarrow> Inr [255])"

definition table_decode :: "(bytes \<times> pyobj) list \<Rightarrow> (int \<times> (bytes \<Rightarrow> pyobj)) list \<Rightarrow> bytes \<Rightarrow> exn + (pyobj \<times> nat)" where
  "table_decode t hooks b = (case map_of t b of Some v \<Rightarrow> Inr (v, length b) | None \<Rightarrow> Inl (LibError 1 IsValueError))"

definition demo_cert :: x509_cert where
  "demo_cert = \<lparr>cert_subject = U ''CN=DS'', cert_issuer = U ''CN=DS'', cert_serial = 12345,
     cert_not_before = PDateTime (TzOffset 0) 0, cert_not_after = PDateTime (TzOffset 0) 100, cert_public_key = Inr (ECKey 8 1)\<rparr>"

definition demo_lib :: "(bytes \<times> pyobj) list \<Rightarrow> lib" where
  "demo_lib t = \<lparr>cbor_dumps = table_dumps t,
     cbor_loads = (\<lambda>b. ebind (table_decode t [] b) (\<lambda>(v, _). Inr v)),
     cbor_decode = table_decode t,
     py_str = (\<lambda>v. Inr (U ''?'')),
     py_repr = (\<lambda>v. Inr (U ''?'')),
     json_raw = (\<lambda>v. Inl (TypeError ''Object is not JSON serializable'')),
     hash_digest = (\<lambda>h m. [of_nat (length m)] @ take 1 m),
     hkdf = (\<lambda>n salt info k. take n (info @ k)),
     aesgcm_encrypt = (\<lambda>k iv d aad. Inr (iv @ d)),
     aesgcm_decrypt = (\<lambda>k iv d aad. if take 12 d = iv then Inr (drop 12 d) else Inl (LibError 2 IsOtherError)),
     hmac_verify = (\<lambda>k m tag. tag = take 1 k @ [of_nat (length m)]),
     encode_dss = (\<lambda>r s. [word_of_int r, word_of_int s]),
     ecdsa_verify = (\<lambda>k sig m h. Inr (sig = [of_nat (length m), 7])),
     eddsa_verify = (\<lambda>k sig m. Inr (sig = [of_nat (length m)])),
     public_numbers = (\<lambda>k. case k of ECKey _ n \<Rightarrow> (int n, int n + 1) | _ \<Rightarrow> (0, 0)),
     p256_public_key = (\<lambda>x y. if y = x + 1 then Inr (ECKey 256 (nat x)) else Inl (ValueError ''point is not on the curve'')),
     ecdh = (\<lambda>d k. Inr [of_nat d]),
     private_public = (\<lambda>d. ECKey 256 d),
     load_certificate = (\<lambda>b. if b = [48, 0] then Inr demo_cert else Inl (ValueError ''error parsing asn1 value''))\<rparr>"

end
