(* ===== verification/Cose_Verify.thy ===== *)
theory Cose_Verify
  imports Externals
begin

text \<open>
  \<open>verify.py\<close>: COSE_Sign1 and COSE_Mac0 verification and MSO digests.  The outcome of a
  verification is three-valued: \<open>Inr True\<close>, \<open>Inr False\<close>, or an exception, of which
  \<open>UnsupportedAlgorithm\<close> means "not attempted".  The two COSE verifications share their
  skeleton, which the locale \<open>cose_check\<close> captures.
\<close>

section \<open>Algorithms\<close>

definition ecdsa_alg_hash :: "int \<Rightarrow> hash_alg option" where
  "ecdsa_alg_hash alg =
     (if alg = -7 then Some SHA256 else if alg = -35 then Some SHA384
      else if alg = -36 then Some SHA512 else None)"

definition EDDSA_ALG :: int where "EDDSA_ALG = -8"
definition HMAC_256_256_ALG :: int where "HMAC_256_256_ALG = 5"

definition digest_algorithms :: "(string \<times> hash_alg) list" where
  "digest_algorithms = [(''SHA-256'', SHA256), (''SHA-384'', SHA384), (''SHA-512'', SHA512)]"

section \<open>Decoding\<close>

text \<open>\<open>_preserve_bignum_tag\<close>: tags 2 and 3 stay tags, so a bignum is never an ordinary integer.\<close>

definition preserve_bignum_tag :: "int \<Rightarrow> bytes \<Rightarrow> pyobj" where
  "preserve_bignum_tag tag value =
     (let integer = from_bytes_be value
      in PTag tag (PInt (if tag = 2 then integer else -1 - integer)))"

definition BIGNUM_DECODERS :: "(int \<times> (bytes \<Rightarrow> pyobj)) list" where
  "BIGNUM_DECODERS = [(2, preserve_bignum_tag 2), (3, preserve_bignum_tag 3)]"

definition decode_cbor_item :: "lib \<Rightarrow> bytes \<Rightarrow> exn + (pyobj \<times> nat)" where
  "decode_cbor_item L data = cbor_decode L BIGNUM_DECODERS data"

lemma bignum_not_uint64: "(t, d) \<in> set BIGNUM_DECODERS \<Longrightarrow> \<not> is_uint64 (d b) \<and> num_of (d b) = None"
  by (auto simp: BIGNUM_DECODERS_def preserve_bignum_tag_def Let_def)

definition sig_structure :: "lib \<Rightarrow> string \<Rightarrow> bytes \<Rightarrow> pyobj \<Rightarrow> bytes \<Rightarrow> exn + bytes" where
  "sig_structure L ctx protected_bytes payload external_aad =
     cbor_dumps L (PList [S ctx, PBytes protected_bytes, PBytes external_aad, payload])"

text \<open>\<open>_cose_alg\<close> of a structure whose headers are \<open>protected_bytes\<close> and \<open>unprotected\<close>.\<close>

definition cose_alg :: "lib \<Rightarrow> pyobj \<Rightarrow> pyobj \<Rightarrow> exn + int" where
  "cose_alg L protected_bytes unprotected =
     (case (protected_bytes, unprotected) of
        (PBytes pb, PMap un) \<Rightarrow>
          ebind (if pb \<noteq> [] then decode_cbor_item L pb else Inr (PMap [], 0)) (\<lambda>(protected, consumed).
          if consumed \<noteq> length pb then Inl (UnsupportedAlgorithm ''trailing data in COSE protected header'') else
          case protected of
            PMap pm \<Rightarrow>
              (case get_or pm (PInt 1) (get un (PInt 1)) of
                 PNone \<Rightarrow> Inl (UnsupportedAlgorithm ''no alg (label 1) in COSE protected/unprotected header'')
               | PInt alg \<Rightarrow> Inr alg
               | _ \<Rightarrow> Inl (UnsupportedAlgorithm ''COSE algorithm must be an integer''))
          | _ \<Rightarrow> Inl (UnsupportedAlgorithm ''invalid COSE protected header''))
      | _ \<Rightarrow> Inl (UnsupportedAlgorithm ''invalid COSE header types''))"

section \<open>Verification\<close>

text \<open>The signature check proper, by the class of the public key.\<close>

definition check_signature :: "lib \<Rightarrow> public_key \<Rightarrow> int \<Rightarrow> bytes \<Rightarrow> bytes \<Rightarrow> exn + bool" where
  "check_signature L key alg signature sig_struct =
     (case key of
        ECKey key_size _ \<Rightarrow>
          (case ecdsa_alg_hash alg of
             None \<Rightarrow> Inl (UnsupportedAlgorithm ''unsupported ECDSA COSE alg'')
           | Some hash_alg \<Rightarrow>
               (let key_len = nat ((key_size + 7) div 8) in
                if length signature \<noteq> 2 * key_len then Inr False
                else let r = from_bytes_be (take key_len signature);
                         s = from_bytes_be (drop key_len signature)
                     in ecdsa_verify L key (encode_dss L r s) sig_struct hash_alg))
      | EdKey _ \<Rightarrow>
          if alg \<noteq> EDDSA_ALG then Inl (UnsupportedAlgorithm ''unsupported EdDSA COSE alg'')
          else eddsa_verify L key signature sig_struct
      | OtherKey _ \<Rightarrow> Inl (UnsupportedAlgorithm ''unsupported public key type''))"

definition verify_cose_sign1 ::
  "lib \<Rightarrow> pyobj list \<Rightarrow> public_key \<Rightarrow> bytes option \<Rightarrow> bytes \<Rightarrow> exn + bool" where
  "verify_cose_sign1 L cose_sign1 public_key detached_payload external_aad =
     (case cose_sign1 of
        [p, u, payload, signature] \<Rightarrow>
          (case (p, u, signature) of
             (PBytes protected_bytes, PMap unprotected, PBytes sig) \<Rightarrow>
               (let message_payload = (case detached_payload of Some d \<Rightarrow> PBytes d | None \<Rightarrow> payload) in
                if message_payload = PNone then Inl (UnsupportedAlgorithm ''COSE_Sign1 payload is null'') else
                ebind (cose_alg L p u) (\<lambda>alg.
                ebind (sig_structure L ''Signature1'' protected_bytes message_payload external_aad) (\<lambda>sig_struct.
                check_signature L public_key alg sig sig_struct)))
           | _ \<Rightarrow> Inr False)
      | _ \<Rightarrow> Inl (ValueError ''wrong number of values to unpack''))"

definition check_mac :: "lib \<Rightarrow> bytes \<Rightarrow> int \<Rightarrow> bytes \<Rightarrow> bytes \<Rightarrow> exn + bool" where
  "check_mac L mac_key alg tag mac_struct = Inr (hmac_verify L mac_key mac_struct tag)"

definition verify_cose_mac0 ::
  "lib \<Rightarrow> pyobj list \<Rightarrow> bytes \<Rightarrow> bytes option \<Rightarrow> bytes \<Rightarrow> exn + bool" where
  "verify_cose_mac0 L cose_mac0 mac_key detached_payload external_aad =
     (case cose_mac0 of
        [p, u, payload, tag] \<Rightarrow>
          (case (p, u, tag) of
             (PBytes protected_bytes, PMap unprotected, PBytes t) \<Rightarrow>
               (let message_payload = (case detached_payload of Some d \<Rightarrow> PBytes d | None \<Rightarrow> payload) in
                if message_payload = PNone then Inl (UnsupportedAlgorithm ''COSE_Mac0 payload is null'') else
                ebind (cose_alg L p u) (\<lambda>alg.
                if alg \<noteq> HMAC_256_256_ALG then Inl (UnsupportedAlgorithm ''unsupported MAC COSE alg'') else
                ebind (sig_structure L ''MAC0'' protected_bytes message_payload external_aad) (\<lambda>mac_struct.
                check_mac L mac_key alg t mac_struct)))
           | _ \<Rightarrow> Inr False)
      | _ \<Rightarrow> Inl (ValueError ''wrong number of values to unpack''))"

text \<open>\<open>DIGEST_ALGORITHMS.get(x)\<close> needs a hashable \<open>x\<close>.\<close>

definition verify_digest :: "lib \<Rightarrow> pyobj \<Rightarrow> bytes \<Rightarrow> pyobj \<Rightarrow> exn + bool" where
  "verify_digest L digest_algorithm issuer_signed_item_bytes expected_digest =
     (if \<not> hashable digest_algorithm then Inl (TypeError ''unhashable type'') else
      case map_of (map (\<lambda>(n, h). (S n, h)) digest_algorithms) digest_algorithm of
        None \<Rightarrow> Inl (UnsupportedAlgorithm ''unsupported digestAlgorithm'')
      | Some algorithm \<Rightarrow> Inr (PBytes (hash_digest L algorithm issuer_signed_item_bytes) = expected_digest))"

text \<open>
  \<open>try: ... except verify.UnsupportedAlgorithm: None\<close>, the way every caller turns the
  outcome into a verdict that is \<open>None\<close> when nothing was attempted.
\<close>

fun verdict_of :: "exn + bool \<Rightarrow> exn + bool option" where
  "verdict_of (Inr b) = Inr (Some b)"
| "verdict_of (Inl (UnsupportedAlgorithm _)) = Inr None"
| "verdict_of (Inl e) = Inl e"

lemma verdict_of_Some [ebind_inv]: "verdict_of r = Inr (Some b) \<longleftrightarrow> r = Inr b"
  by (cases r rule: verdict_of.cases) auto

section \<open>The shape both verifications share\<close>

text \<open>
  A COSE check is \<open>verify L struct key detached aad\<close> with context string \<open>ctx\<close> and primitive
  check \<open>prim\<close>: it says yes only by asking the primitive about the Sig_structure that binds
  the context, the protected header, the external data and the payload.
\<close>

locale cose_check =
  fixes ctx :: string
    and verify :: "lib \<Rightarrow> pyobj list \<Rightarrow> 'k \<Rightarrow> bytes option \<Rightarrow> bytes \<Rightarrow> exn + bool"
    and prim :: "lib \<Rightarrow> 'k \<Rightarrow> int \<Rightarrow> bytes \<Rightarrow> bytes \<Rightarrow> exn + bool"
  assumes verify_True: "verify L items key detached aad = Inr True \<Longrightarrow>
      \<exists>pb un payload sig alg msg. items = [PBytes pb, PMap un, payload, PBytes sig] \<and>
        cose_alg L (PBytes pb) (PMap un) = Inr alg \<and>
        sig_structure L ctx pb (case detached of Some d \<Rightarrow> PBytes d | None \<Rightarrow> payload) aad = Inr msg \<and>
        prim L key alg sig msg = Inr True"
    and verify_null: "detached = None \<Longrightarrow> verify L [PBytes pb, PMap un, PNone, PBytes sig] key detached aad \<noteq> Inr b"
begin

text \<open>A valid detached verdict does not depend on the payload slot.\<close>

lemma verify_four: "verify L items key detached aad = Inr True \<Longrightarrow> length items = 4"
  using verify_True [of L items key detached aad] by auto

lemma verify_binds:
  assumes "verify L [PBytes pb, PMap un, payload, PBytes sig] key (Some d) aad = Inr True"
  obtains alg msg where "cose_alg L (PBytes pb) (PMap un) = Inr alg"
    "cbor_dumps L (PList [S ctx, PBytes pb, PBytes aad, PBytes d]) = Inr msg"
    "prim L key alg sig msg = Inr True"
  using verify_True [OF assms] that by (auto simp: sig_structure_def)

end

lemma verify_cose_sign1_True:
  assumes "verify_cose_sign1 L items key detached aad = Inr True"
  shows "\<exists>pb un payload sig alg msg. items = [PBytes pb, PMap un, payload, PBytes sig] \<and>
    cose_alg L (PBytes pb) (PMap un) = Inr alg \<and>
    sig_structure L ''Signature1'' pb (case detached of Some d \<Rightarrow> PBytes d | None \<Rightarrow> payload) aad = Inr msg \<and>
    check_signature L key alg sig msg = Inr True"
  using assms unfolding verify_cose_sign1_def
  by (auto simp: ebind_inv Let_def split: list.splits pyobj.splits if_splits)

lemma verify_cose_mac0_True:
  assumes "verify_cose_mac0 L items key detached aad = Inr True"
  shows "\<exists>pb un payload tag alg msg. items = [PBytes pb, PMap un, payload, PBytes tag] \<and>
    cose_alg L (PBytes pb) (PMap un) = Inr alg \<and> alg = HMAC_256_256_ALG \<and>
    sig_structure L ''MAC0'' pb (case detached of Some d \<Rightarrow> PBytes d | None \<Rightarrow> payload) aad = Inr msg \<and>
    check_mac L key alg tag msg = Inr True"
  using assms unfolding verify_cose_mac0_def
  by (auto simp: ebind_inv Let_def split: list.splits pyobj.splits if_splits)

interpretation sign1: cose_check "''Signature1''" verify_cose_sign1 check_signature
  by unfold_locales (use verify_cose_sign1_True in \<open>blast, auto simp: verify_cose_sign1_def\<close>)

interpretation mac0: cose_check "''MAC0''" verify_cose_mac0 check_mac
  by unfold_locales (use verify_cose_mac0_True in \<open>blast, auto simp: verify_cose_mac0_def\<close>)

lemma check_signature_True:
  assumes "check_signature L key alg sig msg = Inr True"
  shows "(\<exists>n k h. key = ECKey n k \<and> ecdsa_alg_hash alg = Some h \<and> length sig = 2 * nat ((n + 7) div 8) \<and>
      ecdsa_verify L key (encode_dss L (from_bytes_be (take (nat ((n + 7) div 8)) sig))
        (from_bytes_be (drop (nat ((n + 7) div 8)) sig))) msg h = Inr True) \<or>
    (\<exists>k. key = EdKey k \<and> alg = EDDSA_ALG \<and> eddsa_verify L key sig msg = Inr True)"
  using assms by (auto simp: check_signature_def Let_def split: public_key.splits option.splits if_splits)

lemma verify_digest_True:
  "verify_digest L a m d = Inr True \<Longrightarrow>
    \<exists>n h. (n, h) \<in> set digest_algorithms \<and> a = S n \<and> d = PBytes (hash_digest L h m)"
  by (auto simp: verify_digest_def digest_algorithms_def split: option.splits if_splits)

section \<open>Properties\<close>

text \<open>
  C11: a COSE_Sign1 verification that succeeds has a signature of the key's own algorithm: an
  elliptic-curve key goes with ES256, ES384 or ES512 and a signature of exactly two
  coordinates' length, an Edwards key with EdDSA; and what was verified is the
  \<open>Signature1\<close> structure over the protected header, the external data and the payload.
\<close>

theorem cose_sign1_key_alg_agree:
  assumes "verify_cose_sign1 L items key detached aad = Inr True"
  shows "\<exists>pb un payload sig alg msg. items = [PBytes pb, PMap un, payload, PBytes sig] \<and>
    cose_alg L (PBytes pb) (PMap un) = Inr alg \<and>
    cbor_dumps L (PList [S ''Signature1'', PBytes pb, PBytes aad, case detached of Some d \<Rightarrow> PBytes d | None \<Rightarrow> payload]) = Inr msg \<and>
    ((\<exists>n k h. key = ECKey n k \<and> ecdsa_alg_hash alg = Some h \<and> length sig = 2 * nat ((n + 7) div 8) \<and>
        ecdsa_verify L key (encode_dss L (from_bytes_be (take (nat ((n + 7) div 8)) sig))
          (from_bytes_be (drop (nat ((n + 7) div 8)) sig))) msg h = Inr True) \<or>
     (\<exists>k. key = EdKey k \<and> alg = EDDSA_ALG \<and> eddsa_verify L key sig msg = Inr True))"
proof -
  from verify_cose_sign1_True [OF assms] obtain pb un payload sig alg msg
    where *: "items = [PBytes pb, PMap un, payload, PBytes sig]" "cose_alg L (PBytes pb) (PMap un) = Inr alg"
      "cbor_dumps L (PList [S ''Signature1'', PBytes pb, PBytes aad, case detached of Some d \<Rightarrow> PBytes d | None \<Rightarrow> payload]) = Inr msg"
      "check_signature L key alg sig msg = Inr True"
    unfolding sig_structure_def by blast
  from * check_signature_True [OF *(4)] show ?thesis by blast
qed

definition demo_sign1_table :: "(bytes \<times> pyobj) list" where
  "demo_sign1_table = [([5], PMap [(PInt 1, PInt (-7))]),
     ([6], PList [S ''Signature1'', PBytes [5], PBytes [], PBytes [4]])]"

theorem cose_sign1_key_alg_agree_witness:
  "verify_cose_sign1 (demo_lib demo_sign1_table) [PBytes [5], PMap [], PBytes [4], PBytes [1, 7]] (ECKey 8 1) None [] = Inr True \<and>
   (\<exists>h. ecdsa_alg_hash (-7) = Some h)"
proof -
  have v: "verify_cose_sign1 (demo_lib demo_sign1_table) [PBytes [5], PMap [], PBytes [4], PBytes [1, 7]] (ECKey 8 1) None [] = Inr True"
    by code_simp
  have alg: "cose_alg (demo_lib demo_sign1_table) (PBytes [5]) (PMap []) = Inr (-7)" by code_simp
  from v alg cose_sign1_key_alg_agree [OF v] show ?thesis by auto
qed

text \<open>
  An algorithm in the protected header wins: the unprotected header, which no signature covers, then
  has no influence on the algorithm that is used.
\<close>

lemma protected_alg_wins:
  assumes "pb \<noteq> []" and "decode_cbor_item L pb = Inr (PMap pm, n)" and "dict_lookup pm (PInt 1) = Some v"
  shows "cose_alg L (PBytes pb) (PMap un) = cose_alg L (PBytes pb) (PMap un')"
  using assms by (simp add: cose_alg_def get_or_def)

end
