(* ===== verification/Mdoc_Parse.thy ===== *)
theory Mdoc_Parse
  imports Cose_Verify
begin

text \<open>
  The parsing half of \<open>mdoc.py\<close>: from DeviceResponse bytes to a \<open>device_response\<close> record, with
  the MSO, the IssuerAuth verdict and the per-element digest verdicts on the way.  Every
  structural requirement of the source is a branch that returns its exception, in the
  order of the source.
\<close>

definition STATUS_NAMES :: "(int \<times> string) list" where
  "STATUS_NAMES = [(0, ''OK''), (10, ''General error''), (11, ''CBOR decoding error''), (12, ''CBOR validation error'')]"

definition COSE_ALG_NAMES :: "(int \<times> string) list" where
  "COSE_ALG_NAMES = [(-7, ''ES256''), (-35, ''ES384''), (-36, ''ES512''), (-8, ''EdDSA'')]"

abbreviation bad :: "string \<Rightarrow> exn + 'a" where
  "bad msg \<equiv> Inl (MdocStructureError msg)"

section \<open>Decoding helpers\<close>

definition mdoc_loads :: "lib \<Rightarrow> bytes \<Rightarrow> exn + pyobj" where
  "mdoc_loads L data =
     ebind (decode_cbor_item L data) (\<lambda>(decoded, consumed).
     if consumed \<noteq> length data then bad ''trailing CBOR data'' else Inr decoded)"

fun unwrap_tagged24 :: "lib \<Rightarrow> pyobj \<Rightarrow> exn + pyobj" where
  "unwrap_tagged24 L (PTag tag (PBytes b)) =
     (if tag \<noteq> 24 then bad ''expected tag-24 encoded bytes'' else mdoc_loads L b)"
| "unwrap_tagged24 L _ = bad ''expected tag-24 encoded bytes''"

section \<open>Certificates and the MSO\<close>

record certificate_info =
  ci_subject :: pystr
  ci_issuer :: pystr
  ci_serial_number :: int
  ci_not_before :: pyobj
  ci_not_after :: pyobj

definition certificate_from_der :: "lib \<Rightarrow> bytes \<Rightarrow> exn + certificate_info" where
  "certificate_from_der L der =
     ebind (load_certificate L der) (\<lambda>cert.
     Inr \<lparr>ci_subject = cert_subject cert, ci_issuer = cert_issuer cert,
       ci_serial_number = cert_serial cert, ci_not_before = cert_not_before cert,
       ci_not_after = cert_not_after cert\<rparr>)"

record mobile_security_object =
  mso_version :: pyobj
  mso_digest_algorithm :: pyobj
  mso_doc_type :: pyobj
  mso_value_digests :: dict
  mso_device_key :: pyobj
  mso_validity_info :: pyobj

text \<open>The two nested loops over \<open>valueDigests\<close>.\<close>

fun check_digest_entries :: "dict \<Rightarrow> exn + unit" where
  "check_digest_entries [] = Inr ()"
| "check_digest_entries ((digest_id, expected_digest) # rest) =
     (if \<not> is_uint64 digest_id \<or> \<not> is_bytes expected_digest
      then bad ''invalid valueDigests entry'' else check_digest_entries rest)"

fun check_value_digests :: "dict \<Rightarrow> exn + unit" where
  "check_value_digests [] = Inr ()"
| "check_value_digests ((ns, digests) # rest) =
     (case (ns, digests) of
        (PStr _, PMap entries) \<Rightarrow>
          ebind (check_digest_entries entries) (\<lambda>_. check_value_digests rest)
      | _ \<Rightarrow> bad ''invalid MSO valueDigests namespace'')"

fun mso_from_cbor :: "pyobj \<Rightarrow> exn + mobile_security_object" where
  "mso_from_cbor (PMap mso) =
     (case get_or mso (S ''valueDigests'') (PMap []) of
        PMap value_digests \<Rightarrow>
          ebind (check_value_digests value_digests) (\<lambda>_.
          case or_else (get mso (S ''deviceKeyInfo'')) (PMap []) of
            PMap device_key_info \<Rightarrow>
              Inr \<lparr>mso_version = get mso (S ''version''),
                mso_digest_algorithm = get mso (S ''digestAlgorithm''),
                mso_doc_type = get mso (S ''docType''),
                mso_value_digests = value_digests,
                mso_device_key = get device_key_info (S ''deviceKey''),
                mso_validity_info = get_or mso (S ''validityInfo'') (PMap [])\<rparr>
          | _ \<Rightarrow> bad ''MSO deviceKeyInfo must be a map'')
      | _ \<Rightarrow> bad ''MSO valueDigests must be a map'')"
| "mso_from_cbor _ = bad ''MSO must be a map''"

section \<open>IssuerAuth\<close>

record issuer_auth_info =
  ia_alg :: "int option"
  ia_alg_name :: pystr
  ia_certificates :: "certificate_info list"
  ia_mso :: "mobile_security_object option"
  ia_signature_valid :: "bool option"
  ia_x5chain_der :: "bytes list"

definition issuer_alg :: "lib \<Rightarrow> bytes \<Rightarrow> dict \<Rightarrow> exn + int option" where
  "issuer_alg L protected_bytes unprotected =
     ebind (if protected_bytes \<noteq> [] then mdoc_loads L protected_bytes else Inr (PMap [])) (\<lambda>protected.
     ebind (obj_get protected (PInt 1) (get unprotected (PInt 1))) (\<lambda>alg.
     case alg of
       PNone \<Rightarrow> Inr None
     | PInt a \<Rightarrow> Inr (Some a)
     | _ \<Rightarrow> bad ''COSE algorithm must be an integer''))"

definition alg_name :: "int option \<Rightarrow> pystr" where
  "alg_name alg =
     (case alg of
        None \<Rightarrow> U ''none''
      | Some a \<Rightarrow> (case map_of COSE_ALG_NAMES a of
                      Some n \<Rightarrow> U n
                    | None \<Rightarrow> U ''unknown('' @ dec_int a @ U '')''))"

fun only_bytes :: "pyobj list \<Rightarrow> exn + bytes list" where
  "only_bytes [] = Inr []"
| "only_bytes (PBytes b # xs) = ebind (only_bytes xs) (\<lambda>bs. Inr (b # bs))"
| "only_bytes _ = bad ''IssuerAuth x5chain entries must be bytes''"

definition issuer_chain :: "dict \<Rightarrow> exn + bytes list" where
  "issuer_chain unprotected =
     (case get unprotected (PInt 33) of
        PNone \<Rightarrow> Inr []
      | PBytes b \<Rightarrow> Inr [b]
      | x5chain \<Rightarrow> ebind (py_list x5chain) only_bytes)"

definition issuer_signature :: "lib \<Rightarrow> bytes list \<Rightarrow> pyobj list \<Rightarrow> exn + bool option" where
  "issuer_signature L der_certs cose_sign1 =
     (case der_certs of
        [] \<Rightarrow> Inr None
      | leaf # _ \<Rightarrow>
          verdict_of (ebind (load_certificate L leaf) (\<lambda>cert.
            ebind (cert_public_key cert) (\<lambda>leaf_public_key.
            verify_cose_sign1 L cose_sign1 leaf_public_key None []))))"

definition issuer_mso :: "lib \<Rightarrow> bytes \<Rightarrow> exn + mobile_security_object option" where
  "issuer_mso L payload =
     ebind (if payload \<noteq> [] then ebind (mdoc_loads L payload) (unwrap_tagged24 L) else Inr PNone) (\<lambda>mso_cbor.
     if is_mapping mso_cbor then ebind (mso_from_cbor mso_cbor) (\<lambda>mso. Inr (Some mso)) else Inr None)"

definition issuer_auth_from_cose_sign1 :: "lib \<Rightarrow> pyobj \<Rightarrow> exn + issuer_auth_info" where
  "issuer_auth_from_cose_sign1 L cose_sign1 =
     (case seq_items cose_sign1 of
        Some [p, u, pl, sg] \<Rightarrow>
          (case (p, u) of
             (PBytes protected_bytes, PMap unprotected) \<Rightarrow>
               (case (pl, sg) of
                  (PBytes payload, PBytes signature) \<Rightarrow>
                    ebind (issuer_alg L protected_bytes unprotected) (\<lambda>alg.
                    ebind (issuer_chain unprotected) (\<lambda>der_certs.
                    ebind (emap (certificate_from_der L) der_certs) (\<lambda>certificates.
                    ebind (issuer_signature L der_certs [p, u, pl, sg]) (\<lambda>signature_valid.
                    ebind (issuer_mso L payload) (\<lambda>mso.
                    Inr \<lparr>ia_alg = alg, ia_alg_name = alg_name alg, ia_certificates = certificates,
                      ia_mso = mso, ia_signature_valid = signature_valid, ia_x5chain_der = der_certs\<rparr>)))))
                | _ \<Rightarrow> bad ''invalid IssuerAuth COSE payload or signature'')
           | _ \<Rightarrow> bad ''invalid IssuerAuth COSE headers'')
      | _ \<Rightarrow> bad ''IssuerAuth must be a four-element COSE_Sign1 array'')"

section \<open>IssuerSigned items\<close>

record parsed_element =
  pe_identifier :: pystr
  pe_value :: pyobj
  pe_digest_id :: "int option"
  pe_digest_valid :: "bool option"

text \<open>
  One item of a namespace; \<open>seen_ids\<close> and \<open>seen_names\<close> are what the earlier items of the
  same namespace used.
\<close>

definition item_digest_valid :: "lib \<Rightarrow> pyobj \<Rightarrow> pyobj \<Rightarrow> pyobj \<Rightarrow> exn + bool option" where
  "item_digest_valid L digest_algorithm tagged_item expected_digest =
     (if digest_algorithm = PNone then Inr None
      else verdict_of (ebind (cbor_dumps L tagged_item) (\<lambda>b. verify_digest L digest_algorithm b expected_digest)))"

definition parse_item ::
  "lib \<Rightarrow> mobile_security_object \<Rightarrow> dict \<Rightarrow> int set \<Rightarrow> pystr set \<Rightarrow> pyobj \<Rightarrow> exn + (int \<times> parsed_element)" where
  "parse_item L mso digests seen_ids seen_names tagged_item =
     ebind (unwrap_tagged24 L tagged_item) (\<lambda>item.
     case item of
       PMap m \<Rightarrow>
         (if \<not> is_uint64 (get m (S ''digestID''))
          then bad ''IssuerSignedItem digestID must be an unsigned ordinary integer''
          else case get m (S ''digestID'') of PInt digest_id \<Rightarrow>
            (if digest_id \<in> seen_ids then bad ''duplicate_digest_id'' else
             case get m (S ''random'') of
               PBytes random \<Rightarrow>
                 if length random < 16 then bad ''IssuerSignedItem random must contain at least 16 bytes'' else
                 (case get m (S ''elementIdentifier'') of
                    PStr identifier \<Rightarrow>
                      if identifier \<in> seen_names then bad ''duplicate_element'' else
                      (case dict_lookup m (S ''elementValue'') of
                         None \<Rightarrow> bad ''IssuerSignedItem is missing elementValue''
                       | Some element_value \<Rightarrow>
                           (let expected_digest = get digests (PInt digest_id) in
                            if expected_digest = PNone then bad ''digest_id_not_in_mso'' else
                            ebind (item_digest_valid L (mso_digest_algorithm mso) tagged_item expected_digest) (\<lambda>digest_valid.
                            Inr (digest_id, \<lparr>pe_identifier = identifier, pe_value = element_value,
                              pe_digest_id = Some digest_id, pe_digest_valid = digest_valid\<rparr>))))
                  | _ \<Rightarrow> bad ''IssuerSignedItem elementIdentifier must be text'')
             | _ \<Rightarrow> bad ''IssuerSignedItem random must contain at least 16 bytes'')
          | _ \<Rightarrow> bad ''IssuerSignedItem digestID must be an unsigned ordinary integer'')
     | _ \<Rightarrow> bad ''IssuerSignedItem must be a map'')"

fun parse_items ::
  "lib \<Rightarrow> mobile_security_object \<Rightarrow> dict \<Rightarrow> int set \<Rightarrow> pystr set \<Rightarrow> pyobj list \<Rightarrow> exn + parsed_element list" where
  "parse_items L mso digests seen_ids seen_names [] = Inr []"
| "parse_items L mso digests seen_ids seen_names (tagged_item # rest) =
     ebind (parse_item L mso digests seen_ids seen_names tagged_item) (\<lambda>(digest_id, element).
     ebind (parse_items L mso digests (insert digest_id seen_ids) (insert (pe_identifier element) seen_names) rest)
       (\<lambda>elements. Inr (element # elements)))"

type_synonym namespaces = "(pystr \<times> parsed_element list) list"

definition parse_namespace :: "lib \<Rightarrow> mobile_security_object \<Rightarrow> pyobj \<Rightarrow> pyobj \<Rightarrow> exn + (pystr \<times> parsed_element list)" where
  "parse_namespace L mso ns tagged_items =
     (case ns of
        PStr name \<Rightarrow>
          (case seq_items tagged_items of
             None \<Rightarrow> bad ''issuer namespace must contain an array''
           | Some items \<Rightarrow>
               (case get (mso_value_digests mso) ns of
                  PMap digests \<Rightarrow>
                    ebind (parse_items L mso digests {} {} items) (\<lambda>elements. Inr (name, elements))
                | _ \<Rightarrow> bad ''issuer namespace is absent from valueDigests''))
      | _ \<Rightarrow> bad ''issuer namespace must be text'')"

fun parse_namespaces :: "lib \<Rightarrow> mobile_security_object \<Rightarrow> dict \<Rightarrow> exn + namespaces" where
  "parse_namespaces L mso [] = Inr []"
| "parse_namespaces L mso ((ns, tagged_items) # rest) =
     ebind (parse_namespace L mso ns tagged_items) (\<lambda>p.
     ebind (parse_namespaces L mso rest) (\<lambda>ps. Inr (p # ps)))"

definition parse_issuer_signed_namespaces ::
  "lib \<Rightarrow> pyobj \<Rightarrow> mobile_security_object option \<Rightarrow> exn + namespaces" where
  "parse_issuer_signed_namespaces L name_spaces_cbor mso =
     (case name_spaces_cbor of
        PMap m \<Rightarrow>
          (case mso of
             None \<Rightarrow> bad ''issuerSigned content requires an MSO''
           | Some mso \<Rightarrow> parse_namespaces L mso m)
      | _ \<Rightarrow> bad ''issuerSigned nameSpaces must be a map'')"

end
