(* ===== verification/Session_Crypto.thy ===== *)
theory Session_Crypto
  imports Externals
begin

text \<open>
  \<open>crypto.py\<close>: COSE_Key encoding and decoding, the SessionTranscript, session keys, and
  the AES-GCM framing of SessionEstablishment and SessionData.
\<close>

definition READER_IDENTIFIER :: bytes where "READER_IDENTIFIER = replicate 8 0"
definition MDOC_IDENTIFIER :: bytes where "MDOC_IDENTIFIER = replicate 7 0 @ [1]"

text \<open>\<open>n.to_bytes(k, "big")\<close> and \<open>struct.pack(">I", n)\<close>.\<close>

definition int_to_bytes :: "nat \<Rightarrow> int \<Rightarrow> exn + bytes" where
  "int_to_bytes k n = (if 0 \<le> n \<and> n < 256 ^ k then Inr (to_bytes_be k n) else Inl OverflowError)"

definition pack_u32 :: "int \<Rightarrow> exn + bytes" where
  "pack_u32 n = (if 0 \<le> n \<and> n < 2 ^ 32 then Inr (to_bytes_be 4 n) else Inl StructError)"

section \<open>COSE keys\<close>

definition cose_key :: "bytes \<Rightarrow> bytes \<Rightarrow> pyobj" where
  "cose_key x y = PMap [(PInt 1, PInt 2), (PInt (-1), PInt 1), (PInt (-2), PBytes x), (PInt (-3), PBytes y)]"

definition cose_key_tag :: "lib \<Rightarrow> public_key \<Rightarrow> exn + pyobj" where
  "cose_key_tag L pub =
     (let (nx, ny) = public_numbers L pub in
      ebind (int_to_bytes 32 nx) (\<lambda>x.
      ebind (int_to_bytes 32 ny) (\<lambda>y.
      ebind (cbor_dumps L (cose_key x y)) (\<lambda>b.
      Inr (PTag 24 (PBytes b))))))"

text \<open>The argument is whatever the message holds: \<open>.get\<close> on a non-mapping raises AttributeError.\<close>

definition cose_key_to_public_key :: "lib \<Rightarrow> pyobj \<Rightarrow> exn + public_key" where
  "cose_key_to_public_key L key =
     ebind (obj_get key (PInt 1) PNone) (\<lambda>kty.
     if \<not> py_eq (PInt 2) kty then Inl (ValueError ''unsupported COSE kty'') else
     ebind (obj_get key (PInt (-1)) PNone) (\<lambda>crv.
     if \<not> py_eq (PInt 1) crv then Inl (ValueError ''unsupported COSE crv'') else
     case key of
       PMap m \<Rightarrow>
         ebind (getitem m (PInt (-2))) (\<lambda>x.
         ebind (getitem m (PInt (-3))) (\<lambda>y.
         ebind (int_from_bytes x) (\<lambda>nx.
         ebind (int_from_bytes y) (\<lambda>ny.
         p256_public_key L nx ny))))
     | _ \<Rightarrow> Inl (TypeError ''object is not subscriptable'')))"

section \<open>Transcript and keys\<close>

definition build_session_transcript :: "lib \<Rightarrow> bytes \<Rightarrow> pyobj \<Rightarrow> pyobj \<Rightarrow> exn + bytes" where
  "build_session_transcript L device_engagement_bytes e_reader_key_tag handover =
     cbor_dumps L (PList [PTag 24 (PBytes device_engagement_bytes), e_reader_key_tag, handover])"

definition transcript_salt :: "lib \<Rightarrow> bytes \<Rightarrow> exn + bytes" where
  "transcript_salt L session_transcript =
     ebind (cbor_dumps L (PTag 24 (PBytes session_transcript))) (\<lambda>b. Inr (hash_digest L SHA256 b))"

definition ascii :: "string \<Rightarrow> bytes" where
  "ascii s = map of_char s"

definition derive_session_keys :: "lib \<Rightarrow> bytes \<Rightarrow> bytes \<Rightarrow> exn + (bytes \<times> bytes)" where
  "derive_session_keys L zab session_transcript =
     ebind (transcript_salt L session_transcript) (\<lambda>salt.
     let sk_reader = hkdf L 32 (Some salt) (ascii ''SKReader'') zab;
         sk_device = hkdf L 32 (Some salt) (ascii ''SKDevice'') zab
     in Inr (sk_reader, sk_device))"

definition derive_emac_key :: "lib \<Rightarrow> bytes \<Rightarrow> bytes \<Rightarrow> exn + bytes" where
  "derive_emac_key L zab session_transcript =
     ebind (transcript_salt L session_transcript) (\<lambda>salt.
     Inr (hkdf L 32 (Some salt) (ascii ''EMacKey'') zab))"

definition compute_ident :: "lib \<Rightarrow> bytes \<Rightarrow> bytes" where
  "compute_ident L e_device_key_bytes = hkdf L 16 None (ascii ''BLEIdent'') e_device_key_bytes"

section \<open>AES-GCM framing\<close>

definition gcm_iv :: "bytes \<Rightarrow> int \<Rightarrow> exn + bytes" where
  "gcm_iv identifier counter = ebind (pack_u32 counter) (\<lambda>c. Inr (identifier @ c))"

definition encrypt_reader_message :: "lib \<Rightarrow> bytes \<Rightarrow> int \<Rightarrow> bytes \<Rightarrow> exn + bytes" where
  "encrypt_reader_message L sk_reader counter plaintext =
     ebind (gcm_iv READER_IDENTIFIER counter) (\<lambda>iv. aesgcm_encrypt L sk_reader iv plaintext [])"

text \<open>
  The ciphertext comes out of a decoded message, so it may be any object; AES-GCM takes
  bytes-like objects only.
\<close>

fun decrypt_device_message :: "lib \<Rightarrow> bytes \<Rightarrow> int \<Rightarrow> pyobj \<Rightarrow> exn + bytes" where
  "decrypt_device_message L sk_device counter (PBytes ciphertext) =
     ebind (gcm_iv MDOC_IDENTIFIER counter) (\<lambda>iv. aesgcm_decrypt L sk_device iv ciphertext [])"
| "decrypt_device_message L sk_device counter _ =
     ebind (gcm_iv MDOC_IDENTIFIER counter) (\<lambda>iv. Inl (TypeError ''data must be bytes-like''))"

section \<open>Lemmas\<close>

lemma int_to_bytes_from: "int_to_bytes k n = Inr b \<Longrightarrow> from_bytes_be b = n \<and> length b = k"
  by (auto simp: int_to_bytes_def from_to_bytes_be split: if_splits)

lemma pack_u32_length: "pack_u32 n = Inr b \<Longrightarrow> length b = 4"
  by (auto simp: pack_u32_def split: if_splits)

lemma pack_u32_inject: "pack_u32 m = Inr b \<Longrightarrow> pack_u32 n = Inr b \<Longrightarrow> m = n"
  using to_bytes_be_inject [of m 4 n] by (auto simp: pack_u32_def split: if_splits)

lemma ascii_eq_iff [simp]: "ascii s = ascii t \<longleftrightarrow> map of_char s = (map of_char t :: bytes)"
  by (simp add: ascii_def)

section \<open>Properties\<close>

text \<open>
  C22: a P-256 public key survives the trip through its COSE_Key: \<open>cose_key_tag\<close> of a key with
  coordinates below \<open>2 ^ 256\<close> succeeds, its content decodes to a map (given a faithful codec),
  and \<open>cose_key_to_public_key\<close> of that map hands exactly the same coordinates to the key
  constructor.
\<close>

theorem cose_key_roundtrip:
  assumes "public_numbers L pub = (nx, ny)" "0 \<le> nx" "nx < 2 ^ 256" "0 \<le> ny" "ny < 2 ^ 256"
    and "codec_ok hooks L (cose_key (to_bytes_be 32 nx) (to_bytes_be 32 ny))"
  shows "\<exists>b key. cose_key_tag L pub = Inr (PTag 24 (PBytes b)) \<and> cbor_decode L hooks b = Inr (key, length b) \<and>
    cose_key_to_public_key L key = p256_public_key L nx ny"
proof -
  let ?key = "cose_key (to_bytes_be 32 nx) (to_bytes_be 32 ny)"
  have coords: "int_to_bytes 32 nx = Inr (to_bytes_be 32 nx)" "int_to_bytes 32 ny = Inr (to_bytes_be 32 ny)"
    "from_bytes_be (to_bytes_be 32 nx) = nx" "from_bytes_be (to_bytes_be 32 ny) = ny"
    using assms(2-5) by (simp_all add: int_to_bytes_def from_to_bytes_be)
  from assms(6) obtain b where b: "cbor_dumps L ?key = Inr b" "cbor_decode L hooks b = Inr (?key, length b)"
    by (rule codec_okE)
  have "cose_key_tag L pub = Inr (PTag 24 (PBytes b))"
    using assms(1) coords b(1) by (simp add: cose_key_tag_def)
  moreover have "cose_key_to_public_key L ?key = p256_public_key L nx ny"
    using coords by (simp add: cose_key_to_public_key_def cose_key_def py_simps int_from_bytes_def)
  ultimately show ?thesis using b(2) by blast
qed

theorem cose_key_roundtrip_witness:
  "\<exists>b key. cose_key_tag (demo_lib [([1], cose_key (to_bytes_be 32 5) (to_bytes_be 32 6))]) (ECKey 256 5) = Inr (PTag 24 (PBytes b)) \<and>
    cbor_decode (demo_lib [([1], cose_key (to_bytes_be 32 5) (to_bytes_be 32 6))]) [] b = Inr (key, length b) \<and>
    cose_key_to_public_key (demo_lib [([1], cose_key (to_bytes_be 32 5) (to_bytes_be 32 6))]) key = Inr (ECKey 256 5)"
  using cose_key_roundtrip [of "demo_lib [([1], cose_key (to_bytes_be 32 5) (to_bytes_be 32 6))]" "ECKey 256 5" 5 6 "[]"]
  by (simp add: demo_lib_def codec_ok_def table_dumps_def table_decode_def)

text \<open>
  C21: an AES-GCM nonce is twelve bytes and never repeats under different counters or in
  different directions: the IVs of reader and mdoc messages are disjoint, and equal IVs of
  one direction have equal counters.  A counter outside 32 bits raises instead of wrapping.
\<close>

theorem gcm_iv_unique:
  "(gcm_iv READER_IDENTIFIER m = Inr iv \<longrightarrow> length iv = 12 \<and> gcm_iv MDOC_IDENTIFIER n \<noteq> Inr iv) \<and>
   (gcm_iv MDOC_IDENTIFIER m = Inr iv \<longrightarrow> length iv = 12) \<and>
   (gcm_iv identifier m = Inr iv \<and> gcm_iv identifier n = Inr iv \<longrightarrow> m = n) \<and>
   (gcm_iv identifier m = Inl StructError \<longleftrightarrow> m < 0 \<or> 2 ^ 32 \<le> m)"
  by (auto simp: gcm_iv_def ebind_inv READER_IDENTIFIER_def MDOC_IDENTIFIER_def pack_u32_length
      numeral_eq_Suc dest: pack_u32_inject) (auto simp: pack_u32_def split: if_splits)

theorem gcm_iv_unique_witness:
  "gcm_iv READER_IDENTIFIER 1 = Inr [0,0,0,0,0,0,0,0,0,0,0,1] \<and> length ([0,0,0,0,0,0,0,0,0,0,0,1] :: bytes) = 12 \<and>
   gcm_iv MDOC_IDENTIFIER 1 \<noteq> Inr [0,0,0,0,0,0,0,0,0,0,0,1]"
proof -
  have "gcm_iv READER_IDENTIFIER 1 = Inr [0,0,0,0,0,0,0,0,0,0,0,1]" by code_simp
  then show ?thesis using gcm_iv_unique [of 1 "[0,0,0,0,0,0,0,0,0,0,0,1]" 1] by simp
qed

end
