(* ===== verification/Mdoc_Document.thy ===== *)
theory Mdoc_Document
  imports Mdoc_Parse Session_Crypto
begin

text \<open>
  The rest of \<open>mdoc.py\<close> up to policy: building DeviceRequest and SessionEstablishment,
  \<open>_parse_document\<close>, \<open>parse_device_response\<close>, and \<open>verify_device_auth\<close>, which needs the
  reader's ephemeral key and the session transcript and so runs on a parsed document.
\<close>

section \<open>Requests\<close>

record doc_request =
  dr_doc_type :: pystr
  dr_namespaces :: "(pystr \<times> pystr list) list"

text \<open>
  \<open>{claim: False for claim in claims}\<close>: a dict comprehension keeps one entry per claim, at the
  place of its first occurrence.
\<close>

definition claims_map :: "pystr list \<Rightarrow> pyobj" where
  "claims_map claims = PMap (map (\<lambda>claim. (PStr claim, PBool False)) (rev (remdups (rev claims))))"

definition items_request :: "doc_request \<Rightarrow> pyobj" where
  "items_request dr =
     PMap [(S ''docType'', PStr (dr_doc_type dr)),
           (S ''nameSpaces'', PMap (map (\<lambda>(ns, claims). (PStr ns, claims_map claims)) (dr_namespaces dr)))]"

definition build_device_request :: "lib \<Rightarrow> doc_request list \<Rightarrow> exn + bytes" where
  "build_device_request L doc_requests =
     ebind (emap (\<lambda>dr. ebind (cbor_dumps L (items_request dr))
        (\<lambda>b. Inr (PMap [(S ''itemsRequest'', PTag 24 (PBytes b))]))) doc_requests) (\<lambda>requests.
     cbor_dumps L (PMap [(S ''version'', S ''1.0''), (S ''docRequests'', PList requests)]))"

definition build_session_establishment :: "lib \<Rightarrow> pyobj \<Rightarrow> bytes \<Rightarrow> exn + bytes" where
  "build_session_establishment L e_reader_key_tag encrypted_device_request =
     cbor_dumps L (PMap [(S ''eReaderKey'', e_reader_key_tag), (S ''data'', PBytes encrypted_device_request)])"

section \<open>Documents\<close>

record parsed_document =
  pd_doc_type :: pystr
  pd_namespaces :: namespaces
  pd_issuer_auth :: "issuer_auth_info option"
  pd_device_namespaces :: pyobj
  pd_device_auth_type :: pyobj
  pd_errors :: pyobj
  pd_device_auth_cbor :: pyobj
  pd_device_namespaces_raw :: "bytes option"
  pd_device_auth_valid :: "bool option"

record device_response =
  resp_version :: pyobj
  resp_status :: "int option"
  resp_status_name :: pystr
  resp_documents :: "parsed_document list"
  resp_document_errors :: pyobj

definition document_mso :: "issuer_auth_info option \<Rightarrow> mobile_security_object option" where
  "document_mso issuer_auth = (case issuer_auth of None \<Rightarrow> None | Some ia \<Rightarrow> ia_mso ia)"

text \<open>\<open>next(iter(device_auth), None)\<close>.\<close>

definition first_key :: "dict \<Rightarrow> pyobj" where
  "first_key m = (case m of [] \<Rightarrow> PNone | (k, _) # _ \<Rightarrow> k)"

definition parse_issuer_signed ::
  "lib \<Rightarrow> dict \<Rightarrow> exn + (issuer_auth_info option \<times> namespaces)" where
  "parse_issuer_signed L issuer_signed =
     (let issuer_auth_cbor = get issuer_signed (S ''issuerAuth'') in
      ebind (if truthy issuer_auth_cbor
             then ebind (issuer_auth_from_cose_sign1 L issuer_auth_cbor) (\<lambda>ia. Inr (Some ia))
             else Inr None) (\<lambda>issuer_auth.
      ebind (parse_issuer_signed_namespaces L (get_or issuer_signed (S ''nameSpaces'') (PMap []))
               (document_mso issuer_auth)) (\<lambda>namespaces.
      Inr (issuer_auth, namespaces))))"

definition parse_document :: "lib \<Rightarrow> pyobj \<Rightarrow> exn + parsed_document" where
  "parse_document L doc =
     (case doc of
        PMap d \<Rightarrow>
          (case get d (S ''docType'') of
             PStr doc_type \<Rightarrow>
               (case get_or d (S ''issuerSigned'') (PMap []) of
                  PMap issuer_signed \<Rightarrow>
                    ebind (parse_issuer_signed L issuer_signed) (\<lambda>(issuer_auth, namespaces).
                    case or_else (get d (S ''deviceSigned'')) (PMap []) of
                      PMap device_signed \<Rightarrow>
                        (let device_namespaces_tag = get device_signed (S ''nameSpaces'') in
                         ebind (unwrap_tagged24 L device_namespaces_tag) (\<lambda>device_namespaces.
                         ebind (cbor_dumps L device_namespaces_tag) (\<lambda>device_namespaces_raw.
                         case or_else (get device_signed (S ''deviceAuth'')) (PMap []) of
                           PMap device_auth \<Rightarrow>
                             Inr \<lparr>pd_doc_type = doc_type, pd_namespaces = namespaces,
                               pd_issuer_auth = issuer_auth, pd_device_namespaces = device_namespaces,
                               pd_device_auth_type = first_key device_auth,
                               pd_errors = get_or d (S ''errors'') (PMap []),
                               pd_device_auth_cbor = PMap device_auth,
                               pd_device_namespaces_raw = Some device_namespaces_raw,
                               pd_device_auth_valid = None\<rparr>
                         | _ \<Rightarrow> bad ''deviceAuth must be a map'')))
                    | _ \<Rightarrow> bad ''deviceSigned must be a map'')
                | _ \<Rightarrow> bad ''issuerSigned must be a map'')
           | _ \<Rightarrow> bad ''document docType must be text'')
      | _ \<Rightarrow> bad ''document docType must be text'')"

definition status_name :: "lib \<Rightarrow> pyobj \<Rightarrow> exn + pystr" where
  "status_name L raw_status =
     (case raw_status of
        PInt status \<Rightarrow>
          (case map_of STATUS_NAMES status of
             Some n \<Rightarrow> Inr (U n)
           | None \<Rightarrow> Inr (U ''unknown('' @ dec_int status @ U '')''))
      | _ \<Rightarrow> ebind (atom_str L raw_status) (\<lambda>s. Inr (U ''unknown('' @ s @ U '')'')))"

definition int_or_none :: "pyobj \<Rightarrow> int option" where
  "int_or_none x = (case x of PInt i \<Rightarrow> Some i | _ \<Rightarrow> None)"

definition parse_device_response :: "lib \<Rightarrow> bytes \<Rightarrow> exn + device_response" where
  "parse_device_response L plaintext =
     ebind (mdoc_loads L plaintext) (\<lambda>decoded.
     case decoded of
       PMap response \<Rightarrow>
         (case get_or response (S ''documents'') (PList []) of
            PList raw_documents \<Rightarrow>
              (let raw_status = get response (S ''status'') in
               ebind (status_name L raw_status) (\<lambda>name.
               ebind (emap (parse_document L) raw_documents) (\<lambda>documents.
               Inr \<lparr>resp_version = get response (S ''version''), resp_status = int_or_none raw_status,
                 resp_status_name = name, resp_documents = documents,
                 resp_document_errors = get_or response (S ''documentErrors'') (PList [])\<rparr>)))
          | _ \<Rightarrow> bad ''DeviceResponse documents must be an array'')
     | _ \<Rightarrow> bad ''DeviceResponse must be a map'')"

section \<open>DeviceAuth\<close>

definition device_signature_verdict :: "lib \<Rightarrow> pyobj \<Rightarrow> public_key \<Rightarrow> bytes \<Rightarrow> exn + bool option" where
  "device_signature_verdict L structure device_pub detached_payload =
     (case seq_items structure of
        Some [p, u, pl, sg] \<Rightarrow>
          if pl \<noteq> PNone then Inr None
          else verdict_of (verify_cose_sign1 L [p, u, pl, sg] device_pub (Some detached_payload) [])
      | _ \<Rightarrow> Inr None)"

definition device_mac_verdict ::
  "lib \<Rightarrow> pyobj \<Rightarrow> public_key \<Rightarrow> nat \<Rightarrow> bytes \<Rightarrow> bytes \<Rightarrow> exn + bool option" where
  "device_mac_verdict L structure device_pub e_reader_priv session_transcript detached_payload =
     (case seq_items structure of
        Some [p, u, pl, sg] \<Rightarrow>
          if pl \<noteq> PNone then Inr None
          else verdict_of
            (ebind (ecdh L e_reader_priv device_pub) (\<lambda>zab.
             ebind (derive_emac_key L zab session_transcript) (\<lambda>emac_key.
             verify_cose_mac0 L [p, u, pl, sg] emac_key (Some detached_payload) [])))
      | _ \<Rightarrow> Inr None)"

text \<open>The bytes the mdoc signed: a tag-24 item around the DeviceAuthentication array.\<close>

definition device_authentication_bytes :: "lib \<Rightarrow> bytes \<Rightarrow> pystr \<Rightarrow> bytes \<Rightarrow> exn + bytes" where
  "device_authentication_bytes L session_transcript doc_type device_namespaces_raw =
     ebind (mdoc_loads L session_transcript) (\<lambda>transcript.
     ebind (mdoc_loads L device_namespaces_raw) (\<lambda>device_namespaces.
     ebind (cbor_dumps L (PList [S ''DeviceAuthentication'', transcript, PStr doc_type, device_namespaces])) (\<lambda>b.
     cbor_dumps L (PTag 24 (PBytes b)))))"

definition device_auth_verdict ::
  "lib \<Rightarrow> dict \<Rightarrow> pyobj \<Rightarrow> public_key \<Rightarrow> nat \<Rightarrow> bytes \<Rightarrow> bytes \<Rightarrow> exn + bool option" where
  "device_auth_verdict L device_auth auth_type device_pub e_reader_priv session_transcript detached_payload =
     (if auth_type = S ''deviceSignature'' then
        ebind (getitem device_auth (S ''deviceSignature'')) (\<lambda>structure.
        device_signature_verdict L structure device_pub detached_payload)
      else if auth_type = S ''deviceMac'' then
        (case device_pub of
           ECKey _ _ \<Rightarrow>
             ebind (getitem device_auth (S ''deviceMac'')) (\<lambda>structure.
             device_mac_verdict L structure device_pub e_reader_priv session_transcript detached_payload)
         | _ \<Rightarrow> Inr None)
      else Inr None)"

definition verify_device_auth :: "lib \<Rightarrow> parsed_document \<Rightarrow> bytes \<Rightarrow> nat \<Rightarrow> exn + bool option" where
  "verify_device_auth L doc session_transcript e_reader_priv =
     (case (pd_device_auth_cbor doc, document_mso (pd_issuer_auth doc), pd_device_namespaces_raw doc) of
        (PMap device_auth, Some mso, Some raw) \<Rightarrow>
          if length device_auth \<noteq> 1 \<or> \<not> truthy (pd_device_auth_type doc) \<or> mso_device_key mso = PNone
          then Inr None
          else
            (case cose_key_to_public_key L (mso_device_key mso) of
               Inl e \<Rightarrow> if class_of e = IsValueError then Inr None else Inl e
             | Inr device_pub \<Rightarrow>
                 ebind (device_authentication_bytes L session_transcript (pd_doc_type doc) raw) (\<lambda>detached_payload.
                 device_auth_verdict L device_auth (pd_device_auth_type doc) device_pub e_reader_priv
                   session_transcript detached_payload))
      | _ \<Rightarrow> Inr None)"

end
