(* ===== verification/Py_Text.thy ===== *)
theory Py_Text
  imports Externals
begin

text \<open>
  The text codecs of the Python standard library that the program uses: \<open>base64\<close> (standard and
  URL-safe, both ways) and UTF-8.
\<close>

section \<open>Base64\<close>

text \<open>The 6-bit groups of a byte string, the last one filled with zero bits.\<close>

fun sextets :: "bytes \<Rightarrow> nat list" where
  "sextets [] = []"
| "sextets [a] = [unat a div 4, unat a mod 4 * 16]"
| "sextets [a, b] = [unat a div 4, unat a mod 4 * 16 + unat b div 16, unat b mod 16 * 4]"
| "sextets (a # b # c # rest) =
     [unat a div 4, unat a mod 4 * 16 + unat b div 16, unat b mod 16 * 4 + unat c div 64, unat c mod 64] @ sextets rest"

definition b64_char :: "bool \<Rightarrow> nat \<Rightarrow> nat" where
  "b64_char urlsafe i =
     (if i < 26 then 65 + i else if i < 52 then 71 + i else if i < 62 then i - 4
      else if i = 62 then (if urlsafe then 45 else 43) else (if urlsafe then 95 else 47))"

definition b64_text :: "bool \<Rightarrow> bytes \<Rightarrow> pystr" where
  "b64_text urlsafe bs = map (b64_char urlsafe) (sextets bs)"

text \<open>\<open>base64.b64encode\<close> and \<open>base64.urlsafe_b64encode\<close>, decoded as ASCII.\<close>

definition b64encode :: "bool \<Rightarrow> bytes \<Rightarrow> pystr" where
  "b64encode urlsafe bs = b64_text urlsafe bs @ replicate ((3 - length bs mod 3) mod 3) 61"

definition rstrip_pad :: "pystr \<Rightarrow> pystr" where
  "rstrip_pad s = rev (dropWhile (\<lambda>c. c = 61) (rev s))"

lemma unat_byte_less [simp]: "unat (b :: byte) < 256"
  using unsigned_less [of b] by simp

lemma byte_eqI: "unat a = unat b \<Longrightarrow> a = (b :: byte)"
  by (simp add: word_unat_eq_iff)

lemma unat_div_less [simp]: "unat (b :: byte) div 4 < 64" "unat b div 16 < 16" "unat b div 64 < 4"
  using unat_byte_less [of b] by (simp_all add: div_less_iff_less_mult)

lemma join_less: "x < 4 \<Longrightarrow> y < 16 \<Longrightarrow> x * 16 + y < (64 :: nat)" "x < 16 \<Longrightarrow> y < 4 \<Longrightarrow> x * 4 + y < (64 :: nat)"
  by linarith+

lemma sextets_less: "\<forall>i\<in>set (sextets bs). i < 64"
  by (induction bs rule: sextets.induct) (simp_all add: join_less join_less [of _ 0, simplified])

lemma b64_char_inject: "i < 64 \<Longrightarrow> j < 64 \<Longrightarrow> b64_char u i = b64_char u j \<longleftrightarrow> i = j"
  by (auto simp: b64_char_def split: if_splits)

lemma b64_char_not_pad [simp]: "b64_char u i \<noteq> 61"
  by (auto simp: b64_char_def)

lemma split_mult:
  assumes "a * n + b = c * n + d" "b < n" "d < (n :: nat)"
  shows "a = c \<and> b = d"
proof -
  from assms(1) have "(a * n + b) div n = (c * n + d) div n" "(a * n + b) mod n = (c * n + d) mod n"
    by simp_all
  with assms(2,3) show ?thesis by simp
qed

lemma div_mod_inject: "x div n = y div n \<Longrightarrow> x mod n = y mod n \<Longrightarrow> x = (y :: nat)"
  by (metis div_mult_mod_eq)

lemma sextets_triple_inject:
  assumes "unat (a :: byte) div 4 = unat (a' :: byte) div 4"
    and "unat a mod 4 * 16 + unat (b :: byte) div 16 = unat a' mod 4 * 16 + unat (b' :: byte) div 16"
    and "unat b mod 16 * 4 + unat (c :: byte) div 64 = unat b' mod 16 * 4 + unat (c' :: byte) div 64"
    and "unat c mod 64 = unat c' mod 64"
  shows "a = a' \<and> b = b' \<and> c = c'"
proof -
  have small: "unat b div 16 < 16" "unat b' div 16 < 16" "unat c div 64 < 4" "unat c' div 64 < 4"
    by simp_all
  from split_mult [OF assms(2) small(1,2)] split_mult [OF assms(3) small(3,4)] assms(1,4)
  show ?thesis by (auto intro!: byte_eqI intro: div_mod_inject)
qed

lemma sextets_inject: "sextets xs = sextets ys \<Longrightarrow> xs = ys"
proof (induction xs arbitrary: ys rule: sextets.induct)
  case 1
  then show ?case by (cases ys rule: sextets.cases) auto
next
  case (2 a)
  then show ?case
    by (cases ys rule: sextets.cases) (auto intro!: byte_eqI intro: div_mod_inject)
next
  case (3 a b)
  then show ?case
  proof (cases ys rule: sextets.cases)
    case (3 a' b')
    with "3.prems" sextets_triple_inject [of a a' b b' 0 0] show ?thesis by auto
  qed auto
next
  case (4 a b c rest)
  then show ?case
  proof (cases ys rule: sextets.cases)
    case (4 a' b' c' rest')
    with "4.prems" sextets_triple_inject [of a a' b b' c c'] "4.IH" [of rest'] show ?thesis by auto
  qed auto
qed

lemma b64_text_inject: "b64_text u xs = b64_text u ys \<longleftrightarrow> xs = ys"
proof -
  have "inj_on (b64_char u) (set (sextets xs) \<union> set (sextets ys))"
    by (intro inj_onI) (metis Un_iff b64_char_inject sextets_less)
  then show ?thesis
    unfolding b64_text_def using sextets_inject by (auto dest: map_inj_on)
qed

lemma dropWhile_replicate [simp]: "dropWhile (\<lambda>c. c = x) (replicate n x @ xs) = dropWhile (\<lambda>c. c = x) xs"
  by (induction n) auto

lemma rstrip_b64encode [simp]: "rstrip_pad (b64encode u bs) = b64_text u bs"
proof -
  have "61 \<notin> set (rev (b64_text u bs))" by (auto simp: b64_text_def)
  then have "dropWhile (\<lambda>c. c = 61) (rev (b64_text u bs)) = rev (b64_text u bs)"
    by (cases "rev (b64_text u bs)") auto
  then show ?thesis by (simp add: rstrip_pad_def b64encode_def)
qed

lemma b64encode_inject: "b64encode u xs = b64encode u ys \<longleftrightarrow> xs = ys"
  by (metis rstrip_b64encode b64_text_inject)

text \<open>
  \<open>base64.urlsafe_b64decode\<close> of an ASCII text: like \<open>binascii.a2b_base64\<close> without strict mode,
  characters outside the alphabet are skipped (the translation of \<open>-_\<close> to \<open>+/\<close> leaves \<open>+\<close> and
  \<open>/\<close> valid too), a pad character ends the decoding of a group that has at least two
  characters, and a trailing incomplete group is an error.
\<close>

definition b64_value :: "nat \<Rightarrow> nat option" where
  "b64_value c =
     (if 65 \<le> c \<and> c \<le> 90 then Some (c - 65) else if 97 \<le> c \<and> c \<le> 122 then Some (c - 71)
      else if 48 \<le> c \<and> c \<le> 57 then Some (c + 4) else if c = 43 \<or> c = 45 then Some 62
      else if c = 47 \<or> c = 95 then Some 63 else None)"

text \<open>\<open>b64_scan quad pads left s\<close>: position in the group, pads seen, bits left over.\<close>

fun b64_scan :: "nat \<Rightarrow> nat \<Rightarrow> nat \<Rightarrow> pystr \<Rightarrow> exn + bytes" where
  "b64_scan quad pads left [] = (if quad \<noteq> 0 then Inl (ValueError ''Incorrect padding'') else Inr [])"
| "b64_scan quad pads left (c # s) =
     (if c = 61 then
        if quad \<ge> 2 \<and> quad + Suc pads \<ge> 4 then Inr []
        else b64_scan quad (Suc pads) left s
      else case b64_value c of
        None \<Rightarrow> b64_scan quad pads left s
      | Some v \<Rightarrow>
          if quad = 0 then b64_scan 1 0 v s
          else if quad = 1 then ebind (b64_scan 2 0 (v mod 16) s) (\<lambda>bs. Inr (of_nat (left * 4 + v div 16) # bs))
          else if quad = 2 then ebind (b64_scan 3 0 (v mod 4) s) (\<lambda>bs. Inr (of_nat (left * 16 + v div 4) # bs))
          else ebind (b64_scan 0 0 0 s) (\<lambda>bs. Inr (of_nat (left * 64 + v) # bs)))"

definition urlsafe_b64decode :: "pystr \<Rightarrow> exn + bytes" where
  "urlsafe_b64decode s =
     (if \<exists>c\<in>set s. 128 \<le> c then Inl (ValueError ''string argument should contain only ASCII characters'')
      else b64_scan 0 0 0 s)"

text \<open>Decoding reads back what was encoded, with any pads appended.\<close>

lemma b64_value_char [simp]: "i < 64 \<Longrightarrow> b64_value (b64_char u i) = Some i"
  by (auto simp: b64_value_def b64_char_def)

lemma of_nat_byte: "n = unat (b :: byte) \<Longrightarrow> of_nat n = b"
  by simp

lemma b64_scan_text: "b64_scan 0 0 0 (b64_text u bs @ replicate ((3 - length bs mod 3) mod 3) 61) = Inr bs"
proof (induction bs rule: sextets.induct)
  case (2 a)
  have "unat a div 4 * 4 + unat a mod 4 * 16 div 16 = unat a" by simp
  then show ?case by (simp add: b64_text_def numeral_eq_Suc [of "num.Bit0 num.One"] of_nat_byte join_less [of _ 0, simplified])
next
  case (3 a b)
  have "unat a div 4 * 4 + (unat a mod 4 * 16 + unat b div 16) div 16 = unat a"
    and "(unat a mod 4 * 16 + unat b div 16) mod 16 * 16 + unat b mod 16 * 4 div 4 = unat b" by simp_all
  then show ?case
    by (simp add: b64_text_def of_nat_byte join_less join_less [of _ 0, simplified])
next
  case (4 a b c rest)
  have "unat a div 4 * 4 + (unat a mod 4 * 16 + unat b div 16) div 16 = unat a"
    and "(unat a mod 4 * 16 + unat b div 16) mod 16 * 16 + (unat b mod 16 * 4 + unat c div 64) div 4 = unat b"
    and "(unat b mod 16 * 4 + unat c div 64) mod 4 * 64 + unat c mod 64 = unat c" by simp_all
  with "4.IH" show ?case
    by (simp add: b64_text_def of_nat_byte join_less mod_simps)
qed (simp add: b64_text_def)

section \<open>UTF-8\<close>

text \<open>\<open>str.encode("utf-8")\<close>; a lone surrogate cannot be encoded, and no text has a code point above 10FFFF.\<close>

definition utf8_char :: "nat \<Rightarrow> exn + bytes" where
  "utf8_char c =
     (if c < 128 then Inr [of_nat c]
      else if c < 2048 then Inr [of_nat (192 + c div 64), of_nat (128 + c mod 64)]
      else if 55296 \<le> c \<and> c < 57344 then Inl (ValueError ''surrogates not allowed'')
      else if c < 65536 then Inr [of_nat (224 + c div 4096), of_nat (128 + c div 64 mod 64), of_nat (128 + c mod 64)]
      else if c < 1114112 then
        Inr [of_nat (240 + c div 262144), of_nat (128 + c div 4096 mod 64), of_nat (128 + c div 64 mod 64),
             of_nat (128 + c mod 64)]
      else Inl (ValueError ''not a code point''))"

definition utf8_encode :: "pystr \<Rightarrow> exn + bytes" where
  "utf8_encode s = ebind (emap utf8_char s) (\<lambda>parts. Inr (concat parts))"

text \<open>\<open>bytes.decode("ascii")\<close>.\<close>

definition decode_ascii :: "bytes \<Rightarrow> exn + pystr" where
  "decode_ascii b = (if \<exists>c\<in>set b. 128 \<le> unat c then Inl (ValueError ''ordinal not in range(128)'') else Inr (map unat b))"

text \<open>\<open>bytes.decode("utf-8")\<close>: overlong forms, surrogates and code points above 10FFFF are errors.\<close>

definition is_continuation :: "byte \<Rightarrow> bool" where
  "is_continuation b \<longleftrightarrow> 128 \<le> unat b \<and> unat b < 192"

fun utf8_decode :: "bytes \<Rightarrow> exn + pystr" where
  "utf8_decode [] = Inr []"
| "utf8_decode (a # r) =
     (if unat a < 128 then ebind (utf8_decode r) (\<lambda>s. Inr (unat a # s))
      else if 194 \<le> unat a \<and> unat a < 224 then
        (case r of
           b # r' \<Rightarrow>
             if is_continuation b
             then ebind (utf8_decode r') (\<lambda>s. Inr (((unat a - 192) * 64 + (unat b - 128)) # s))
             else Inl (ValueError ''invalid continuation byte'')
         | _ \<Rightarrow> Inl (ValueError ''unexpected end of data''))
      else if 224 \<le> unat a \<and> unat a < 240 then
        (case r of
           b # c # r' \<Rightarrow>
             (let v = (unat a - 224) * 4096 + (unat b - 128) * 64 + (unat c - 128) in
              if is_continuation b \<and> is_continuation c \<and> 2048 \<le> v \<and> \<not> (55296 \<le> v \<and> v < 57344)
              then ebind (utf8_decode r') (\<lambda>s. Inr (v # s))
              else Inl (ValueError ''invalid continuation byte''))
         | _ \<Rightarrow> Inl (ValueError ''unexpected end of data''))
      else if 240 \<le> unat a \<and> unat a < 245 then
        (case r of
           b # c # d # r' \<Rightarrow>
             (let v = (unat a - 240) * 262144 + (unat b - 128) * 4096 + (unat c - 128) * 64 + (unat d - 128) in
              if is_continuation b \<and> is_continuation c \<and> is_continuation d \<and> 65536 \<le> v \<and> v < 1114112
              then ebind (utf8_decode r') (\<lambda>s. Inr (v # s))
              else Inl (ValueError ''invalid continuation byte''))
         | _ \<Rightarrow> Inl (ValueError ''unexpected end of data''))
      else Inl (ValueError ''invalid start byte''))"

lemma unat_of_nat_byte [simp]: "n < 256 \<Longrightarrow> unat (of_nat n :: byte) = n"
  by (simp add: unat_of_nat)

lemma is_continuation_of_nat [simp]: "x < 64 \<Longrightarrow> is_continuation (of_nat (128 + x))"
  unfolding is_continuation_def by (subst (1 2) unat_of_nat_byte) linarith+

lemma utf8_decode2:
  assumes "x < 32" "2 \<le> x" "y < 64"
  shows "utf8_decode (of_nat (192 + x) # of_nat (128 + y) # rest) = ebind (utf8_decode rest) (\<lambda>s. Inr ((x * 64 + y) # s))"
proof -
  have "unat (of_nat (192 + x) :: byte) = 192 + x" "unat (of_nat (128 + y) :: byte) = 128 + y"
    using assms by (intro unat_of_nat_byte; linarith)+
  with assms show ?thesis by (simp del: of_nat_add)
qed

lemma utf8_decode3:
  assumes "x < 16" "y < 64" "z < 64" "c = x * 4096 + y * 64 + z" "2048 \<le> c" "\<not> (55296 \<le> c \<and> c < 57344)"
  shows "utf8_decode (of_nat (224 + x) # of_nat (128 + y) # of_nat (128 + z) # rest) = ebind (utf8_decode rest) (\<lambda>s. Inr (c # s))"
proof -
  have "unat (of_nat (224 + x) :: byte) = 224 + x" "unat (of_nat (128 + y) :: byte) = 128 + y" "unat (of_nat (128 + z) :: byte) = 128 + z"
    using assms(1-3) by (intro unat_of_nat_byte; linarith)+
  with assms show ?thesis by (simp add: Let_def del: of_nat_add)
qed

lemma utf8_decode4:
  assumes "x < 5" "y < 64" "z < 64" "u < 64" "c = x * 262144 + y * 4096 + z * 64 + u" "65536 \<le> c" "c < 1114112"
  shows "utf8_decode (of_nat (240 + x) # of_nat (128 + y) # of_nat (128 + z) # of_nat (128 + u) # rest) =
    ebind (utf8_decode rest) (\<lambda>s. Inr (c # s))"
proof -
  have "unat (of_nat (240 + x) :: byte) = 240 + x" "unat (of_nat (128 + y) :: byte) = 128 + y"
      "unat (of_nat (128 + z) :: byte) = 128 + z" "unat (of_nat (128 + u) :: byte) = 128 + u"
    using assms(1-4) by (intro unat_of_nat_byte; linarith)+
  with assms show ?thesis by (simp add: Let_def del: of_nat_add)
qed

text \<open>The digits of a code point in base 64.\<close>

lemma base64_digit: "c div (k * 64) * 64 + c div k mod 64 = c div (k :: nat)"
  by (metis div_mult2_eq div_mult_mod_eq)

lemma base64_digits3: "c = x * 64 + y \<Longrightarrow> x = x' * 64 + y' \<Longrightarrow> c = x' * 4096 + y' * 64 + (y :: nat)"
  by simp

lemma base64_digits4:
  "c = x * 64 + y \<Longrightarrow> x = x' * 64 + y' \<Longrightarrow> x' = x'' * 64 + y'' \<Longrightarrow>
    c = x'' * 262144 + y'' * 4096 + y' * 64 + (y :: nat)"
  by simp

lemma base64_of_nat:
  "c = c div 64 * 64 + c mod (64 :: nat)" "c div 64 = c div 4096 * 64 + c div 64 mod 64"
  "c div 4096 = c div 262144 * 64 + c div 4096 mod 64"
  using base64_digit [of c 64] base64_digit [of c 4096] by simp_all

lemma utf8_char_decode:
  assumes "utf8_char c = Inr bs"
  shows "utf8_decode (bs @ rest) = ebind (utf8_decode rest) (\<lambda>s. Inr (c # s))"
proof -
  consider "c < 128" | "128 \<le> c" "c < 2048" | "2048 \<le> c" "c < 65536" "\<not> (55296 \<le> c \<and> c < 57344)" | "65536 \<le> c" "c < 1114112"
    using assms(1) by (fastforce simp: utf8_char_def split: if_splits)
  then show ?thesis
  proof cases
    case 1
    with assms(1) show ?thesis by (auto simp: utf8_char_def)
  next
    case 2
    then have "c div 64 < 32" "2 \<le> c div 64" by (simp_all add: div_less_iff_less_mult less_eq_div_iff_mult_less_eq)
    moreover have "bs = [of_nat (192 + c div 64), of_nat (128 + c mod 64)]" using 2 assms(1) by (simp add: utf8_char_def)
    ultimately show ?thesis
      using utf8_decode2 [of "c div 64" "c mod 64" rest] base64_of_nat(1) [of c] by simp
  next
    case 3
    then have "c div 4096 < 16" by (simp add: div_less_iff_less_mult)
    moreover have "bs = [of_nat (224 + c div 4096), of_nat (128 + c div 64 mod 64), of_nat (128 + c mod 64)]"
      using 3 assms(1) by (simp add: utf8_char_def split: if_splits)
    ultimately show ?thesis
      using utf8_decode3 [OF _ _ _ base64_digits3 [OF base64_of_nat(1,2)] 3(1,3), of rest] by simp
  next
    case 4
    then have "c div 262144 < 5" by (simp add: div_less_iff_less_mult)
    moreover have "bs = [of_nat (240 + c div 262144), of_nat (128 + c div 4096 mod 64), of_nat (128 + c div 64 mod 64),
        of_nat (128 + c mod 64)]"
      using 4 assms by (simp add: utf8_char_def split: if_splits)
    ultimately show ?thesis
      using utf8_decode4 [OF _ _ _ _ base64_digits4 [OF base64_of_nat(1,2,3)] 4, of rest] by simp
  qed
qed

text \<open>Decoding reads back whatever can be encoded.\<close>

lemma utf8_decode_encode:
  "utf8_encode s = Inr bs \<Longrightarrow> utf8_decode bs = Inr s"
proof (induction s arbitrary: bs)
  case (Cons c s)
  then obtain b bs' where "utf8_char c = Inr b" "utf8_encode s = Inr bs'" "bs = b @ bs'"
    by (auto simp: utf8_encode_def ebind_inv)
  with Cons show ?case by (simp add: utf8_char_decode)
qed (simp add: utf8_encode_def)

end
