(* ===== verification/Engagement.thy ===== *)
theory Engagement
  imports Py_Text Session_Crypto
begin

text \<open>
  \<open>engagement.py\<close>: from a \<open>mdoc:\<close> URI to a DeviceEngagement.  A UUID is its 16 bytes.  The decoded
  CBOR may be any object, so subscripts and attribute accesses raise as in Python.
\<close>

definition BLE_PERIPHERAL_SERVER_MODE_UUID_KEY :: int where "BLE_PERIPHERAL_SERVER_MODE_UUID_KEY = 10"
definition BLE_CENTRAL_CLIENT_MODE_UUID_KEY :: int where "BLE_CENTRAL_CLIENT_MODE_UUID_KEY = 11"
definition BLE_RETRIEVAL_METHOD_TYPE :: int where "BLE_RETRIEVAL_METHOD_TYPE = 2"

section \<open>Subscripts\<close>

definition nth_or_raise :: "'a list \<Rightarrow> nat \<Rightarrow> exn + 'a" where
  "nth_or_raise xs i = (if i < length xs then Inr (xs ! i) else Inl IndexError)"

text \<open>\<open>x[i]\<close> for a literal \<open>i \<ge> 0\<close>.\<close>

fun subscript :: "pyobj \<Rightarrow> nat \<Rightarrow> exn + pyobj" where
  "subscript (PMap m) i = getitem m (PInt (int i))"
| "subscript (PList xs) i = nth_or_raise xs i"
| "subscript (PTuple xs) i = nth_or_raise xs i"
| "subscript (PBytes bs) i = nth_or_raise (map (\<lambda>b. PInt (uint b)) bs) i"
| "subscript (PStr s) i = nth_or_raise (map (\<lambda>c. PStr [c]) s) i"
| "subscript _ i = Inl (TypeError ''object is not subscriptable'')"

text \<open>\<open>e_device_key_tag.value\<close>, then \<open>cbor2.loads\<close> of it.\<close>

fun tag_value :: "pyobj \<Rightarrow> exn + pyobj" where
  "tag_value (PTag _ v) = Inr v"
| "tag_value _ = Inl (AttributeError ''value'')"

fun loads_object :: "lib \<Rightarrow> pyobj \<Rightarrow> exn + pyobj" where
  "loads_object L (PBytes b) = cbor_loads L b"
| "loads_object L _ = Inl (TypeError ''a bytes-like object is required'')"

text \<open>\<open>uuid.UUID(bytes=raw)\<close>: the length is checked before the type.\<close>

definition uuid_of_sized :: "pyobj list \<Rightarrow> exn + bytes" where
  "uuid_of_sized xs = (if length xs \<noteq> 16 then Inl (ValueError ''bytes is not a 16-char string'') else Inl AssertionError)"

fun uuid_of_bytes :: "pyobj \<Rightarrow> exn + bytes" where
  "uuid_of_bytes (PBytes b) = (if length b \<noteq> 16 then Inl (ValueError ''bytes is not a 16-char string'') else Inr b)"
| "uuid_of_bytes (PStr s) = uuid_of_sized (map (\<lambda>c. PNone) s)"
| "uuid_of_bytes (PList xs) = uuid_of_sized xs"
| "uuid_of_bytes (PTuple xs) = uuid_of_sized xs"
| "uuid_of_bytes (PMap m) = uuid_of_sized (map fst m)"
| "uuid_of_bytes _ = Inl (TypeError ''object has no len()'')"

section \<open>Parsing\<close>

record device_engagement =
  de_raw_bytes :: bytes
  de_version :: pyobj
  de_cipher_suite :: pyobj
  de_e_device_key_pub :: public_key
  de_e_device_key_bytes :: bytes
  de_retrieval_methods :: pyobj
  de_peripheral_server_uuid :: "bytes option"
  de_central_client_uuid :: "bytes option"

definition supports_peripheral_server_mode :: "device_engagement \<Rightarrow> bool" where
  "supports_peripheral_server_mode de \<longleftrightarrow> de_peripheral_server_uuid de \<noteq> None"

text \<open>The options of the first retrieval method of type 2; later methods are not looked at.\<close>

fun first_ble_options :: "pyobj list \<Rightarrow> exn + pyobj" where
  "first_ble_options [] = Inr PNone"
| "first_ble_options (m # ms) =
     ebind (subscript m 0) (\<lambda>t.
     if py_eq (PInt BLE_RETRIEVAL_METHOD_TYPE) t then subscript m 2 else first_ble_options ms)"

definition uuid_at :: "pyobj \<Rightarrow> int \<Rightarrow> exn + bytes option" where
  "uuid_at ble_options key =
     ebind (obj_get ble_options (PInt key) PNone) (\<lambda>raw.
     if raw = PNone then Inr None else ebind (uuid_of_bytes raw) (\<lambda>u. Inr (Some u)))"

definition decode_ble_options :: "pyobj \<Rightarrow> exn + (bytes option \<times> bytes option)" where
  "decode_ble_options retrieval_methods =
     ebind (py_list retrieval_methods) (\<lambda>ms.
     ebind (first_ble_options ms) (\<lambda>ble_options.
     if ble_options = PNone then Inr (None, None)
     else
       ebind (uuid_at ble_options BLE_PERIPHERAL_SERVER_MODE_UUID_KEY) (\<lambda>p.
       ebind (uuid_at ble_options BLE_CENTRAL_CLIENT_MODE_UUID_KEY) (\<lambda>c. Inr (p, c)))))"

definition parse_engagement :: "lib \<Rightarrow> bytes \<Rightarrow> exn + device_engagement" where
  "parse_engagement L de_bytes =
     ebind (cbor_loads L de_bytes) (\<lambda>de.
     ebind (subscript de 0) (\<lambda>version.
     ebind (subscript de 1) (\<lambda>security.
     ebind (subscript security 0) (\<lambda>cipher_suite.
     ebind (subscript security 1) (\<lambda>e_device_key_tag.
     ebind (cbor_dumps L e_device_key_tag) (\<lambda>e_device_key_bytes.
     ebind (tag_value e_device_key_tag) (\<lambda>inner.
     ebind (loads_object L inner) (\<lambda>key.
     ebind (cose_key_to_public_key L key) (\<lambda>e_device_key_pub.
     ebind (obj_get de (PInt 2) (PList [])) (\<lambda>retrieval_methods.
     ebind (decode_ble_options retrieval_methods) (\<lambda>(peripheral_uuid, central_uuid).
     if peripheral_uuid = None \<and> central_uuid = None
     then Inl (UnsupportedEngagementError ''engagement offers no BLE retrieval method'')
     else Inr \<lparr>de_raw_bytes = de_bytes, de_version = version, de_cipher_suite = cipher_suite,
       de_e_device_key_pub = e_device_key_pub, de_e_device_key_bytes = e_device_key_bytes,
       de_retrieval_methods = retrieval_methods, de_peripheral_server_uuid = peripheral_uuid,
       de_central_client_uuid = central_uuid\<rparr>)))))))))))"

definition pad_base64 :: "pystr \<Rightarrow> pystr" where
  "pad_base64 encoded = encoded @ replicate ((4 - length encoded mod 4) mod 4) 61"

definition parse_mdoc_uri :: "lib \<Rightarrow> pystr \<Rightarrow> exn + device_engagement" where
  "parse_mdoc_uri L mdoc_uri =
     (if \<not> starts_with mdoc_uri (U ''mdoc:'') then Inl (ValueError ''expected a URI starting with mdoc:'') else
      ebind (urlsafe_b64decode (pad_base64 (drop (length (U ''mdoc:'')) mdoc_uri))) (parse_engagement L))"

text \<open>
  \<open>read_qr_image\<close>: \<open>installed\<close> says whether pyzbar and Pillow can be imported, \<open>symbols\<close> what
  they find in the image.
\<close>

definition read_qr_image :: "bool \<Rightarrow> (pystr \<Rightarrow> exn + bytes list) \<Rightarrow> pystr \<Rightarrow> exn + pystr" where
  "read_qr_image installed symbols path =
     (if \<not> installed then Inl (ImportError (
        ''reading QR images requires the 'qr' extra: pip install 'siros-verifier-cli[qr]'' @ [CHR 0x27])) else
      ebind (symbols path) (\<lambda>found.
      case found of
        [] \<Rightarrow> Inl (ValueError ''no QR code found'')
      | data # _ \<Rightarrow> decode_ascii data))"

section \<open>Lemmas\<close>

lemma uuid_of_bytes_Inr: "uuid_of_bytes x = Inr b \<longleftrightarrow> x = PBytes b \<and> length b = 16"
  by (cases x rule: uuid_of_bytes.cases) (auto simp: uuid_of_sized_def)

lemma uuid_at_Inr: "uuid_at ble key = Inr (Some u) \<Longrightarrow> length u = 16"
  by (auto simp: uuid_at_def ebind_inv uuid_of_bytes_Inr split: if_splits)

lemma sextets_length: "length (sextets bs) mod 4 = (case length bs mod 3 of 0 \<Rightarrow> 0 | _ \<Rightarrow> Suc (length bs mod 3))"
proof (induction bs rule: sextets.induct)
  case (4 a b c rest)
  have "length (a # b # c # rest) mod 3 = (length rest + 3) mod 3" by simp
  also have "\<dots> = length rest mod 3" by (rule mod_add_self2)
  finally have "length (a # b # c # rest) mod 3 = length rest mod 3" .
  with 4 show ?case by (simp only: sextets.simps length_append list.size) simp
qed auto

lemma pad_b64_text: "pad_base64 (b64_text True bs) = b64_text True bs @ replicate ((3 - length bs mod 3) mod 3) 61"
proof -
  have "length bs mod 3 = 0 \<or> length bs mod 3 = 1 \<or> length bs mod 3 = 2" by presburger
  with sextets_length [of bs] show ?thesis by (auto simp: pad_base64_def b64_text_def)
qed

lemma b64_text_ascii: "c \<in> set (b64_text u bs) \<Longrightarrow> c < 128"
  using sextets_less [of bs] by (auto simp: b64_text_def b64_char_def)

lemma urlsafe_b64decode_text: "urlsafe_b64decode (pad_base64 (b64_text True bs)) = Inr bs"
  by (auto simp: urlsafe_b64decode_def pad_b64_text b64_scan_text dest: b64_text_ascii)

section \<open>Properties\<close>

text \<open>
  C29: a \<open>mdoc:\<close> URI that carries the unpadded base64url text of any byte string is decoded to
  exactly these bytes before they are parsed as a DeviceEngagement.
\<close>

theorem mdoc_uri_roundtrip: "parse_mdoc_uri L (U ''mdoc:'' @ b64_text True de_bytes) = parse_engagement L de_bytes"
  by (simp add: parse_mdoc_uri_def urlsafe_b64decode_text)

text \<open>
  C30: an engagement that is accepted keeps the bytes it was parsed from and offers at least one
  of the two BLE roles, each with a UUID of 16 bytes, and a device key that decoded to a P-256
  public key.
\<close>

theorem parsed_engagement_offers_ble:
  assumes "parse_engagement L de_bytes = Inr de"
  shows "de_raw_bytes de = de_bytes \<and>
    (de_peripheral_server_uuid de \<noteq> None \<or> de_central_client_uuid de \<noteq> None) \<and>
    (\<exists>key. cose_key_to_public_key L key = Inr (de_e_device_key_pub de)) \<and>
    pred_option (\<lambda>u. length u = 16) (de_peripheral_server_uuid de) \<and>
    pred_option (\<lambda>u. length u = 16) (de_central_client_uuid de)"
  using assms
  by (auto simp: parse_engagement_def decode_ble_options_def ebind_inv option.pred_set dest: uuid_at_Inr split: if_splits)

definition demo_engagement_lib :: lib where
  "demo_engagement_lib = demo_lib
     [([1], PMap [(PInt 0, S ''1.0''), (PInt 1, PList [PInt 1, PTag 24 (PBytes [2])]),
        (PInt 2, PList [PList [PInt 2, PInt 1, PMap [(PInt 0, PBool True), (PInt 10, PBytes (replicate 16 9))]]])]),
      ([2], cose_key [3] [4])]"

theorem parsed_engagement_offers_ble_witness:
  "\<exists>de. parse_engagement demo_engagement_lib [1] = Inr de \<and> de_raw_bytes de = [1]"
proof -
  have "\<not> isl (parse_engagement demo_engagement_lib [1])" by code_simp
  then obtain de where "parse_engagement demo_engagement_lib [1] = Inr de"
    by (cases "parse_engagement demo_engagement_lib [1]") auto
  with parsed_engagement_offers_ble [OF this] show ?thesis by blast
qed

end
