(* ===== verification/Cli_Requests.thy ===== *)
theory Cli_Requests
  imports Mdoc_Document Engagement "HOL-Library.AList"
begin

text \<open>
  The command line's arguments: \<open>parse_requests\<close>, \<open>_resolve_handover\<close>, \<open>_resolve_mode\<close> and
  \<open>_resolve_engagement_uri\<close> of \<open>cli.py\<close>.  A Python dict with text keys is an association list in
  insertion order, updated with \<open>AList.update\<close>.
\<close>

section \<open>parse_requests\<close>

definition claim_list :: "pystr \<Rightarrow> pystr list" where
  "claim_list claims = map strip (filter (\<lambda>c. strip c \<noteq> []) (split_all 44 claims))"

definition parse_spec :: "pystr \<Rightarrow> exn + (pystr \<times> pystr \<times> pystr list)" where
  "parse_spec spec =
     (case split_max 58 2 spec of
        [doc_type, namespace, claims] \<Rightarrow>
          if claim_list claims = [] then Inl (ValueError ''--request has no claims'')
          else Inr (doc_type, namespace, claim_list claims)
      | _ \<Rightarrow> Inl (ValueError ''--request must be DOCTYPE:NAMESPACE:CLAIM,CLAIM''))"

type_synonym namespace_claims = "(pystr \<times> pystr list) list"

text \<open>\<open>m.setdefault(namespace, []).extend(claims)\<close>.\<close>

definition extend_claims :: "namespace_claims \<Rightarrow> pystr \<times> pystr list \<Rightarrow> namespace_claims" where
  "extend_claims m p =
     (let (namespace, claims) = p in
      AList.update namespace ((case map_of m namespace of None \<Rightarrow> [] | Some cs \<Rightarrow> cs) @ claims) m)"

record request_state =
  namespaces_by_doctype :: "(pystr \<times> namespace_claims) list"
  order :: "pystr list"

definition add_request :: "request_state \<Rightarrow> pystr \<times> pystr \<times> pystr list \<Rightarrow> request_state" where
  "add_request st r =
     (let (doc_type, namespace, claims) = r;
          st = (case map_of (namespaces_by_doctype st) doc_type of
                  Some _ \<Rightarrow> st
                | None \<Rightarrow> st\<lparr>namespaces_by_doctype := AList.update doc_type [] (namespaces_by_doctype st),
                    order := order st @ [doc_type]\<rparr>)
      in case map_of (namespaces_by_doctype st) doc_type of
           None \<Rightarrow> st
         | Some m \<Rightarrow> st\<lparr>namespaces_by_doctype :=
             AList.update doc_type (extend_claims m (namespace, claims)) (namespaces_by_doctype st)\<rparr>)"

fun request_loop :: "request_state \<Rightarrow> pystr list \<Rightarrow> exn + request_state" where
  "request_loop st [] = Inr st"
| "request_loop st (spec # specs) = ebind (parse_spec spec) (\<lambda>r. request_loop (add_request st r) specs)"

definition parse_requests :: "pystr list \<Rightarrow> exn + doc_request list" where
  "parse_requests specs =
     ebind (request_loop \<lparr>namespaces_by_doctype = [], order = []\<rparr> specs) (\<lambda>st.
     emap (\<lambda>dt. case map_of (namespaces_by_doctype st) dt of
        None \<Rightarrow> Inl KeyError
      | Some nss \<Rightarrow> Inr \<lparr>dr_doc_type = dt, dr_namespaces = nss\<rparr>) (order st))"

section \<open>Where the engagement and the handover come from\<close>

text \<open>
  The parsed arguments, as far as the model reads them.  \<open>None\<close> is an option that was not given;
  an empty text counts as not given too, since the source tests truth.
\<close>

record cli_args =
  arg_mdoc_uri :: "pystr option"
  arg_qr_image :: "pystr option"
  arg_qr_camera :: bool
  arg_request :: "pystr list"
  arg_mode :: string
  arg_nfc_handover_hex :: "pystr option"
  arg_nfc_handover_file :: "pystr option"
  arg_pdp_url :: "pystr option"
  arg_mdoc_issuer_role :: pystr
  arg_json :: bool
  arg_dump_cbor :: "pystr option"
  arg_keep_inside :: bool
    \<comment> \<open>\<open>0 < keep_fraction < 1\<close>\<close>
  arg_keep_scaled :: "nat \<Rightarrow> exn + int"
    \<comment> \<open>\<open>int(n * keep_fraction)\<close>\<close>
  arg_skip_state_start :: bool
  arg_cycles :: int
  arg_delay :: int
    \<comment> \<open>only its sign matters\<close>

definition given :: "pystr option \<Rightarrow> bool" where
  "given x \<longleftrightarrow> x \<noteq> None \<and> x \<noteq> Some []"

definition hex_value :: "nat \<Rightarrow> nat option" where
  "hex_value c =
     (if 48 \<le> c \<and> c \<le> 57 then Some (c - 48) else if 97 \<le> c \<and> c \<le> 102 then Some (c - 87)
      else if 65 \<le> c \<and> c \<le> 70 then Some (c - 55) else None)"

text \<open>\<open>bytes.fromhex\<close>: pairs of digits, with ASCII white space allowed between the pairs.\<close>

fun bytes_fromhex :: "pystr \<Rightarrow> exn + bytes" where
  "bytes_fromhex [] = Inr []"
| "bytes_fromhex (c # s) =
     (if c = 32 \<or> (9 \<le> c \<and> c \<le> 13) then bytes_fromhex s
      else case s of
        [] \<Rightarrow> Inl (ValueError ''non-hexadecimal number found in fromhex() arg'')
      | d # s' \<Rightarrow>
          (case (hex_value c, hex_value d) of
             (Some hi, Some lo) \<Rightarrow> ebind (bytes_fromhex s') (\<lambda>bs. Inr (of_nat (hi * 16 + lo) # bs))
           | _ \<Rightarrow> Inl (ValueError ''non-hexadecimal number found in fromhex() arg'')))"

text \<open>The handover element of the SessionTranscript: \<open>None\<close> for a QR engagement.\<close>

definition resolve_handover :: "(pystr \<Rightarrow> exn + bytes) \<Rightarrow> cli_args \<Rightarrow> exn + pyobj" where
  "resolve_handover read_file args =
     (case (arg_nfc_handover_hex args, arg_nfc_handover_file args) of
        (Some (c # h), _) \<Rightarrow> ebind (bytes_fromhex (c # h)) (\<lambda>b. Inr (PList [PBytes b, PNone]))
      | (_, Some (c # f)) \<Rightarrow> ebind (read_file (c # f)) (\<lambda>b. Inr (PList [PBytes b, PNone]))
      | _ \<Rightarrow> Inr PNone)"

text \<open>\<open>_resolve_mode\<close>: true to connect as a GATT central, false to advertise as a peripheral.\<close>

definition resolve_mode :: "string \<Rightarrow> device_engagement \<Rightarrow> exn + bool" where
  "resolve_mode mode de =
     (if mode = ''peripheral'' then
        if \<not> supports_peripheral_server_mode de
        then Inl (SystemExit ''--mode peripheral requested but not offered'') else Inr True
      else if mode = ''central'' then
        if de_central_client_uuid de = None
        then Inl (SystemExit ''--mode central requested but not offered'') else Inr False
      else Inr (supports_peripheral_server_mode de))"

definition require_peripheral_mode :: "device_engagement \<Rightarrow> string \<Rightarrow> exn + unit" where
  "require_peripheral_mode de mode =
     ebind (resolve_mode mode de) (\<lambda>use_peripheral_mode.
     if \<not> use_peripheral_mode then Inl (SystemExit ''fuzz scenarios only support mdoc peripheral server mode'')
     else Inr ())"

text \<open>Camera, image, then argument; the camera and the image reader are arguments.\<close>

definition resolve_engagement_uri ::
  "(exn + pystr) \<Rightarrow> (pystr \<Rightarrow> exn + pystr) \<Rightarrow> cli_args \<Rightarrow> exn + pystr" where
  "resolve_engagement_uri camera read_image args =
     (if arg_qr_camera args then camera
      else case arg_qr_image args of
        Some (c # path) \<Rightarrow> read_image (c # path)
      | _ \<Rightarrow>
          (case arg_mdoc_uri args of
             Some (c # uri) \<Rightarrow> Inr (c # uri)
           | _ \<Rightarrow> Inl (SystemExit ''provide a mdoc: URI, --qr-image, or --qr-camera'')))"

section \<open>Grouping\<close>

text \<open>
  \<open>parse_requests\<close> groups twice, by document type and by namespace, with a dict that is updated in
  place: a loop of \<open>upsert\<close>.  \<open>grouped\<close> is what the loop leaves behind: one entry per key, in the
  order of first occurrence, with everything the key was given, in order.
\<close>

definition firsts :: "'a list \<Rightarrow> 'a list" where
  "firsts xs = rev (remdups (rev xs))"

definition upsert :: "('a \<Rightarrow> 'v \<Rightarrow> 'a) \<Rightarrow> 'a \<Rightarrow> ('k \<times> 'a) list \<Rightarrow> 'k \<times> 'v \<Rightarrow> ('k \<times> 'a) list" where
  "upsert f init m p =
     AList.update (fst p) (f (case map_of m (fst p) of None \<Rightarrow> init | Some a \<Rightarrow> a) (snd p)) m"

definition values_of :: "'k \<Rightarrow> ('k \<times> 'v) list \<Rightarrow> 'v list" where
  "values_of k ps = map snd (filter (\<lambda>p. fst p = k) ps)"

definition grouped :: "('a \<Rightarrow> 'v \<Rightarrow> 'a) \<Rightarrow> 'a \<Rightarrow> ('k \<times> 'v) list \<Rightarrow> ('k \<times> 'a) list" where
  "grouped f init ps = map (\<lambda>k. (k, foldl f init (values_of k ps))) (firsts (map fst ps))"

lemma firsts_snoc [simp]: "firsts (xs @ [x]) = (if x \<in> set xs then firsts xs else firsts xs @ [x])"
  by (simp add: firsts_def)

lemma firsts_Nil [simp]: "firsts [] = []"
  by (simp add: firsts_def)

lemma set_firsts [simp]: "set (firsts xs) = set xs"
  by (simp add: firsts_def)

lemma distinct_firsts [simp]: "distinct (firsts xs)"
  by (simp add: firsts_def)

lemma values_of_snoc [simp]: "values_of k (ps @ [p]) = (if fst p = k then values_of k ps @ [snd p] else values_of k ps)"
  by (simp add: values_of_def)

lemma map_of_tabulate: "map_of (map (\<lambda>k. (k, g k)) ks) k = (if k \<in> set ks then Some (g k) else None)"
  by (induction ks) auto

lemma update_tabulate:
  "distinct ks \<Longrightarrow> AList.update k x (map (\<lambda>k. (k, g k)) ks) =
    (if k \<in> set ks then map (\<lambda>k'. (k', if k' = k then x else g k')) ks else map (\<lambda>k. (k, g k)) ks @ [(k, x)])"
  by (induction ks) auto

lemma upsert_loop: "foldl (upsert f init) [] ps = grouped f init ps"
proof (induction ps rule: rev_induct)
  case (snoc p ps)
  have fresh: "values_of (fst p) ps = []" if "fst p \<notin> set (map fst ps)"
    using that unfolding values_of_def by (simp add: filter_empty_conv image_iff) metis
  from snoc show ?case
    by (auto simp: upsert_def grouped_def map_of_tabulate update_tabulate fresh intro!: map_cong)
qed (simp add: grouped_def)

lemma map_fst_grouped [simp]: "map fst (grouped f init ps) = firsts (map fst ps)"
  by (simp add: grouped_def o_def)

lemma extend_claims_upsert: "extend_claims = upsert (@) []"
  by (intro ext) (simp add: extend_claims_def upsert_def Let_def split: prod.split)

text \<open>The loop body is an \<open>upsert\<close> of the dict, and \<open>order\<close> lists the dict's keys.\<close>

lemma update_twice: "AList.update k y (AList.update k x m) = AList.update k y m"
  by (induction m) auto

lemma add_request_upsert:
  assumes "order st = map fst (namespaces_by_doctype st)"
  shows "namespaces_by_doctype (add_request st r) = upsert extend_claims [] (namespaces_by_doctype st) r \<and>
    order (add_request st r) = map fst (namespaces_by_doctype (add_request st r))"
proof (cases "map_of (namespaces_by_doctype st) (fst r)")
  case None
  then have "fst r \<notin> set (map fst (namespaces_by_doctype st))" by (simp add: map_of_eq_None_iff)
  with None assms show ?thesis
    by (auto simp: add_request_def upsert_def Let_def update_conv' update_twice update_keys split: prod.split)
next
  case (Some m)
  then have "fst r \<in> set (map fst (namespaces_by_doctype st))"
    by (metis map_of_eq_None_iff option.distinct(1) set_map)
  with Some assms show ?thesis
    by (cases r) (simp add: add_request_def upsert_def Let_def update_keys)
qed

lemma request_loop_grouped:
  "order st = map fst (namespaces_by_doctype st) \<Longrightarrow>
    request_loop st specs = ebind (emap parse_spec specs) (\<lambda>rs. Inr \<lparr>
      namespaces_by_doctype = foldl (upsert extend_claims []) (namespaces_by_doctype st) rs,
      order = map fst (foldl (upsert extend_claims []) (namespaces_by_doctype st) rs)\<rparr>)"
proof (induction st specs rule: request_loop.induct)
  case (2 st spec specs)
  show ?case
  proof (cases "parse_spec spec")
    case (Inr r)
    with 2 add_request_upsert [of st r] show ?thesis
      by (cases "emap parse_spec specs") auto
  qed simp
qed simp

text \<open>
  C17: the requests are the specifications grouped by document type, and within it by namespace,
  both in the order of first occurrence, with the claims of every specification for that pair
  appended in order; and the first malformed specification, if any, is the error.
\<close>

theorem parse_requests_groups:
  "parse_requests specs = ebind (emap parse_spec specs) (\<lambda>rs. Inr (map (\<lambda>doc_type.
     \<lparr>dr_doc_type = doc_type,
      dr_namespaces = map (\<lambda>ns. (ns, concat (values_of ns (values_of doc_type rs))))
        (firsts (map fst (values_of doc_type rs)))\<rparr>) (firsts (map fst rs))))"
proof (cases "emap parse_spec specs")
  case (Inr rs)
  have concat: "foldl (@) [] xs = concat xs" for xs :: "pystr list list"
    by (induction xs rule: rev_induct) auto
  have inner: "foldl extend_claims [] ps = map (\<lambda>ns. (ns, concat (values_of ns ps))) (firsts (map fst ps))" for ps
    by (simp add: extend_claims_upsert upsert_loop grouped_def concat)
  have "emap (\<lambda>dt. case map_of (grouped extend_claims [] rs) dt of
      None \<Rightarrow> Inl KeyError | Some nss \<Rightarrow> Inr \<lparr>dr_doc_type = dt, dr_namespaces = nss\<rparr>) (firsts (map fst rs)) =
    Inr (map (\<lambda>dt. \<lparr>dr_doc_type = dt, dr_namespaces = foldl extend_claims [] (values_of dt rs)\<rparr>) (firsts (map fst rs)))"
    by (rule emap_all_Inr) (simp add: grouped_def map_of_tabulate)
  with Inr show ?thesis
    by (simp add: parse_requests_def request_loop_grouped upsert_loop inner)
qed (simp add: parse_requests_def request_loop_grouped)

text \<open>
  C31: the mode that is chosen can be driven: for an engagement that was accepted, connecting as
  a central is chosen only if the engagement has a peripheral-server UUID, and advertising as a
  peripheral only if it has a central-client UUID, so the assertions that follow the choice
  never fail.
\<close>

theorem resolved_mode_is_offered:
  assumes "parse_engagement L de_bytes = Inr de" and "resolve_mode mode de = Inr use_peripheral_mode"
  shows "(if use_peripheral_mode then de_peripheral_server_uuid de else de_central_client_uuid de) \<noteq> None"
proof -
  from assms(1) have "de_peripheral_server_uuid de \<noteq> None \<or> de_central_client_uuid de \<noteq> None"
    by (auto simp: parse_engagement_def ebind_inv split: if_splits)
  with assms(2) show ?thesis
    by (auto simp: resolve_mode_def supports_peripheral_server_mode_def split: if_splits)
qed

theorem resolved_mode_is_offered_witness:
  "\<exists>de. parse_engagement demo_engagement_lib [1] = Inr de \<and> de_peripheral_server_uuid de \<noteq> None"
proof -
  have "\<not> isl (parse_engagement demo_engagement_lib [1])" by code_simp
  then obtain de where de: "parse_engagement demo_engagement_lib [1] = Inr de"
    by (cases "parse_engagement demo_engagement_lib [1]") auto
  have "(case parse_engagement demo_engagement_lib [1] of Inl _ \<Rightarrow> False
      | Inr de \<Rightarrow> \<not> isl (resolve_mode ''peripheral'' de))" by code_simp
  with de have "resolve_mode ''peripheral'' de = Inr True" by (auto simp: resolve_mode_def split: if_splits)
  from resolved_mode_is_offered [OF de this] de show ?thesis by auto
qed

end
