(* ===== verification/Display.thy ===== *)
theory Display
  imports Mdoc_Document
begin

text \<open>
  \<open>display.py\<close>: escaping of untrusted text (\<open>safe_text\<close>), the one-line rendering of a decoded
  value (\<open>format_value\<close>) and the conversion to JSON (\<open>to_jsonable\<close>), on objects and on the
  dataclasses of \<open>mdoc.py\<close>.  The interpreter's recursion limit is not modelled.
\<close>

section \<open>Text primitives\<close>

definition hex_digit :: "nat \<Rightarrow> nat" where
  "hex_digit d = (if d < 10 then 48 + d else 87 + d)"

text \<open>The last \<open>k\<close> hexadecimal digits of \<open>n\<close>, and all of them.\<close>

fun hex_fixed :: "nat \<Rightarrow> nat \<Rightarrow> pystr" where
  "hex_fixed 0 n = []"
| "hex_fixed (Suc k) n = hex_fixed k (n div 16) @ [hex_digit (n mod 16)]"

fun hex_nat :: "nat \<Rightarrow> pystr" where
  "hex_nat n = (if n < 16 then [hex_digit n] else hex_nat (n div 16) @ [hex_digit (n mod 16)])"

declare hex_nat.simps [simp del]

definition bytes_hex :: "bytes \<Rightarrow> pystr" where
  "bytes_hex bs = concat (map (\<lambda>b. hex_fixed 2 (unat b)) bs)"

fun join :: "pystr \<Rightarrow> pystr list \<Rightarrow> pystr" where
  "join sep [] = []"
| "join sep [s] = s"
| "join sep (s # ss) = s @ sep @ join sep ss"

text \<open>The \<open>unicode_escape\<close> codec, one code point at a time.\<close>

definition escape_char :: "nat \<Rightarrow> pystr" where
  "escape_char c =
     (if c = 92 then [92, 92]
      else if c = 9 then [92, 116]
      else if c = 10 then [92, 110]
      else if c = 13 then [92, 114]
      else if 32 \<le> c \<and> c < 127 then [c]
      else if c < 256 then [92, 120] @ hex_fixed 2 c
      else if c < 65536 then [92, 117] @ hex_fixed 4 c
      else [92, 85] @ hex_fixed 8 c)"

definition unicode_escape :: "pystr \<Rightarrow> pystr" where
  "unicode_escape s = concat (map escape_char s)"

definition small_int :: "int \<Rightarrow> bool" where
  "small_int i \<longleftrightarrow> - (2 ^ 64) \<le> i \<and> i < 2 ^ 64"

definition big_int_text :: "int \<Rightarrow> pystr" where
  "big_int_text i =
     (if i \<ge> 0 then U ''integer 0x'' @ hex_nat (nat i) else U ''integer -0x'' @ hex_nat (nat (- i)))"

fun safe_text_atom :: "lib \<Rightarrow> pyobj \<Rightarrow> exn + pystr" where
  "safe_text_atom L (PInt i) =
     Inr (unicode_escape (if \<not> small_int i then big_int_text i else dec_int i))"
| "safe_text_atom L v = ebind (atom_str L v) (\<lambda>s. Inr (unicode_escape s))"

section \<open>safe_text and format_value\<close>

fun safe_text :: "lib \<Rightarrow> pyobj \<Rightarrow> exn + pystr" where
  "safe_text L (PTag tag v) =
     ebind (safe_text L v) (\<lambda>s. Inr (U ''#6.'' @ dec_int tag @ U ''('' @ s @ U '')''))"
| "safe_text L (PList xs) =
     ebind (emap (\<lambda>x. safe_text L x) xs) (\<lambda>ss. Inr (U ''['' @ join (U '', '') ss @ U '']''))"
| "safe_text L (PTuple xs) =
     ebind (emap (\<lambda>x. safe_text L x) xs) (\<lambda>ss. Inr (U ''['' @ join (U '', '') ss @ U '']''))"
| "safe_text L (PMap m) =
     ebind (emap (\<lambda>(k, v). ebind (safe_text L k) (\<lambda>s. ebind (safe_text L v) (\<lambda>t. Inr (s @ U '': '' @ t)))) m)
       (\<lambda>ss. Inr (U ''{'' @ join (U '', '') ss @ U ''}''))"
| "safe_text L v = safe_text_atom L v"

definition BINARY_PREVIEW_LEN :: nat where "BINARY_PREVIEW_LEN = 32"

definition detect_image_kind :: "bytes \<Rightarrow> string option" where
  "detect_image_kind data =
     (if take 3 data = [0xff, 0xd8, 0xff] then Some ''JPEG''
      else if take 8 data = [0x89, 0x50, 0x4e, 0x47, 0x0d, 0x0a, 0x1a, 0x0a] then Some ''PNG''
      else None)"

fun format_value :: "lib \<Rightarrow> pyobj \<Rightarrow> exn + pystr" where
  "format_value L (PBytes b) =
     (case detect_image_kind b of
        Some kind \<Rightarrow> Inr (U ''<'' @ U kind @ U '' image, '' @ dec_nat (length b) @ U '' bytes>'')
      | None \<Rightarrow>
          (let preview = bytes_hex (take BINARY_PREVIEW_LEN b);
               suffix = (if length b > BINARY_PREVIEW_LEN then U ''...'' else [])
           in Inr (U ''h'' @ [39] @ preview @ suffix @ [39] @ U '' ('' @ dec_nat (length b) @ U '' bytes)'')))"
| "format_value L (PDateTime tz w) = Inr (isoformat (PDateTime tz w))"
| "format_value L (PDate d) = Inr (isoformat (PDate d))"
| "format_value L (PTag tag v) =
     ebind (format_value L v) (\<lambda>s. Inr (U ''#6.'' @ dec_int tag @ U ''('' @ s @ U '')''))"
| "format_value L (PMap m) =
     ebind (emap (\<lambda>(k, v). ebind (safe_text L k) (\<lambda>s. ebind (format_value L v) (\<lambda>t. Inr (s @ U '': '' @ t)))) m)
       (\<lambda>ss. Inr (U ''{'' @ join (U '', '') ss @ U ''}''))"
| "format_value L (PList xs) =
     ebind (emap (\<lambda>x. format_value L x) xs) (\<lambda>ss. Inr (U ''['' @ join (U '', '') ss @ U '']''))"
| "format_value L (PTuple xs) =
     ebind (emap (\<lambda>x. format_value L x) xs) (\<lambda>ss. Inr (U ''['' @ join (U '', '') ss @ U '']''))"
| "format_value L (PInt i) = (if \<not> small_int i then Inr (big_int_text i) else Inr (dec_int i))"
| "format_value L v = py_repr L v"

section \<open>to_jsonable\<close>

definition json_big_int :: "int \<Rightarrow> json" where
  "json_big_int i =
     JObj [(U ''integer_hex'', JStr (if i \<ge> 0 then hex_nat (nat i) else U ''-'' @ hex_nat (nat (- i))))]"

text \<open>The key an entry gets in the JSON object.\<close>

definition json_key :: "lib \<Rightarrow> pyobj \<Rightarrow> exn + pystr" where
  "json_key L key = (case key of PStr s \<Rightarrow> Inr s | _ \<Rightarrow> safe_text L key)"

text \<open>
  The loop over a mapping's items, given each item's key and the conversion of its key and
  value: \<open>converted\<close> is the object built so far, and the first key that is already taken
  makes the whole mapping an array of entries instead.
\<close>

fun convert_items ::
  "(exn + json list) \<Rightarrow> (pystr \<times> json) list \<Rightarrow> ((exn + pystr) \<times> (exn + json)) list \<Rightarrow> exn + json" where
  "convert_items entries converted [] = Inr (JObj converted)"
| "convert_items entries converted ((key, item) # rest) =
     ebind key (\<lambda>k.
     if k \<in> fst ` set converted
     then ebind entries (\<lambda>es. Inr (JObj [(U ''entries'', JList es)]))
     else ebind item (\<lambda>j. convert_items entries (converted @ [(k, j)]) rest))"

fun to_jsonable :: "lib \<Rightarrow> pyobj \<Rightarrow> exn + json" where
  "to_jsonable L (PBytes b) = Inr (JObj [(U ''hex'', JStr (bytes_hex b))])"
| "to_jsonable L (PDateTime tz w) = Inr (JStr (isoformat (PDateTime tz w)))"
| "to_jsonable L (PDate d) = Inr (JStr (isoformat (PDate d)))"
| "to_jsonable L (PTag tag v) =
     ebind (to_jsonable L v) (\<lambda>j. Inr (JObj [(U ''tag'', JInt tag), (U ''value'', j)]))"
| "to_jsonable L (PMap m) =
     convert_items
       (emap (\<lambda>(k, v). ebind (to_jsonable L k) (\<lambda>j. ebind (to_jsonable L v) (\<lambda>j'.
          Inr (JObj [(U ''key'', j), (U ''value'', j')])))) m)
       [] (map (\<lambda>(k, v). (json_key L k, to_jsonable L v)) m)"
| "to_jsonable L (PList xs) = ebind (emap (\<lambda>x. to_jsonable L x) xs) (\<lambda>js. Inr (JList js))"
| "to_jsonable L (PTuple xs) = ebind (emap (\<lambda>x. to_jsonable L x) xs) (\<lambda>js. Inr (JList js))"
| "to_jsonable L (PInt i) = Inr (if \<not> small_int i then json_big_int i else JInt i)"
| "to_jsonable L PNone = Inr JNull"
| "to_jsonable L (PBool b) = Inr (JBool b)"
| "to_jsonable L (PStr s) = Inr (JStr s)"
| "to_jsonable L (POther k t n) = Inr (JRaw (POther k t n))"

section \<open>TreePrinter\<close>

definition tree_line :: "nat \<Rightarrow> pystr \<Rightarrow> pystr" where
  "tree_line depth text = concat (replicate depth (U ''  '')) @ text @ [10]"

end
