(* ===== verification/Py_Json.thy ===== *)
theory Py_Json
  imports Py_Text
begin

text \<open>
  The \<open>json\<close> module of the standard library, as far as the program uses it: \<open>json.dumps\<close> with
  \<open>ensure_ascii=False\<close>, compact or indented, and \<open>json.loads\<close> with the \<open>object_pairs_hook\<close> and
  \<open>parse_constant\<close> arguments.  What the writer writes, the scanner reads back.
\<close>

section \<open>json.dumps\<close>

definition hex_digit_lower :: "nat \<Rightarrow> nat" where
  "hex_digit_lower d = (if d < 10 then 48 + d else 87 + d)"

definition json_escape :: "nat \<Rightarrow> pystr" where
  "json_escape c =
     (if c = 34 then [92, 34] else if c = 92 then [92, 92]
      else if c = 10 then [92, 110] else if c = 13 then [92, 114] else if c = 9 then [92, 116]
      else if c = 8 then [92, 98] else if c = 12 then [92, 102]
      else if c < 32 then [92, 117, 48, 48, hex_digit_lower (c div 16), hex_digit_lower (c mod 16)]
      else [c])"

definition json_string :: "pystr \<Rightarrow> pystr" where
  "json_string s = [34] @ concat (map json_escape s) @ [34]"

text \<open>
  The layout: \<open>None\<close> is \<open>separators=(",", ":")\<close> without indentation, \<open>Some n\<close> is \<open>indent=2\<close> with
  the default separators inside \<open>n\<close> levels of nesting.
\<close>

type_synonym layout = "nat option"

definition newline :: "layout \<Rightarrow> pystr" where
  "newline ind = (case ind of None \<Rightarrow> [] | Some n \<Rightarrow> 10 # replicate (2 * n) 32)"

abbreviation deeper :: "layout \<Rightarrow> layout" where
  "deeper ind \<equiv> map_option Suc ind"

definition key_separator :: "layout \<Rightarrow> pystr" where
  "key_separator ind = (if ind = None then [58] else [58, 32])"

text \<open>The items of a list or dict between its brackets; an empty one has nothing between them.\<close>

fun items_text :: "layout \<Rightarrow> pystr list \<Rightarrow> pystr" where
  "items_text ind [] = []"
| "items_text ind [x] = newline (deeper ind) @ x @ newline ind"
| "items_text ind (x # xs) = newline (deeper ind) @ x @ [44] @ items_text ind xs"

fun json_write :: "(pyobj \<Rightarrow> exn + pystr) \<Rightarrow> layout \<Rightarrow> json \<Rightarrow> exn + pystr" where
  "json_write raw ind JNull = Inr (U ''null'')"
| "json_write raw ind (JBool b) = Inr (if b then U ''true'' else U ''false'')"
| "json_write raw ind (JInt i) = Inr (dec_int i)"
| "json_write raw ind (JStr s) = Inr (json_string s)"
| "json_write raw ind (JList xs) =
     ebind (emap (json_write raw (deeper ind)) xs) (\<lambda>ts. Inr ([91] @ items_text ind ts @ [93]))"
| "json_write raw ind (JObj members) =
     ebind (emap (\<lambda>(k, v). ebind (json_write raw (deeper ind) v) (\<lambda>t. Inr (json_string k @ key_separator ind @ t))) members)
       (\<lambda>ts. Inr ([123] @ items_text ind ts @ [125]))"
| "json_write raw ind (JRaw v) = raw v"

text \<open>\<open>json.dumps(x, ensure_ascii=False, separators=(",", ":"))\<close> of text, lists and dicts.\<close>

definition json_compact :: "json \<Rightarrow> exn + pystr" where
  "json_compact = json_write (\<lambda>v. Inl (TypeError ''Object is not JSON serializable'')) None"

text \<open>\<open>json.dumps(x, indent=2, ensure_ascii=False)\<close>.\<close>

definition json_dumps :: "lib \<Rightarrow> json \<Rightarrow> exn + pystr" where
  "json_dumps L = json_write (json_raw L) (Some 0)"

section \<open>json.loads\<close>

record json_hooks =
  hook_pairs :: "(pystr \<times> pyobj) list \<Rightarrow> exn + pyobj"
  hook_constant :: "pystr \<Rightarrow> exn + pyobj"
  hook_float :: "pystr \<Rightarrow> pyobj"
    \<comment> \<open>\<open>float(text)\<close>\<close>

abbreviation json_error :: "string \<Rightarrow> exn + 'a" where
  "json_error reason \<equiv> Inl (ValueError reason)"

definition skip_ws :: "pystr \<Rightarrow> pystr" where
  "skip_ws s = dropWhile (\<lambda>c. c = 32 \<or> c = 9 \<or> c = 10 \<or> c = 13) s"

definition hex_value :: "nat \<Rightarrow> nat option" where
  "hex_value c =
     (if 48 \<le> c \<and> c \<le> 57 then Some (c - 48) else if 97 \<le> c \<and> c \<le> 102 then Some (c - 87)
      else if 65 \<le> c \<and> c \<le> 70 then Some (c - 55) else None)"

definition hex4 :: "nat \<Rightarrow> nat \<Rightarrow> nat \<Rightarrow> nat \<Rightarrow> nat option" where
  "hex4 a b c d =
     (case (hex_value a, hex_value b, hex_value c, hex_value d) of
        (Some w, Some x, Some y, Some z) \<Rightarrow> Some (((w * 16 + x) * 16 + y) * 16 + z)
      | _ \<Rightarrow> None)"

definition simple_escape :: "nat \<Rightarrow> nat option" where
  "simple_escape c = map_of [(34, 34), (92, 92), (47, 47), (98, 8), (102, 12), (110, 10), (114, 13), (116, 9)] c"

definition prefixed :: "nat \<Rightarrow> exn + (pystr \<times> pystr) \<Rightarrow> exn + (pystr \<times> pystr)" where
  "prefixed c m = ebind m (\<lambda>(t, rest). Inr (c # t, rest))"

lemma prefixed_cong [fundef_cong]: "m = m' \<Longrightarrow> prefixed c m = prefixed c m'"
  by simp

text \<open>
  \<open>scanstring\<close> in strict mode, after the opening quote.  An escaped high surrogate is joined with
  an escaped low surrogate after it; other surrogates are kept as they are.
\<close>

fun scan_string :: "pystr \<Rightarrow> exn + (pystr \<times> pystr)" where
  "scan_string [] = json_error ''Unterminated string''"
| "scan_string (c # s) =
     (if c = 34 then Inr ([], s)
      else if c = 92 then
        (case s of
           [] \<Rightarrow> json_error ''Unterminated string''
         | e # s' \<Rightarrow>
             if e = 117 then
               (case s' of
                  h1 # h2 # h3 # h4 # s'' \<Rightarrow>
                    (case hex4 h1 h2 h3 h4 of
                       None \<Rightarrow> json_error ''Invalid escape''
                     | Some v \<Rightarrow>
                         if 55296 \<le> v \<and> v < 56320 then
                           (case s'' of
                              b # u # k1 # k2 # k3 # k4 # s3 \<Rightarrow>
                                if b = 92 \<and> u = 117 then
                                  (case hex4 k1 k2 k3 k4 of
                                     None \<Rightarrow> json_error ''Invalid escape''
                                   | Some w \<Rightarrow>
                                       if 56320 \<le> w \<and> w < 57344
                                       then prefixed (65536 + (v - 55296) * 1024 + (w - 56320)) (scan_string s3)
                                       else prefixed v (scan_string (b # u # k1 # k2 # k3 # k4 # s3)))
                                else prefixed v (scan_string (b # u # k1 # k2 # k3 # k4 # s3))
                            | _ \<Rightarrow> prefixed v (scan_string s''))
                         else prefixed v (scan_string s''))
                | _ \<Rightarrow> json_error ''Invalid escape'')
             else
               (case simple_escape e of
                  None \<Rightarrow> json_error ''Invalid escape''
                | Some x \<Rightarrow> prefixed x (scan_string s')))
      else if c < 32 then json_error ''Invalid control character''
      else prefixed c (scan_string s))"

definition is_digit :: "nat \<Rightarrow> bool" where
  "is_digit c \<longleftrightarrow> 48 \<le> c \<and> c \<le> 57"

definition digits_value :: "pystr \<Rightarrow> nat" where
  "digits_value ds = foldl (\<lambda>n d. n * 10 + (d - 48)) 0 ds"

text \<open>The integer part: \<open>0\<close>, or digits that do not begin with it.\<close>

definition integer_part :: "pystr \<Rightarrow> (pystr \<times> pystr) option" where
  "integer_part s =
     (case s of
        [] \<Rightarrow> None
      | c # r \<Rightarrow>
          if c = 48 then Some ([48], r)
          else if is_digit c then Some (takeWhile is_digit s, dropWhile is_digit s)
          else None)"

text \<open>A fraction and an exponent; what does not have a digit where one is needed is left alone.\<close>

definition fraction_part :: "pystr \<Rightarrow> pystr \<times> pystr" where
  "fraction_part s =
     (case s of
        p # d # r \<Rightarrow>
          if p = 46 \<and> is_digit d then (p # takeWhile is_digit (d # r), dropWhile is_digit (d # r)) else ([], s)
      | _ \<Rightarrow> ([], s))"

definition exponent_part :: "pystr \<Rightarrow> pystr \<times> pystr" where
  "exponent_part s =
     (case s of
        e # r \<Rightarrow>
          if e = 101 \<or> e = 69 then
            (let sign = takeWhile (\<lambda>c. c = 43 \<or> c = 45) (take 1 r); ds = drop (length sign) r in
             if ds \<noteq> [] \<and> is_digit (hd ds) then (e # sign @ takeWhile is_digit ds, dropWhile is_digit ds) else ([], s))
          else ([], s)
      | _ \<Rightarrow> ([], s))"

definition MAX_INT_DIGITS :: nat where "MAX_INT_DIGITS = 4300"

definition scan_number :: "json_hooks \<Rightarrow> pystr \<Rightarrow> exn + (pyobj \<times> pystr)" where
  "scan_number H s =
     (let sign = takeWhile (\<lambda>c. c = 45) (take 1 s) in
      case integer_part (drop (length sign) s) of
        None \<Rightarrow> json_error ''Expecting value''
      | Some (ds, r) \<Rightarrow>
          (let (frac, r) = fraction_part r; (expo, r) = exponent_part r in
           if frac = [] \<and> expo = [] then
             (if length ds > MAX_INT_DIGITS then json_error ''Exceeds the limit for integer string conversion''
              else Inr (PInt (if sign = [] then int (digits_value ds) else - int (digits_value ds)), r))
           else Inr (hook_float H (sign @ ds @ frac @ expo), r)))"

text \<open>
  The members of an array or object, given the scanner for one value.  The length test never
  fails: a scanned value has at least one character.
\<close>

definition expect :: "nat \<Rightarrow> string \<Rightarrow> pystr \<Rightarrow> exn + pystr" where
  "expect c reason s = (case s of [] \<Rightarrow> json_error reason | d # r \<Rightarrow> if d = c then Inr r else json_error reason)"

function scan_elements :: "(pystr \<Rightarrow> exn + (pyobj \<times> pystr)) \<Rightarrow> pystr \<Rightarrow> exn + (pyobj list \<times> pystr)" where
  "scan_elements sc s =
     ebind (sc s) (\<lambda>(v, r).
     case skip_ws r of
       [] \<Rightarrow> json_error ''Expecting , delimiter''
     | c # r' \<Rightarrow>
         if c = 93 then Inr ([v], r')
         else if c = 44 then
           (if length (skip_ws r') < length s
            then ebind (scan_elements sc (skip_ws r')) (\<lambda>(vs, r''). Inr (v # vs, r''))
            else json_error ''no progress'')
         else json_error ''Expecting , delimiter'')"
  by pat_completeness auto
termination by (relation "measure (\<lambda>(_, s). length s)") auto

function scan_members ::
  "(pystr \<Rightarrow> exn + (pyobj \<times> pystr)) \<Rightarrow> pystr \<Rightarrow> exn + ((pystr \<times> pyobj) list \<times> pystr)" where
  "scan_members sc s =
     ebind (expect 34 ''Expecting property name'' s) (\<lambda>s1.
     ebind (scan_string s1) (\<lambda>(k, s2).
     ebind (expect 58 ''Expecting : delimiter'' (skip_ws s2)) (\<lambda>s3.
     ebind (sc (skip_ws s3)) (\<lambda>(v, r).
     case skip_ws r of
       [] \<Rightarrow> json_error ''Expecting , delimiter''
     | c # r' \<Rightarrow>
         if c = 125 then Inr ([(k, v)], r')
         else if c = 44 then
           (if length (skip_ws r') < length s
            then ebind (scan_members sc (skip_ws r')) (\<lambda>(ms, r''). Inr ((k, v) # ms, r''))
            else json_error ''no progress'')
         else json_error ''Expecting , delimiter''))))"
  by pat_completeness auto
termination by (relation "measure (\<lambda>(_, s). length s)") auto

declare scan_elements.simps [simp del] scan_members.simps [simp del]

definition scan_array :: "(pystr \<Rightarrow> exn + (pyobj \<times> pystr)) \<Rightarrow> pystr \<Rightarrow> exn + (pyobj \<times> pystr)" where
  "scan_array sc s =
     (if s \<noteq> [] \<and> hd s = 93 then Inr (PList [], tl s)
      else ebind (scan_elements sc s) (\<lambda>(vs, r). Inr (PList vs, r)))"

definition scan_object :: "json_hooks \<Rightarrow> (pystr \<Rightarrow> exn + (pyobj \<times> pystr)) \<Rightarrow> pystr \<Rightarrow> exn + (pyobj \<times> pystr)" where
  "scan_object H sc s =
     (if s \<noteq> [] \<and> hd s = 125 then ebind (hook_pairs H []) (\<lambda>v. Inr (v, tl s))
      else ebind (scan_members sc s) (\<lambda>(ms, r). ebind (hook_pairs H ms) (\<lambda>v. Inr (v, r))))"

definition json_constants :: "json_hooks \<Rightarrow> (string \<times> (exn + pyobj)) list" where
  "json_constants H =
     [(''null'', Inr PNone), (''true'', Inr (PBool True)), (''false'', Inr (PBool False)),
      (''NaN'', hook_constant H (U ''NaN'')), (''Infinity'', hook_constant H (U ''Infinity'')),
      (''-Infinity'', hook_constant H (U ''-Infinity''))]"

text \<open>
  One value.  \<open>nested\<close> is the scanner for the values inside, absent when the interpreter's
  recursion limit is reached.
\<close>

definition scan_step ::
  "json_hooks \<Rightarrow> (pystr \<Rightarrow> exn + (pyobj \<times> pystr)) option \<Rightarrow> pystr \<Rightarrow> exn + (pyobj \<times> pystr)" where
  "scan_step H nested s =
     (case s of
        [] \<Rightarrow> json_error ''Expecting value''
      | c # r \<Rightarrow>
          if c = 34 then ebind (scan_string r) (\<lambda>(t, r'). Inr (PStr t, r'))
          else if c = 123 then (case nested of None \<Rightarrow> Inl RecursionError | Some sc \<Rightarrow> scan_object H sc (skip_ws r))
          else if c = 91 then (case nested of None \<Rightarrow> Inl RecursionError | Some sc \<Rightarrow> scan_array sc (skip_ws r))
          else
            (case find (\<lambda>(word, _). starts_with s (U word)) (json_constants H) of
               Some (word, v) \<Rightarrow> ebind v (\<lambda>x. Inr (x, drop (length word) s))
             | None \<Rightarrow> scan_number H s))"

primrec scan_once :: "json_hooks \<Rightarrow> nat \<Rightarrow> pystr \<Rightarrow> exn + (pyobj \<times> pystr)" where
  "scan_once H 0 = scan_step H None"
| "scan_once H (Suc depth) = scan_step H (Some (scan_once H depth))"

definition json_decode :: "json_hooks \<Rightarrow> nat \<Rightarrow> pystr \<Rightarrow> exn + pyobj" where
  "json_decode H depth s =
     (if starts_with s [65279] then json_error ''Unexpected UTF-8 BOM'' else
      ebind (scan_once H depth (skip_ws s)) (\<lambda>(v, r).
      if skip_ws r = [] then Inr v else json_error ''Extra data''))"

text \<open>\<open>json.loads(body.decode("utf-8"), ...)\<close>.\<close>

definition json_loads :: "json_hooks \<Rightarrow> nat \<Rightarrow> bytes \<Rightarrow> exn + pyobj" where
  "json_loads H depth body = ebind (utf8_decode body) (json_decode H depth)"

section \<open>Reading back strings and integers\<close>

lemma hex_value_digit [simp]: "d < 16 \<Longrightarrow> hex_value (hex_digit_lower d) = Some d"
  by (auto simp: hex_value_def hex_digit_lower_def)

lemma hex4_control: "c < 32 \<Longrightarrow> hex4 48 48 (hex_digit_lower (c div 16)) (hex_digit_lower (c mod 16)) = Some c"
proof -
  assume "c < 32"
  then have "c div 16 < 16" by (simp add: div_less_iff_less_mult)
  moreover have "hex_value 48 = Some 0" by (simp add: hex_value_def)
  ultimately show ?thesis by (simp add: hex4_def)
qed

lemma scan_escaped_char: "scan_string (json_escape c @ s) = prefixed c (scan_string s)"
proof -
  have special: "simple_escape 34 = Some 34" "simple_escape 92 = Some 92" "simple_escape 110 = Some 10"
    "simple_escape 114 = Some 13" "simple_escape 116 = Some 9" "simple_escape 98 = Some 8" "simple_escape 102 = Some 12"
    by (simp_all add: simple_escape_def)
  show ?thesis
    using hex4_control [of c] special by (auto simp: json_escape_def)
qed

lemma scan_string_escaped: "scan_string (concat (map json_escape s) @ 34 # rest) = Inr (s, rest)"
  by (induction s) (simp_all add: scan_escaped_char prefixed_def)

lemma digits_value_snoc [simp]: "digits_value (ds @ [d]) = digits_value ds * 10 + (d - 48)"
  by (simp add: digits_value_def)

lemma digits_value_dec_nat [simp]: "digits_value (dec_nat n) = n"
proof (induction n rule: dec_nat.induct)
  case (1 n)
  then show ?case
    by (subst dec_nat.simps) (auto simp: digits_value_def [of "[_]"])
qed

lemma dec_nat_hd: "0 < n \<Longrightarrow> hd (dec_nat n) \<noteq> 48"
proof (induction n rule: dec_nat.induct)
  case (1 n)
  show ?case
  proof (cases "n < 10")
    case True
    with "1.prems" show ?thesis by (subst dec_nat.simps) simp
  next
    case False
    then have "0 < n div 10" by (simp add: div_greater_zero_iff)
    with "1.IH" False show ?thesis by (subst dec_nat.simps) simp
  qed
qed

lemma dec_nat_is_digit: "\<forall>c\<in>set (dec_nat n). is_digit c"
  using dec_nat_digits by (auto simp: is_digit_def)

lemma dec_nat_zero [simp]: "dec_nat 0 = [48]"
  by (subst dec_nat.simps) simp

text \<open>What may follow a number: nothing, white space, or the delimiter of a container.\<close>

definition closes :: "pystr \<Rightarrow> bool" where
  "closes rest \<longleftrightarrow> rest = [] \<or> hd rest \<in> {44, 93, 125, 10, 13, 32, 9}"

lemma closes_simps [simp]: "closes []" "closes (c # s) \<longleftrightarrow> c \<in> {44, 93, 125, 10, 13, 32, 9}"
  by (auto simp: closes_def)

lemma closes_after_number:
  assumes "closes rest"
  shows "takeWhile is_digit rest = []" "dropWhile is_digit rest = rest" "fraction_part rest = ([], rest)" "exponent_part rest = ([], rest)"
  using assms
  by (cases rest; auto simp: is_digit_def fraction_part_def exponent_part_def split: list.split)+

lemma integer_part_dec_nat:
  assumes "closes rest"
  shows "integer_part (dec_nat n @ rest) = Some (dec_nat n, rest)"
proof (cases "n = 0")
  case False
  obtain c ds where c: "dec_nat n = c # ds" by (cases "dec_nat n") auto
  with False dec_nat_hd [of n] have "c \<noteq> 48" by simp
  moreover have "takeWhile is_digit (dec_nat n @ rest) = dec_nat n" "dropWhile is_digit (dec_nat n @ rest) = rest"
    using dec_nat_is_digit closes_after_number [OF assms] by (simp_all add: takeWhile_append2 dropWhile_append2)
  moreover have "is_digit c" using dec_nat_is_digit [of n] c by simp
  ultimately show ?thesis using c by (simp add: integer_part_def)
qed (simp add: integer_part_def)

lemma scan_number_dec_int:
  assumes "closes rest" "length (dec_nat (nat \<bar>i\<bar>)) \<le> MAX_INT_DIGITS"
  shows "scan_number H (dec_int i @ rest) = Inr (PInt i, rest)"
proof -
  have "takeWhile (\<lambda>c. c = 45) (take 1 (dec_nat n @ rest)) = []" for n
    using dec_nat_is_digit [of n] by (cases "dec_nat n") (auto simp: is_digit_def)
  with assms closes_after_number [OF assms(1)] show ?thesis
    by (cases "i < 0") (simp_all add: scan_number_def dec_int_def integer_part_dec_nat Let_def)
qed

section \<open>Reading back values\<close>

text \<open>The object a JSON value reads back as.\<close>

fun obj_of :: "json \<Rightarrow> pyobj" where
  "obj_of JNull = PNone"
| "obj_of (JBool b) = PBool b"
| "obj_of (JInt i) = PInt i"
| "obj_of (JStr s) = PStr s"
| "obj_of (JList xs) = PList (map obj_of xs)"
| "obj_of (JObj members) = PMap (map (\<lambda>(k, v). (PStr k, obj_of v)) members)"
| "obj_of (JRaw v) = v"

text \<open>Values with distinct member names and without passed-through objects or enormous integers.\<close>

fun plain_json :: "json \<Rightarrow> bool" where
  "plain_json (JInt i) \<longleftrightarrow> length (dec_nat (nat \<bar>i\<bar>)) \<le> MAX_INT_DIGITS"
| "plain_json (JList xs) \<longleftrightarrow> (\<forall>x\<in>set xs. plain_json x)"
| "plain_json (JObj members) \<longleftrightarrow> distinct (map fst members) \<and> (\<forall>(k, v)\<in>set members. plain_json v)"
| "plain_json (JRaw v) \<longleftrightarrow> False"
| "plain_json _ \<longleftrightarrow> True"

fun json_depth :: "json \<Rightarrow> nat" where
  "json_depth (JList xs) = Suc (foldr (\<lambda>x. max (json_depth x)) xs 0)"
| "json_depth (JObj members) = Suc (foldr (\<lambda>(k, v). max (json_depth v)) members 0)"
| "json_depth _ = 0"

lemma foldr_max_le: "foldr (\<lambda>x. max (f x)) xs 0 \<le> d \<longleftrightarrow> (\<forall>x\<in>set xs. f x \<le> (d :: nat))"
  by (induction xs) auto

lemma skip_ws_simps [simp]:
  "skip_ws [] = []"
  "skip_ws (c # s) = (if c = 32 \<or> c = 9 \<or> c = 10 \<or> c = 13 then skip_ws s else c # s)"
  "skip_ws (replicate n 32 @ s) = skip_ws s"
  by (simp_all add: skip_ws_def) (induction n; simp)

lemma skip_newline [simp]: "skip_ws (newline ind @ s) = skip_ws s"
  by (auto simp: newline_def split: option.split)

lemma length_skip_ws: "length (skip_ws s) \<le> length s"
  by (simp add: skip_ws_def length_dropWhile_le)

text \<open>\<open>t\<close> is the text of a value: it begins with no white space or closing bracket.\<close>

definition value_text :: "pystr \<Rightarrow> bool" where
  "value_text t \<longleftrightarrow> t \<noteq> [] \<and> hd t \<notin> {32, 9, 10, 13, 93, 125}"

lemma skip_value_text: "value_text t \<Longrightarrow> skip_ws (t @ s) = t @ s"
  by (cases t) (auto simp: value_text_def)

definition reads :: "(pystr \<Rightarrow> exn + (pyobj \<times> pystr)) \<Rightarrow> pystr \<Rightarrow> pyobj \<Rightarrow> bool" where
  "reads sc t v \<longleftrightarrow> value_text t \<and> (\<forall>rest. closes rest \<longrightarrow> sc (t @ rest) = Inr (v, rest))"

lemma closes_newline: "closes (newline ind @ 93 # s)" "closes (newline ind @ 125 # s)"
  by (auto simp: newline_def split: option.split)

lemma scan_elements_items:
  assumes "list_all2 (reads sc) ts vs" "ts \<noteq> []"
  shows "scan_elements sc (skip_ws (items_text ind ts @ 93 # rest)) = Inr (vs, rest)"
  using assms
proof (induction ind ts arbitrary: vs rule: items_text.induct)
  case (2 ind t)
  then obtain v where v: "vs = [v]" "reads sc t v" by (auto simp: list_all2_Cons1)
  then have "skip_ws (items_text ind [t] @ 93 # rest) = t @ newline ind @ 93 # rest"
    "sc (t @ newline ind @ 93 # rest) = Inr (v, newline ind @ 93 # rest)"
    using closes_newline by (auto simp: reads_def skip_value_text)
  with v(1) show ?case by (subst scan_elements.simps) simp
next
  case (3 ind t t' ts)
  then obtain v vs' where v: "vs = v # vs'" "reads sc t v" "list_all2 (reads sc) (t' # ts) vs'"
    by (auto simp: list_all2_Cons1)
  let ?more = "items_text ind (t' # ts) @ 93 # rest"
  have s: "skip_ws (items_text ind (t # t' # ts) @ 93 # rest) = t @ 44 # ?more"
    "sc (t @ 44 # ?more) = Inr (v, 44 # ?more)"
    using v(2) by (auto simp: reads_def skip_value_text)
  have "length (skip_ws ?more) < length (t @ 44 # ?more)"
    using length_skip_ws [of ?more] by simp
  moreover have "scan_elements sc (skip_ws ?more) = Inr (vs', rest)"
    using "3.IH" v(3) by simp
  ultimately show ?case unfolding s(1) by (subst scan_elements.simps) (simp add: s(2) v(1))
qed simp

definition reads_member :: "layout \<Rightarrow> (pystr \<Rightarrow> exn + (pyobj \<times> pystr)) \<Rightarrow> pystr \<Rightarrow> pystr \<times> pyobj \<Rightarrow> bool" where
  "reads_member ind sc t m \<longleftrightarrow> (\<exists>t'. t = json_string (fst m) @ key_separator ind @ t' \<and> reads sc t' (snd m))"

lemma scan_member:
  assumes "reads_member ind sc t (k, v)" "closes rest"
  shows "skip_ws (t @ rest) = t @ rest" and "scan_members sc (t @ rest) =
    (case skip_ws rest of
       [] \<Rightarrow> json_error ''Expecting , delimiter''
     | c # r' \<Rightarrow>
         if c = 125 then Inr ([(k, v)], r')
         else if c = 44 then
           (if length (skip_ws r') < length (t @ rest)
            then ebind (scan_members sc (skip_ws r')) (\<lambda>(ms, r''). Inr ((k, v) # ms, r''))
            else json_error ''no progress'')
         else json_error ''Expecting , delimiter'')"
proof -
  from assms(1) obtain t' where t: "t = json_string k @ key_separator ind @ t'" "reads sc t' v"
    by (auto simp: reads_member_def)
  then show "skip_ws (t @ rest) = t @ rest" by (simp add: json_string_def)
  have "scan_string (concat (map json_escape k) @ 34 # key_separator ind @ t' @ rest) = Inr (k, key_separator ind @ t' @ rest)"
    by (rule scan_string_escaped)
  moreover have "expect 58 ''Expecting : delimiter'' (skip_ws (key_separator ind @ t' @ rest)) = Inr (tl (key_separator ind) @ t' @ rest)"
    by (auto simp: key_separator_def expect_def)
  moreover have "skip_ws (tl (key_separator ind) @ t' @ rest) = t' @ rest" "sc (t' @ rest) = Inr (v, rest)"
    using t(2) assms(2) skip_value_text [of t' rest] by (auto simp: key_separator_def reads_def)
  moreover have "t @ rest = 34 # concat (map json_escape k) @ 34 # key_separator ind @ t' @ rest"
    by (simp add: t(1) json_string_def)
  ultimately show "scan_members sc (t @ rest) = (case skip_ws rest of
       [] \<Rightarrow> json_error ''Expecting , delimiter''
     | c # r' \<Rightarrow>
         if c = 125 then Inr ([(k, v)], r')
         else if c = 44 then
           (if length (skip_ws r') < length (t @ rest)
            then ebind (scan_members sc (skip_ws r')) (\<lambda>(ms, r''). Inr ((k, v) # ms, r''))
            else json_error ''no progress'')
         else json_error ''Expecting , delimiter'')"
    by (subst scan_members.simps) (simp add: expect_def [of 34])
qed

lemma scan_members_items:
  assumes "list_all2 (reads_member ind' sc) ts ms" "ts \<noteq> []"
  shows "scan_members sc (skip_ws (items_text ind ts @ 125 # rest)) = Inr (ms, rest)"
  using assms
proof (induction ind ts arbitrary: ms rule: items_text.induct)
  case (2 ind t)
  then obtain k v where v: "ms = [(k, v)]" "reads_member ind' sc t (k, v)" by (auto simp: list_all2_Cons1)
  have "closes (newline ind @ 125 # rest)" by (rule closes_newline)
  from scan_member [OF v(2) this] v(1) show ?case by simp
next
  case (3 ind t t' ts)
  then obtain k v ms' where v: "ms = (k, v) # ms'" "reads_member ind' sc t (k, v)" "list_all2 (reads_member ind' sc) (t' # ts) ms'"
    by (auto simp: list_all2_Cons1)
  let ?more = "items_text ind (t' # ts) @ 125 # rest"
  have "closes (44 # ?more)" by simp
  note m = scan_member [OF v(2) this]
  have "skip_ws (items_text ind (t # t' # ts) @ 125 # rest) = t @ 44 # ?more"
    using m(1) by simp
  moreover have "length (skip_ws ?more) < length (t @ 44 # ?more)"
    using length_skip_ws [of ?more] by simp
  moreover have "scan_members sc (skip_ws ?more) = Inr (ms', rest)"
    using "3.IH" v(3) by simp
  ultimately show ?case using m(2) v(1) by simp
qed simp

lemma items_text_begin: "\<exists>r. items_text ind (t # ts) = newline (deeper ind) @ t @ r"
  by (cases ts) auto

lemma scan_array_items:
  assumes "list_all2 (reads sc) ts vs"
  shows "scan_array sc (skip_ws (items_text ind ts @ 93 # rest)) = Inr (PList vs, rest)"
proof (cases ts)
  case Nil
  with assms show ?thesis by (simp add: scan_array_def)
next
  case (Cons t ts')
  obtain r where "items_text ind ts = newline (deeper ind) @ t @ r" using items_text_begin Cons by blast
  moreover have "value_text t" using assms Cons by (auto simp: reads_def list_all2_Cons1)
  ultimately have "hd (skip_ws (items_text ind ts @ 93 # rest)) \<noteq> 93"
    by (simp add: skip_value_text) (auto simp: value_text_def)
  with scan_elements_items [OF assms] Cons show ?thesis by (simp add: scan_array_def)
qed

lemma scan_object_items:
  assumes "list_all2 (reads_member ind' sc) ts ms" "hook_pairs H ms = Inr v"
  shows "scan_object H sc (skip_ws (items_text ind ts @ 125 # rest)) = Inr (v, rest)"
proof (cases ts)
  case Nil
  with assms show ?thesis by (simp add: scan_object_def)
next
  case (Cons t ts')
  obtain r where "items_text ind ts = newline (deeper ind) @ t @ r" using items_text_begin Cons by blast
  moreover obtain r' where "t = 34 # r'" using assms Cons by (auto simp: reads_member_def json_string_def list_all2_Cons1)
  ultimately have "hd (skip_ws (items_text ind ts @ 125 # rest)) \<noteq> 125" by simp
  with scan_members_items [OF assms(1)] assms(2) Cons show ?thesis by (simp add: scan_object_def)
qed

lemma scan_once_step: "scan_once H d = scan_step H (case d of 0 \<Rightarrow> None | Suc d' \<Rightarrow> Some (scan_once H d'))"
  by (cases d) simp_all

lemma scan_constants:
  "scan_step H nested (U ''null'' @ rest) = Inr (PNone, rest)"
  "scan_step H nested (U ''true'' @ rest) = Inr (PBool True, rest)"
  "scan_step H nested (U ''false'' @ rest) = Inr (PBool False, rest)"
  by (simp_all add: scan_step_def json_constants_def starts_with_def U_def)

lemmas scan_constants_simps = scan_constants scan_constants [unfolded U_def, simplified]

lemma scan_step_int:
  assumes "closes rest" "plain_json (JInt i)"
  shows "scan_step H nested (dec_int i @ rest) = Inr (PInt i, rest)"
proof -
  obtain c ds where c: "dec_nat (nat \<bar>i\<bar>) = c # ds" by (cases "dec_nat (nat \<bar>i\<bar>)") auto
  then have digit: "48 \<le> c" "c \<le> 57" using dec_nat_digits [of c "nat \<bar>i\<bar>"] by simp_all
  then have "find (\<lambda>(word, _). starts_with (dec_int i @ rest) (U word)) (json_constants H) = None"
    using c by (cases "i < 0") (auto simp: find_None_iff json_constants_def dec_int_def starts_with_def U_def)
  moreover have "dec_int i @ rest = (if i < 0 then 45 # c # ds @ rest else c # ds @ rest)"
    using c by (auto simp: dec_int_def)
  ultimately show ?thesis
    using scan_number_dec_int [OF assms(1), of i H] assms(2) digit by (simp add: scan_step_def split: if_splits)
qed

lemma dec_int_value_text: "value_text (dec_int i)"
proof -
  obtain c ds where "dec_nat (nat \<bar>i\<bar>) = c # ds" by (cases "dec_nat (nat \<bar>i\<bar>)") auto
  moreover from this have "48 \<le> c" "c \<le> 57" using dec_nat_digits [of c "nat \<bar>i\<bar>"] by simp_all
  ultimately show ?thesis by (cases "i < 0") (auto simp: value_text_def dec_int_def)
qed

text \<open>The hook builds a dict from members with distinct names.\<close>

definition builds_dicts :: "json_hooks \<Rightarrow> bool" where
  "builds_dicts H \<longleftrightarrow> (\<forall>ms. distinct (map fst ms) \<longrightarrow> hook_pairs H ms = Inr (PMap (map (\<lambda>(k, v). (PStr k, v)) ms)))"

lemma json_write_reads:
  assumes "builds_dicts H"
  shows "json_write raw ind j = Inr t \<Longrightarrow> plain_json j \<Longrightarrow> json_depth j \<le> d \<Longrightarrow> reads (scan_once H d) t (obj_of j)"
proof (induction raw ind j arbitrary: t d rule: json_write.induct)
  case (1 raw ind)
  then show ?case by (auto simp: reads_def scan_once_step [of H d] scan_constants_simps value_text_def U_def [of "''null''"])
next
  case (2 raw ind b)
  then show ?case
    by (cases b) (auto simp: reads_def scan_once_step [of H d] scan_constants_simps value_text_def U_def)
next
  case (3 raw ind i)
  then show ?case by (auto simp: reads_def scan_once_step [of H d] scan_step_int dec_int_value_text)
next
  case (4 raw ind s)
  then show ?case
    by (auto simp: reads_def scan_once_step [of H d] scan_step_def json_string_def scan_string_escaped value_text_def)
next
  case (5 raw ind xs)
  then obtain ts d' where ts: "emap (json_write raw (deeper ind)) xs = Inr ts" "t = [91] @ items_text ind ts @ [93]"
    and d: "d = Suc d'" "\<forall>x\<in>set xs. json_depth x \<le> d'"
    by (cases d) (auto simp: ebind_inv foldr_max_le)
  from ts(1) have "list_all2 (\<lambda>x t. json_write raw (deeper ind) x = Inr t) xs ts" by (simp add: emap_eq_Inr)
  then have "list_all2 (reads (scan_once H d')) ts (map obj_of xs)"
    using "5.IH" "5.prems"(2) d(2)
    by (auto simp: list_all2_conv_all_nth)
  from scan_array_items [OF this] show ?case
    by (simp add: reads_def ts(2) d(1) scan_step_def value_text_def)
next
  case (6 raw ind members)
  then obtain ts d' where ts: "emap (\<lambda>(k, v). ebind (json_write raw (deeper ind) v) (\<lambda>t. Inr (json_string k @ key_separator ind @ t))) members = Inr ts"
      "t = [123] @ items_text ind ts @ [125]"
    and d: "d = Suc d'" "\<forall>(k, v)\<in>set members. json_depth v \<le> d'"
    by (cases d) (auto simp: ebind_inv foldr_max_le case_prod_beta')
  let ?ms = "map (\<lambda>(k, v). (k, obj_of v)) members"
  have "list_all2 (reads_member ind (scan_once H d')) ts ?ms"
    unfolding list_all2_conv_all_nth
  proof (intro conjI allI impI)
    from ts(1) show "length ts = length ?ms" by (simp add: emap_length)
    fix n assume "n < length ts"
    with ts(1) have n: "n < length members" by (simp add: emap_length)
    obtain k v where kv: "members ! n = (k, v)" by (cases "members ! n")
    with n have mem: "(k, v) \<in> set members" by (metis nth_mem)
    from list_all2_nthD [OF ts(1) [unfolded emap_eq_Inr] n] kv obtain t' where t': "json_write raw (deeper ind) v = Inr t'" "ts ! n = json_string k @ key_separator ind @ t'"
      by (auto simp: ebind_inv)
    have "reads (scan_once H d') t' (obj_of v)"
      using "6.IH" [OF mem refl t'(1)] "6.prems"(2) d(2) mem by fastforce
    with t'(2) kv n show "reads_member ind (scan_once H d') (ts ! n) (?ms ! n)"
      by (auto simp: reads_member_def)
  qed
  moreover have "distinct (map fst ?ms)" "map (\<lambda>(k, v). (PStr k, v)) ?ms = map (\<lambda>(k, v). (PStr k, obj_of v)) members"
    using "6.prems"(2) by (simp_all add: o_def case_prod_beta')
  then have "hook_pairs H ?ms = Inr (PMap (map (\<lambda>(k, v). (PStr k, obj_of v)) members))"
    using assms by (metis builds_dicts_def)
  ultimately have "scan_object H (scan_once H d') (skip_ws (items_text ind ts @ 125 # rest)) =
      Inr (PMap (map (\<lambda>(k, v). (PStr k, obj_of v)) members), rest)" for rest
    by (rule scan_object_items)
  then show ?case by (simp add: reads_def ts(2) d(1) scan_step_def value_text_def)
qed simp_all

text \<open>
  What the writer writes, indented or compact, is read back as exactly the value that was
  written, nested as deeply as the scanner may recurse.
\<close>

lemma json_decode_write:
  assumes "builds_dicts H" "json_write raw ind j = Inr t" "plain_json j" "json_depth j \<le> d"
  shows "json_decode H d t = Inr (obj_of j)"
proof -
  have r: "reads (scan_once H d) t (obj_of j)" using assms by (rule json_write_reads)
  then have read: "scan_once H d t = Inr (obj_of j, [])" and "skip_ws t = t"
    using skip_value_text [of t "[]"] unfolding reads_def by (metis append_Nil2 closes_simps(1), simp)
  moreover have "\<not> starts_with t [65279]"
  proof
    assume "starts_with t [65279]"
    then obtain t' where t': "t = 65279 # t'" by (cases t) (auto simp: starts_with_def)
    have "find (\<lambda>(word, _). starts_with (65279 # t') (U word)) (json_constants H) = None"
      by (auto simp: find_None_iff json_constants_def starts_with_def U_def)
    then have "scan_once H d t = json_error ''Expecting value''"
      by (simp add: t' scan_once_step [of H d] scan_step_def scan_number_def integer_part_def is_digit_def)
    with read show False by simp
  qed
  ultimately show ?thesis using read by (simp add: json_decode_def)
qed

section \<open>Scanning makes progress\<close>

text \<open>
  Every scanned value takes at least one character, so the length tests of \<open>scan_elements\<close> and
  \<open>scan_members\<close>, which make them terminate, never fail.
\<close>

definition consumes :: "(pystr \<Rightarrow> exn + ('a \<times> pystr)) \<Rightarrow> bool" where
  "consumes sc \<longleftrightarrow> (\<forall>s v r. sc s = Inr (v, r) \<longrightarrow> length r < length s)"

lemma consumesD: "consumes sc \<Longrightarrow> sc s = Inr (v, r) \<Longrightarrow> length r < length s"
  by (simp add: consumes_def)

lemma prefixed_Inr: "prefixed c m = Inr (t, r) \<longleftrightarrow> (\<exists>t'. m = Inr (t', r) \<and> t = c # t')"
  by (auto simp: prefixed_def ebind_inv)

lemma skip_ws_length: "length (skip_ws s) \<le> length s"
  by (simp add: skip_ws_def length_dropWhile_le)

lemma skip_ws_Cons_length: "skip_ws s = c # r \<Longrightarrow> length r < length s"
  using skip_ws_length [of s] by simp

definition leaves_less :: "nat \<Rightarrow> exn + ('a \<times> pystr) \<Rightarrow> bool" where
  "leaves_less n m \<longleftrightarrow> (\<forall>t r. m = Inr (t, r) \<longrightarrow> length r < n)"

lemma leaves_less_simps [simp]:
  "leaves_less n (Inl e)" "leaves_less n (Inr (t, r)) \<longleftrightarrow> length r < n"
  "leaves_less n (prefixed c m) \<longleftrightarrow> leaves_less n m"
  by (auto simp: leaves_less_def prefixed_Inr)

lemma leaves_less_cases:
  "(x = [] \<Longrightarrow> leaves_less n m) \<Longrightarrow> (\<And>a b. x = a # b \<Longrightarrow> leaves_less n (f a b)) \<Longrightarrow>
    leaves_less n (case x of [] \<Rightarrow> m | a # b \<Rightarrow> f a b)"
  "(z = None \<Longrightarrow> leaves_less n m) \<Longrightarrow> (\<And>a. z = Some a \<Longrightarrow> leaves_less n (g a)) \<Longrightarrow>
    leaves_less n (case z of None \<Rightarrow> m | Some a \<Rightarrow> g a)"
  "(p \<Longrightarrow> leaves_less n m) \<Longrightarrow> (\<not> p \<Longrightarrow> leaves_less n m') \<Longrightarrow> leaves_less n (if p then m else m')"
  by (auto split: list.split option.split)

lemma case_Cons_Inr:
  "(case x of [] \<Rightarrow> Inl e | a # b \<Rightarrow> f a b) = Inr y \<longleftrightarrow> (\<exists>a b. x = a # b \<and> f a b = Inr y)"
  by (cases x) auto

lemma scan_string_consumes: "scan_string s = Inr (t, r) \<Longrightarrow> length r < length s"
proof -
  have "leaves_less (length s) (scan_string s)"
  proof (induction s rule: length_induct)
    case (1 s)
    have IH: "leaves_less n (scan_string u)" if "length u < length s" "length u \<le> n" for u n
      using 1 that by (force simp: leaves_less_def)
    show ?case
    proof (cases s)
      case (Cons c cs)
      show ?thesis
        by (subst Cons, subst scan_string.simps(2), intro leaves_less_cases)
          (simp_all add: IH Cons del: scan_string.simps)
    qed simp
  qed
  then show "scan_string s = Inr (t, r) \<Longrightarrow> length r < length s" by (simp add: leaves_less_def)
qed

lemma expect_length: "expect c reason s = Inr r \<Longrightarrow> length r < length s"
  by (auto simp: expect_def split: list.splits if_splits)

lemma integer_part_consumes: "integer_part s = Some (ds, r) \<Longrightarrow> length r < length s"
  using length_dropWhile_le [of is_digit "tl s"]
  by (auto simp: integer_part_def split: list.splits if_splits)

lemma fraction_part_length: "fraction_part s = (f, r) \<Longrightarrow> length r \<le> length s"
  using length_dropWhile_le [of is_digit "tl s"]
  by (fastforce simp: fraction_part_def split: list.splits if_splits)

lemma exponent_part_length: "exponent_part s = (f, r) \<Longrightarrow> length r \<le> length s"
proof -
  assume e: "exponent_part s = (f, r)"
  have "length (dropWhile is_digit (drop n (tl s))) \<le> length s" for n
    using length_dropWhile_le [of is_digit "drop n (tl s)"] by (simp add: le_trans)
  with e show ?thesis
    by (auto simp: exponent_part_def Let_def drop_Suc split: list.splits if_splits)
qed

lemma scan_number_consumes: "consumes (scan_number H)"
  unfolding consumes_def
proof (intro allI impI)
  fix s v r assume n: "scan_number H s = Inr (v, r)"
  define u where "u = drop (length (takeWhile (\<lambda>c. c = 45) (take 1 s))) s"
  from n obtain ds r1 where "integer_part u = Some (ds, r1)"
    and rest: "(let (frac, r) = fraction_part r1; (expo, r) = exponent_part r in r) = r"
    by (auto simp: scan_number_def Let_def u_def split: option.splits prod.splits if_splits)
  then have "length r1 < length u" by (simp add: integer_part_consumes)
  moreover obtain f r2 e r3 where "fraction_part r1 = (f, r2)" "exponent_part r2 = (e, r3)" by (metis surj_pair)
  ultimately show "length r < length s"
    using rest fraction_part_length [of r1 f r2] exponent_part_length [of r2 e r3] by (simp add: u_def)
qed

lemma no_stall:
  assumes "consumes sc" and "sc s = Inr (v, r)" and "skip_ws r = c # r'"
  shows "length (skip_ws r') < length s"
  using consumesD [OF assms(1,2)] skip_ws_Cons_length [OF assms(3)] skip_ws_length [of r'] by linarith

text \<open>So the loops satisfy the equations of the source.\<close>

lemma scan_elements_eq:
  "consumes sc \<Longrightarrow> scan_elements sc s =
     ebind (sc s) (\<lambda>(v, r).
     case skip_ws r of
       [] \<Rightarrow> json_error ''Expecting , delimiter''
     | c # r' \<Rightarrow>
         if c = 93 then Inr ([v], r')
         else if c = 44 then ebind (scan_elements sc (skip_ws r')) (\<lambda>(vs, r''). Inr (v # vs, r''))
         else json_error ''Expecting , delimiter'')"
  by (subst scan_elements.simps) (cases "sc s"; auto split: list.splits dest: no_stall)

lemma scan_members_eq:
  assumes "consumes sc"
  shows "scan_members sc s =
     ebind (expect 34 ''Expecting property name'' s) (\<lambda>s1.
     ebind (scan_string s1) (\<lambda>(k, s2).
     ebind (expect 58 ''Expecting : delimiter'' (skip_ws s2)) (\<lambda>s3.
     ebind (sc (skip_ws s3)) (\<lambda>(v, r).
     case skip_ws r of
       [] \<Rightarrow> json_error ''Expecting , delimiter''
     | c # r' \<Rightarrow>
         if c = 125 then Inr ([(k, v)], r')
         else if c = 44 then ebind (scan_members sc (skip_ws r')) (\<lambda>(ms, r''). Inr ((k, v) # ms, r''))
         else json_error ''Expecting , delimiter''))))"
proof -
  have "length (skip_ws r') < length s"
    if "expect 34 m s = Inr s1" "scan_string s1 = Inr (k, s2)" "expect 58 m' (skip_ws s2) = Inr s3"
      "sc (skip_ws s3) = Inr (v, r)" "skip_ws r = c # r'" for m m' s1 k s2 s3 v r c r'
    using no_stall [OF assms that(4,5)] expect_length [OF that(1)] scan_string_consumes [OF that(2)]
      expect_length [OF that(3)] skip_ws_length [of s2] skip_ws_length [of s3] by linarith
  then show ?thesis
    by (subst scan_members.simps) (auto intro!: ebind_cong split: list.split)
qed

lemma scan_elements_consumes: "consumes sc \<Longrightarrow> consumes (scan_elements sc)"
  unfolding consumes_def [of "scan_elements sc"]
proof (intro allI impI)
  fix s vs r assume sc: "consumes sc" and "scan_elements sc s = Inr (vs, r)"
  then show "length r < length s"
  proof (induction sc s arbitrary: vs r rule: scan_elements.induct)
    case (1 sc s)
    from "1.prems"(2) obtain v r1 c r' where v: "sc s = Inr (v, r1)" "skip_ws r1 = c # r'"
      and cs: "c = 93 \<and> r = r' \<or> (\<exists>vs'. c = 44 \<and> scan_elements sc (skip_ws r') = Inr (vs', r))"
      unfolding scan_elements_eq [OF "1.prems"(1), of s] by (auto simp: ebind_inv case_Cons_Inr split: if_splits)
    have "length r' < length s"
      using consumesD [OF "1.prems"(1) v(1)] skip_ws_Cons_length [OF v(2)] by linarith
    moreover have "length (skip_ws r') < length s" using no_stall [OF "1.prems"(1) v] .
    ultimately show ?case
      using cs "1.IH" [OF v(1) refl v(2) _ _ _ "1.prems"(1)] by fastforce
  qed
qed

lemma scan_members_consumes: "consumes sc \<Longrightarrow> consumes (scan_members sc)"
  unfolding consumes_def [of "scan_members sc"]
proof (intro allI impI)
  fix s ms r assume sc: "consumes sc" and "scan_members sc s = Inr (ms, r)"
  then show "length r < length s"
  proof (induction sc s arbitrary: ms r rule: scan_members.induct)
    case (1 sc s)
    from "1.prems"(2) obtain s1 k s2 s3 v r1 c r' where
      w: "expect 34 ''Expecting property name'' s = Inr s1" "scan_string s1 = Inr (k, s2)"
        "expect 58 ''Expecting : delimiter'' (skip_ws s2) = Inr s3"
      and v: "sc (skip_ws s3) = Inr (v, r1)" "skip_ws r1 = c # r'"
      and cs: "c = 125 \<and> r = r' \<or> (\<exists>ms'. c = 44 \<and> scan_members sc (skip_ws r') = Inr (ms', r))"
      unfolding scan_members_eq [OF "1.prems"(1), of s] by (auto simp: ebind_inv case_Cons_Inr split: if_splits)
    have "length s3 < length s"
      using expect_length [OF w(1)] scan_string_consumes [OF w(2)] expect_length [OF w(3)] skip_ws_length [of s2] by linarith
    then have "length r' < length s" "length (skip_ws r') < length s"
      using consumesD [OF "1.prems"(1) v(1)] skip_ws_Cons_length [OF v(2)] no_stall [OF "1.prems"(1) v] skip_ws_length [of s3]
      by linarith+
    then show ?case
      using cs "1.IH" [OF w(1,2) refl w(3) v(1) refl v(2) _ _ _ "1.prems"(1)] by fastforce
  qed
qed

lemma scan_step_consumes:
  assumes "\<And>sc. nested = Some sc \<Longrightarrow> consumes sc"
  shows "consumes (scan_step H nested)"
  unfolding consumes_def
proof (intro allI impI)
  fix s v r assume step: "scan_step H nested s = Inr (v, r)"
  then obtain c u where s: "s = c # u" by (cases s) (auto simp: scan_step_def)
  have inner: "length r < length s" if "nested = Some sc" "scan_object H sc (skip_ws u) = Inr (v, r) \<or> scan_array sc (skip_ws u) = Inr (v, r)" for sc
  proof -
    from that(2) have "length r < length (skip_ws u)"
      by (auto simp: scan_object_def scan_array_def ebind_inv neq_Nil_conv split: if_splits
          dest: consumesD [OF scan_members_consumes [OF assms [OF that(1)]]] consumesD [OF scan_elements_consumes [OF assms [OF that(1)]]])
    with skip_ws_length [of u] show ?thesis by (simp add: s)
  qed
  have word: "length (drop (length w) s) < length s" if "find (\<lambda>(word, _). starts_with s (U word)) (json_constants H) = Some (w, x)" for w x
  proof -
    from that have "(w, x) \<in> set (json_constants H)" by (metis find_Some_iff nth_mem)
    then have "w \<noteq> []" by (auto simp: json_constants_def)
    then show ?thesis by (simp add: s)
  qed
  from step show "length r < length s"
    using inner word consumesD [OF scan_number_consumes [of H], of s v r] scan_string_consumes [of u]
    by (auto simp: scan_step_def s ebind_inv split: if_splits option.splits prod.splits simp del: drop_Suc_Cons)
qed

lemma scan_once_consumes: "consumes (scan_once H depth)"
  by (induction depth) (auto intro: scan_step_consumes)

end
