(* ===== verification/Cli_Output.thy ===== *)
theory Cli_Output
  imports Display Py_Json
begin

text \<open>
  The two renderings of a DeviceResponse: \<open>to_json\<close> on the dataclasses of \<open>mdoc.py\<close> (fields
  marked \<open>json_exclude\<close> left out) and \<open>_write_device_response\<close> of \<open>cli.py\<close>, which prints lines.
  Both may raise, on values no earlier check has looked at.
\<close>

section \<open>JSON\<close>

fun json_object :: "(string \<times> (exn + json)) list \<Rightarrow> exn + (pystr \<times> json) list" where
  "json_object [] = Inr []"
| "json_object ((name, value) # rest) =
     ebind value (\<lambda>j. ebind (json_object rest) (\<lambda>js. Inr ((U name, j) # js)))"

definition json_record :: "(string \<times> (exn + json)) list \<Rightarrow> exn + json" where
  "json_record members = ebind (json_object members) (\<lambda>js. Inr (JObj js))"

definition json_list :: "('a \<Rightarrow> exn + json) \<Rightarrow> 'a list \<Rightarrow> exn + json" where
  "json_list f xs = ebind (emap f xs) (\<lambda>js. Inr (JList js))"

definition json_opt :: "('a \<Rightarrow> exn + json) \<Rightarrow> 'a option \<Rightarrow> exn + json" where
  "json_opt f x = (case x of None \<Rightarrow> Inr JNull | Some v \<Rightarrow> f v)"

definition json_bool :: "bool option \<Rightarrow> exn + json" where
  "json_bool = json_opt (\<lambda>b. Inr (JBool b))"

definition json_int :: "lib \<Rightarrow> int option \<Rightarrow> exn + json" where
  "json_int L = json_opt (\<lambda>i. to_jsonable L (PInt i))"

definition json_certificate :: "lib \<Rightarrow> certificate_info \<Rightarrow> exn + json" where
  "json_certificate L c = json_record
     [(''subject'', Inr (JStr (ci_subject c))), (''issuer'', Inr (JStr (ci_issuer c))),
      (''serial_number'', to_jsonable L (PInt (ci_serial_number c))),
      (''not_before'', to_jsonable L (ci_not_before c)), (''not_after'', to_jsonable L (ci_not_after c))]"

definition json_mso :: "lib \<Rightarrow> mobile_security_object \<Rightarrow> exn + json" where
  "json_mso L m = json_record
     [(''version'', to_jsonable L (mso_version m)),
      (''digest_algorithm'', to_jsonable L (mso_digest_algorithm m)),
      (''doc_type'', to_jsonable L (mso_doc_type m)),
      (''value_digests'', to_jsonable L (PMap (mso_value_digests m))),
      (''device_key'', to_jsonable L (mso_device_key m)),
      (''validity_info'', to_jsonable L (mso_validity_info m))]"

definition json_issuer_auth :: "lib \<Rightarrow> issuer_auth_info \<Rightarrow> exn + json" where
  "json_issuer_auth L ia = json_record
     [(''alg'', json_int L (ia_alg ia)), (''alg_name'', Inr (JStr (ia_alg_name ia))),
      (''certificates'', json_list (json_certificate L) (ia_certificates ia)),
      (''mso'', json_opt (json_mso L) (ia_mso ia)),
      (''signature_valid'', json_bool (ia_signature_valid ia))]"

definition json_element :: "lib \<Rightarrow> parsed_element \<Rightarrow> exn + json" where
  "json_element L e = json_record
     [(''identifier'', Inr (JStr (pe_identifier e))), (''value'', to_jsonable L (pe_value e)),
      (''digest_id'', json_int L (pe_digest_id e)), (''digest_valid'', json_bool (pe_digest_valid e))]"

definition json_namespaces :: "lib \<Rightarrow> namespaces \<Rightarrow> exn + json" where
  "json_namespaces L nss =
     ebind (emap (\<lambda>(ns, es). ebind (json_list (json_element L) es) (\<lambda>j. Inr (ns, j))) nss) (\<lambda>js. Inr (JObj js))"

definition json_document :: "lib \<Rightarrow> parsed_document \<Rightarrow> exn + json" where
  "json_document L d = json_record
     [(''doc_type'', Inr (JStr (pd_doc_type d))),
      (''namespaces'', json_namespaces L (pd_namespaces d)),
      (''issuer_auth'', json_opt (json_issuer_auth L) (pd_issuer_auth d)),
      (''device_namespaces'', to_jsonable L (pd_device_namespaces d)),
      (''device_auth_type'', to_jsonable L (pd_device_auth_type d)),
      (''errors'', to_jsonable L (pd_errors d)),
      (''device_auth_valid'', json_bool (pd_device_auth_valid d))]"

definition json_response :: "lib \<Rightarrow> device_response \<Rightarrow> exn + json" where
  "json_response L r = json_record
     [(''version'', to_jsonable L (resp_version r)), (''status'', json_int L (resp_status r)),
      (''status_name'', Inr (JStr (resp_status_name r))),
      (''documents'', json_list (json_document L) (resp_documents r)),
      (''document_errors'', to_jsonable L (resp_document_errors r))]"

definition to_json :: "lib \<Rightarrow> device_response \<Rightarrow> exn + pystr" where
  "to_json L r = ebind (json_response L r) (json_dumps L)"

section \<open>Text\<close>

type_synonym printed = "exn + pystr"

text \<open>One \<open>print\<close> of an f-string: the pieces are rendered left to right, then a newline.\<close>

fun pieces :: "printed list \<Rightarrow> printed" where
  "pieces [] = Inr []"
| "pieces (x # xs) = ebind x (\<lambda>s. ebind (pieces xs) (\<lambda>t. Inr (s @ t)))"

definition line :: "printed list \<Rightarrow> printed" where
  "line ps = ebind (pieces ps) (\<lambda>s. Inr (s @ [10]))"

definition lit :: "string \<Rightarrow> printed" where
  "lit s = Inr (U s)"

definition for_each :: "('a \<Rightarrow> printed) \<Rightarrow> 'a list \<Rightarrow> printed" where
  "for_each f xs = pieces (map f xs)"

text \<open>Iterating \<open>x.items()\<close>, and iterating an object that should be a list of mappings.\<close>

definition items_of :: "pyobj \<Rightarrow> (pyobj \<times> pyobj \<Rightarrow> printed) \<Rightarrow> printed" where
  "items_of x f = (case x of PMap m \<Rightarrow> for_each f m | _ \<Rightarrow> Inl (AttributeError ''items''))"

definition verdict :: "bool option \<Rightarrow> string \<Rightarrow> string \<Rightarrow> printed" where
  "verdict value true_word false_word =
     (case value of
        None \<Rightarrow> lit ''NOT VERIFIED (unsupported algorithm or missing key/cert)''
      | Some b \<Rightarrow> lit (if b then true_word else false_word))"

text \<open>
  \<open>ERROR_CODE_NAMES.get(code, "application-specific" if code < 0 else "RFU")\<close>; the comparison
  is evaluated first and raises on anything that is no number.
\<close>

definition error_code_name :: "pyobj \<Rightarrow> printed" where
  "error_code_name code =
     (case num_of code of
        None \<Rightarrow> Inl (TypeError ''not supported between instances'')
      | Some i \<Rightarrow> lit (if i = 0 then ''Data not returned'' else if i < 0 then ''application-specific'' else ''RFU''))"

definition opt_int :: "int option \<Rightarrow> pyobj" where
  "opt_int x = (case x of None \<Rightarrow> PNone | Some i \<Rightarrow> PInt i)"

definition write_element :: "lib \<Rightarrow> parsed_element \<Rightarrow> printed" where
  "write_element L e =
     line [lit ''    '', safe_text L (PStr (pe_identifier e)), lit '' = '', format_value L (pe_value e),
       if pe_digest_id e \<noteq> None
       then pieces [lit '' [digest '', verdict (pe_digest_valid e) ''OK'' ''MISMATCH'', lit '']''] else lit '''']"

definition write_certificate :: "lib \<Rightarrow> certificate_info \<Rightarrow> printed" where
  "write_certificate L c = pieces
     [line [lit ''    certificate: subject='', safe_text L (PStr (ci_subject c))],
      line [lit ''                 issuer='', safe_text L (PStr (ci_issuer c)), lit '' serial='',
        Inr (if ci_serial_number c < 0 then 45 # hex_nat (nat (- ci_serial_number c)) else hex_nat (nat (ci_serial_number c)))],
      line [lit ''                 validity='', atom_str L (ci_not_before c), lit '' .. '', atom_str L (ci_not_after c),
        lit '' [chain/trust NOT evaluated]'']]"

text \<open>The three dates are rendered with \<open>str\<close>, whatever objects they are.\<close>

definition write_mso :: "lib \<Rightarrow> mobile_security_object \<Rightarrow> printed" where
  "write_mso L mso = pieces
     [line [lit ''  MSO: version='', safe_text L (mso_version mso), lit '' digestAlgorithm='',
        safe_text L (mso_digest_algorithm mso), lit '' docType='', safe_text L (mso_doc_type mso)],
      ebind (obj_get (mso_validity_info mso) (S ''signed'') PNone) (\<lambda>signed_at.
      ebind (obj_get (mso_validity_info mso) (S ''validFrom'') PNone) (\<lambda>valid_from.
      ebind (obj_get (mso_validity_info mso) (S ''validUntil'') PNone) (\<lambda>valid_until.
      line [lit ''       signed='', atom_str L signed_at, lit '' validFrom='', atom_str L valid_from,
        lit '' validUntil='', atom_str L valid_until])))]"

definition write_issuer_auth :: "lib \<Rightarrow> issuer_auth_info \<Rightarrow> printed" where
  "write_issuer_auth L ia = pieces
     [line [lit ''  issuerAuth: alg='', Inr (ia_alg_name ia), lit '' signature='',
        verdict (ia_signature_valid ia) ''VALID'' ''INVALID''],
      for_each (write_certificate L) (ia_certificates ia),
      case ia_mso ia of None \<Rightarrow> lit '''' | Some mso \<Rightarrow> write_mso L mso]"

definition write_namespace :: "lib \<Rightarrow> pystr \<times> parsed_element list \<Rightarrow> printed" where
  "write_namespace L p =
     (let (ns, elements) = p in
      pieces [line [lit ''  namespace '', safe_text L (PStr ns), lit '':''], for_each (write_element L) elements])"

definition write_device_namespaces :: "lib \<Rightarrow> pyobj \<Rightarrow> printed" where
  "write_device_namespaces L device_namespaces =
     (if truthy device_namespaces then
        pieces [line [lit ''  deviceSigned nameSpaces:''],
          items_of device_namespaces (\<lambda>(ns, items). pieces
            [line [lit ''    '', safe_text L ns, lit '':''],
             items_of items (\<lambda>(identifier, value).
               line [lit ''      '', safe_text L identifier, lit '' = '', format_value L value])])]
      else lit '''')"

definition write_errors :: "lib \<Rightarrow> pyobj \<Rightarrow> printed" where
  "write_errors L errors =
     items_of errors (\<lambda>(ns, error_items). items_of error_items (\<lambda>(identifier, code).
       ebind (error_code_name code) (\<lambda>name.
       line [lit ''  error: '', safe_text L ns, lit ''.'', safe_text L identifier, lit '' -> '', atom_str L code,
         lit '' ('', Inr name, lit '')''])))"

definition write_document :: "lib \<Rightarrow> parsed_document \<Rightarrow> printed" where
  "write_document L doc = pieces
     [line [Inr [10], lit ''docType: '', safe_text L (PStr (pd_doc_type doc))],
      for_each (write_namespace L) (pd_namespaces doc),
      write_device_namespaces L (pd_device_namespaces doc),
      write_errors L (pd_errors doc),
      case pd_issuer_auth doc of None \<Rightarrow> lit '''' | Some ia \<Rightarrow> write_issuer_auth L ia,
      if truthy (pd_device_auth_type doc)
      then line [lit ''  deviceAuth: '', safe_text L (pd_device_auth_type doc), lit '' '',
        verdict (pd_device_auth_valid doc) ''VALID'' ''INVALID'']
      else lit '''']"

definition write_document_errors :: "lib \<Rightarrow> pyobj \<Rightarrow> printed" where
  "write_document_errors L document_errors =
     ebind (py_list document_errors) (for_each (\<lambda>err. items_of err (\<lambda>(doc_type, code).
       ebind (error_code_name code) (\<lambda>name.
       line [lit ''document error: '', safe_text L doc_type, lit '' -> '', atom_str L code, lit '' ('', Inr name, lit '')'']))))"

definition write_device_response :: "lib \<Rightarrow> device_response \<Rightarrow> printed" where
  "write_device_response L response = pieces
     [line [Inr [10], lit ''--- DeviceResponse ---''],
      line [lit ''version: '', safe_text L (resp_version response)],
      line [lit ''status: '', safe_text L (opt_int (resp_status response)), lit '' ('',
        safe_text L (PStr (resp_status_name response)), lit '')''],
      write_document_errors L (resp_document_errors response),
      for_each (write_document L) (resp_documents response)]"

end
