(* ===== verification/Mdoc_Validate.thy ===== *)
theory Mdoc_Validate
  imports Mdoc_Document
begin

text \<open>
  \<open>validate_device_response\<close>: the policy that decides whether anything may be disclosed.  It
  returns the list of failures, and an empty list permits disclosure.  The failures are a
  datatype; \<open>error_text\<close> renders each one as the string the source appends.

  \<open>disclosable\<close> is the policy itself, stated without the traversal that checks it.
\<close>

section \<open>Failures\<close>

datatype document_failure =
    DocTypeNotRequested
  | IssuerAuthMissing
  | IssuerSignatureNotValid
  | MsoMissing
  | MsoVersion
  | DocTypeMismatch
  | ValidityInfo
  | SignedInFuture
  | NotYetValid
  | Expired
  | ElementDigestNotValid pystr pystr
  | DeviceAuthNotValid
  | DeviceNamespacesUnsupported
  | InvalidErrors
  | RequestedNamespaceMissing pystr
  | RequestedElementMissing pystr pystr

datatype failure =
    UnsupportedVersion
  | ResponseStatusNotOk
  | DocumentCount
  | InvalidDocumentErrors
  | RequestedDocTypeMissing pystr
  | InDocument nat pystr document_failure

fun document_failure_text :: "document_failure \<Rightarrow> pystr" where
  "document_failure_text DocTypeNotRequested = U ''doc_type_not_requested''"
| "document_failure_text IssuerAuthMissing = U ''issuer_auth_missing''"
| "document_failure_text IssuerSignatureNotValid = U ''issuer_signature_not_valid''"
| "document_failure_text MsoMissing = U ''mso_missing''"
| "document_failure_text MsoVersion = U ''mso_version''"
| "document_failure_text DocTypeMismatch = U ''doc_type_mismatch''"
| "document_failure_text ValidityInfo = U ''validity_info''"
| "document_failure_text SignedInFuture = U ''signed_in_future''"
| "document_failure_text NotYetValid = U ''not_yet_valid''"
| "document_failure_text Expired = U ''expired''"
| "document_failure_text (ElementDigestNotValid ns i) = U ''element_digest_not_valid: '' @ ns @ U ''.'' @ i"
| "document_failure_text DeviceAuthNotValid = U ''device_auth_not_valid''"
| "document_failure_text DeviceNamespacesUnsupported = U ''device_namespaces_unsupported''"
| "document_failure_text InvalidErrors = U ''invalid_errors''"
| "document_failure_text (RequestedNamespaceMissing ns) = U ''requested_namespace_missing: '' @ ns"
| "document_failure_text (RequestedElementMissing ns i) = U ''requested_element_missing: '' @ ns @ U ''.'' @ i"

fun error_text :: "failure \<Rightarrow> pystr" where
  "error_text UnsupportedVersion = U ''unsupported_version''"
| "error_text ResponseStatusNotOk = U ''response_status_not_ok''"
| "error_text DocumentCount = U ''document_count''"
| "error_text InvalidDocumentErrors = U ''invalid_document_errors''"
| "error_text (RequestedDocTypeMissing t) = U ''requested_doc_type_missing: '' @ t"
| "error_text (InDocument i t f) =
     U ''document '' @ dec_nat i @ U '' ('' @ t @ U ''): '' @ document_failure_text f"

section \<open>Checks on decoded values\<close>

text \<open>
  \<open>_aware_datetime\<close>; comparing two aware datetimes compares their instants, which is what the
  model keeps of one.
\<close>

fun aware_datetime :: "pyobj \<Rightarrow> int option" where
  "aware_datetime (PDateTime (TzOffset offset) wall) = Some (wall - offset)"
| "aware_datetime _ = None"

fun valid_error_code :: "pyobj \<Rightarrow> bool" where
  "valid_error_code (PInt code) \<longleftrightarrow> - (2 ^ 64) \<le> code \<and> code < 2 ^ 64"
| "valid_error_code _ \<longleftrightarrow> False"

fun valid_error_items :: "pyobj \<Rightarrow> bool" where
  "valid_error_items (PMap items) = (\<forall>(k, code)\<in>set items. is_str k \<and> valid_error_code code)"
| "valid_error_items _ = False"

fun valid_document_errors :: "pyobj \<Rightarrow> bool" where
  "valid_document_errors (PList items) = (\<forall>item\<in>set items. valid_error_items item)"
| "valid_document_errors _ = False"

fun valid_element_errors :: "pyobj \<Rightarrow> bool" where
  "valid_element_errors (PMap m) = (\<forall>(ns, items)\<in>set m. is_str ns \<and> valid_error_items items)"
| "valid_element_errors _ = False"

section \<open>validate_device_response\<close>

definition matching_requests :: "doc_request list \<Rightarrow> parsed_document \<Rightarrow> doc_request list" where
  "matching_requests doc_requests doc = filter (\<lambda>r. dr_doc_type r = pd_doc_type doc) doc_requests"

definition issuer_failures :: "parsed_document \<Rightarrow> document_failure list" where
  "issuer_failures doc =
     (case pd_issuer_auth doc of
        None \<Rightarrow> [IssuerAuthMissing]
      | Some ia \<Rightarrow> if ia_signature_valid ia \<noteq> Some True then [IssuerSignatureNotValid] else [])"

definition validity_failures :: "int \<Rightarrow> pyobj \<Rightarrow> document_failure list" where
  "validity_failures current_time validity_info =
     (case validity_info of
        PMap v \<Rightarrow>
          (case (aware_datetime (get v (S ''signed'')), aware_datetime (get v (S ''validFrom'')),
                 aware_datetime (get v (S ''validUntil''))) of
             (Some signed_at, Some valid_from, Some valid_until) \<Rightarrow>
               (if current_time < signed_at then [SignedInFuture] else []) @
               (if current_time < valid_from then [NotYetValid] else []) @
               (if current_time \<ge> valid_until then [Expired] else [])
           | _ \<Rightarrow> [ValidityInfo])
      | _ \<Rightarrow> [ValidityInfo])"

definition mso_failures :: "int \<Rightarrow> parsed_document \<Rightarrow> document_failure list" where
  "mso_failures current_time doc =
     (case document_mso (pd_issuer_auth doc) of
        None \<Rightarrow> [MsoMissing]
      | Some mso \<Rightarrow>
          (if \<not> py_eq (S ''1.0'') (mso_version mso) then [MsoVersion] else []) @
          (if \<not> py_eq (PStr (pd_doc_type doc)) (mso_doc_type mso) then [DocTypeMismatch] else []) @
          validity_failures current_time (mso_validity_info mso))"

definition digest_failures :: "parsed_document \<Rightarrow> document_failure list" where
  "digest_failures doc =
     concat (map (\<lambda>(ns, elements).
       map (\<lambda>e. ElementDigestNotValid ns (pe_identifier e))
         (filter (\<lambda>e. pe_digest_valid e \<noteq> Some True) elements)) (pd_namespaces doc))"

definition device_failures :: "parsed_document \<Rightarrow> document_failure list" where
  "device_failures doc =
     (if pd_device_auth_valid doc \<noteq> Some True then [DeviceAuthNotValid] else []) @
     (if \<not> is_mapping (pd_device_namespaces doc) \<or> truthy (pd_device_namespaces doc)
      then [DeviceNamespacesUnsupported] else []) @
     (if \<not> valid_element_errors (pd_errors doc) then [InvalidErrors] else [])"

definition namespace_failures :: "parsed_document \<Rightarrow> pystr \<times> pystr list \<Rightarrow> document_failure list" where
  "namespace_failures doc requested =
     (let (ns, requested_elements) = requested in
      case map_of (pd_namespaces doc) ns of
        None \<Rightarrow> [RequestedNamespaceMissing ns]
      | Some disclosed_elements \<Rightarrow>
          (let disclosed = pe_identifier ` set disclosed_elements
           in map (RequestedElementMissing ns) (filter (\<lambda>i. i \<notin> disclosed) requested_elements)))"

definition request_failures :: "doc_request list \<Rightarrow> parsed_document \<Rightarrow> document_failure list" where
  "request_failures doc_requests doc =
     concat (map (\<lambda>r. concat (map (namespace_failures doc) (dr_namespaces r)))
       (matching_requests doc_requests doc))"

definition document_failures :: "doc_request list \<Rightarrow> int \<Rightarrow> parsed_document \<Rightarrow> document_failure list" where
  "document_failures doc_requests current_time doc =
     (if matching_requests doc_requests doc = [] then [DocTypeNotRequested] else []) @
     issuer_failures doc @ mso_failures current_time doc @ digest_failures doc @
     device_failures doc @ request_failures doc_requests doc"

fun enumerate_failures ::
  "doc_request list \<Rightarrow> int \<Rightarrow> nat \<Rightarrow> parsed_document list \<Rightarrow> failure list" where
  "enumerate_failures doc_requests current_time index [] = []"
| "enumerate_failures doc_requests current_time index (doc # docs) =
     map (InDocument index (pd_doc_type doc)) (document_failures doc_requests current_time doc) @
     enumerate_failures doc_requests current_time (Suc index) docs"

definition response_failures :: "device_response \<Rightarrow> doc_request list \<Rightarrow> failure list" where
  "response_failures response doc_requests =
     (if \<not> py_eq (S ''1.0'') (resp_version response) then [UnsupportedVersion] else []) @
     (if resp_status response \<noteq> Some 0 then [ResponseStatusNotOk] else []) @
     (if resp_documents response = [] then [DocumentCount] else []) @
     (if \<not> valid_document_errors (resp_document_errors response) then [InvalidDocumentErrors] else []) @
     map (\<lambda>r. RequestedDocTypeMissing (dr_doc_type r))
       (filter (\<lambda>r. \<not> (\<exists>doc\<in>set (resp_documents response). pd_doc_type doc = dr_doc_type r)) doc_requests)"

text \<open>
  \<open>now or datetime.now(timezone.utc)\<close>: \<open>now\<close> is the optional argument, \<open>clock\<close> the system
  clock.  A naive \<open>now\<close> raises.
\<close>

definition validate_device_response ::
  "device_response \<Rightarrow> doc_request list \<Rightarrow> pyobj \<Rightarrow> int \<Rightarrow> exn + failure list" where
  "validate_device_response response doc_requests now clock =
     (let errors = response_failures response doc_requests;
          current = or_else now (PDateTime (TzOffset 0) clock)
      in case aware_datetime current of
           None \<Rightarrow> Inl (ValueError ''now must be timezone-aware'')
         | Some current_time \<Rightarrow>
             Inr (errors @ enumerate_failures doc_requests current_time 0 (resp_documents response)))"

section \<open>The policy\<close>

definition valid_at :: "int \<Rightarrow> mobile_security_object \<Rightarrow> bool" where
  "valid_at t mso \<longleftrightarrow>
     (\<exists>v signed_at valid_from valid_until. mso_validity_info mso = PMap v \<and>
        aware_datetime (get v (S ''signed'')) = Some signed_at \<and>
        aware_datetime (get v (S ''validFrom'')) = Some valid_from \<and>
        aware_datetime (get v (S ''validUntil'')) = Some valid_until \<and>
        signed_at \<le> t \<and> valid_from \<le> t \<and> t < valid_until)"

definition answers :: "parsed_document \<Rightarrow> doc_request \<Rightarrow> bool" where
  "answers doc r \<longleftrightarrow>
     (\<forall>(ns, claims)\<in>set (dr_namespaces r). \<exists>elements. map_of (pd_namespaces doc) ns = Some elements \<and>
        set claims \<subseteq> pe_identifier ` set elements)"

definition document_disclosable :: "doc_request list \<Rightarrow> int \<Rightarrow> parsed_document \<Rightarrow> bool" where
  "document_disclosable doc_requests t doc \<longleftrightarrow>
     (\<exists>r\<in>set doc_requests. dr_doc_type r = pd_doc_type doc) \<and>
     (\<exists>ia mso. pd_issuer_auth doc = Some ia \<and> ia_signature_valid ia = Some True \<and> ia_mso ia = Some mso \<and>
        mso_version mso = S ''1.0'' \<and> mso_doc_type mso = PStr (pd_doc_type doc) \<and> valid_at t mso) \<and>
     (\<forall>(ns, elements)\<in>set (pd_namespaces doc). \<forall>e\<in>set elements. pe_digest_valid e = Some True) \<and>
     pd_device_auth_valid doc = Some True \<and>
     pd_device_namespaces doc = PMap [] \<and>
     valid_element_errors (pd_errors doc) \<and>
     (\<forall>r\<in>set doc_requests. dr_doc_type r = pd_doc_type doc \<longrightarrow> answers doc r)"

definition disclosable :: "device_response \<Rightarrow> doc_request list \<Rightarrow> int \<Rightarrow> bool" where
  "disclosable response doc_requests t \<longleftrightarrow>
     resp_version response = S ''1.0'' \<and> resp_status response = Some 0 \<and>
     resp_documents response \<noteq> [] \<and> valid_document_errors (resp_document_errors response) \<and>
     (\<forall>r\<in>set doc_requests. \<exists>doc\<in>set (resp_documents response). pd_doc_type doc = dr_doc_type r) \<and>
     (\<forall>doc\<in>set (resp_documents response). document_disclosable doc_requests t doc)"

section \<open>Each group of checks against its clause of the policy\<close>

named_theorems no_failures \<open>when a group of checks reports nothing\<close>

lemma no_issuer_failures [no_failures]:
  "issuer_failures doc = [] \<longleftrightarrow> (\<exists>ia. pd_issuer_auth doc = Some ia \<and> ia_signature_valid ia = Some True)"
  by (auto simp: issuer_failures_def split: option.splits)

lemma no_validity_failures [no_failures]:
  "validity_failures t (mso_validity_info mso) = [] \<longleftrightarrow> valid_at t mso"
  by (cases "mso_validity_info mso") (auto simp: validity_failures_def valid_at_def split: option.splits)

lemma no_mso_failures [no_failures]:
  "mso_failures t doc = [] \<longleftrightarrow>
     (\<exists>mso. document_mso (pd_issuer_auth doc) = Some mso \<and> mso_version mso = S ''1.0'' \<and>
        mso_doc_type mso = PStr (pd_doc_type doc) \<and> valid_at t mso)"
  by (auto simp: mso_failures_def no_validity_failures py_eq_PStr split: option.splits)

lemma no_digest_failures [no_failures]:
  "digest_failures doc = [] \<longleftrightarrow>
     (\<forall>(ns, elements)\<in>set (pd_namespaces doc). \<forall>e\<in>set elements. pe_digest_valid e = Some True)"
  by (force simp: digest_failures_def filter_empty_conv)

lemma no_device_failures [no_failures]:
  "device_failures doc = [] \<longleftrightarrow>
     pd_device_auth_valid doc = Some True \<and> pd_device_namespaces doc = PMap [] \<and> valid_element_errors (pd_errors doc)"
  by (cases "pd_device_namespaces doc") (auto simp: device_failures_def)

lemma no_namespace_failures [no_failures]:
  "namespace_failures doc (ns, claims) = [] \<longleftrightarrow>
     (\<exists>elements. map_of (pd_namespaces doc) ns = Some elements \<and> set claims \<subseteq> pe_identifier ` set elements)"
  by (auto simp: namespace_failures_def Let_def filter_empty_conv split: option.splits)

lemma answers_iff: "answers doc r \<longleftrightarrow> (\<forall>p\<in>set (dr_namespaces r). namespace_failures doc p = [])"
  unfolding answers_def
  by (intro ball_cong refl) (simp add: no_namespace_failures split: prod.split)

lemma no_request_failures [no_failures]:
  "request_failures doc_requests doc = [] \<longleftrightarrow>
     (\<forall>r\<in>set doc_requests. dr_doc_type r = pd_doc_type doc \<longrightarrow> answers doc r)"
  by (auto simp: request_failures_def matching_requests_def answers_iff)

lemma no_document_failures: "document_failures doc_requests t doc = [] \<longleftrightarrow> document_disclosable doc_requests t doc"
  by (auto simp: document_failures_def document_disclosable_def no_failures matching_requests_def
      filter_empty_conv document_mso_def)

lemma no_enumerate_failures:
  "enumerate_failures doc_requests t i docs = [] \<longleftrightarrow> (\<forall>doc\<in>set docs. document_disclosable doc_requests t doc)"
  by (induction docs arbitrary: i) (auto simp: no_document_failures)

lemma no_response_failures:
  "response_failures response doc_requests = [] \<longleftrightarrow>
     resp_version response = S ''1.0'' \<and> resp_status response = Some 0 \<and>
     resp_documents response \<noteq> [] \<and> valid_document_errors (resp_document_errors response) \<and>
     (\<forall>r\<in>set doc_requests. \<exists>doc\<in>set (resp_documents response). pd_doc_type doc = dr_doc_type r)"
  by (auto simp: response_failures_def py_eq_PStr filter_empty_conv)

lemma set_enumerate_failures:
  "set (enumerate_failures doc_requests t i docs) =
     (\<Union>j<length docs. InDocument (i + j) (pd_doc_type (docs ! j)) ` set (document_failures doc_requests t (docs ! j)))"
proof (induction docs arbitrary: i)
  case (Cons doc docs)
  have "{..<length (doc # docs)} = insert 0 (Suc ` {..<length docs})"
    by (simp add: lessThan_Suc_eq_insert_0)
  then show ?case by (simp add: Cons.IH)
qed simp

lemma validate_Nil:
  "validate_device_response response doc_requests PNone clock = Inr [] \<longleftrightarrow> disclosable response doc_requests clock"
  by (auto simp: validate_device_response_def Let_def or_else_def disclosable_def no_response_failures no_enumerate_failures)

section \<open>Validation implements the policy\<close>

text \<open>
  C2: \<open>validate_device_response\<close> reports no failure exactly when the response satisfies the
  disclosure policy at the time it is checked: version 1.0 and status OK, at least one
  document, every requested document type present, and every document requested, signed by
  its issuer, within its validity period, of the signed type, with all digests matching,
  device authentication valid, no device-signed data, and every requested element present.
\<close>

theorem validation_implements_policy:
  "validate_device_response response doc_requests now clock = Inr [] \<longleftrightarrow>
     (\<exists>t. aware_datetime (or_else now (PDateTime (TzOffset 0) clock)) = Some t \<and> disclosable response doc_requests t)"
  by (auto simp: validate_device_response_def Let_def disclosable_def no_response_failures no_enumerate_failures
      split: option.splits)

end
