(* ===== verification/Trust_Der.thy ===== *)
theory Trust_Der
  imports Py_Object
begin

text \<open>
  The strict DER walk of \<open>trust.py\<close> (\<open>_der_item_end\<close>, \<open>_validate_der_encoding\<close>), and the DER
  grammar it accepts: single-byte tags, definite minimal lengths, constructed contents that
  are themselves sequences of items.
\<close>

unbundle bit_operations_syntax

section \<open>The walk\<close>

text \<open>
  The header of the item at \<open>offset\<close>: whether the tag is constructed, where the contents
  start and where they end.
\<close>

definition der_header :: "bytes \<Rightarrow> nat \<Rightarrow> nat \<Rightarrow> exn + (bool \<times> nat \<times> nat)" where
  "der_header data offset limit =
     (if offset + 2 > limit then Inl (ValueError ''truncated DER header'') else
      let tag = data ! offset in
      if tag = 0 \<or> tag AND 0x1F = 0x1F then Inl (ValueError ''unsupported DER tag'') else
      let first_length = data ! (offset + 1); start = offset + 2 in
      if first_length AND 0x80 \<noteq> 0 then
        let length_size = unat (first_length AND 0x7F) in
        if length_size = 0 \<or> start + length_size > limit then Inl (ValueError ''invalid DER length'') else
        let length_bytes = take length_size (drop start data) in
        if hd length_bytes = 0 then Inl (ValueError ''non-minimal DER length'') else
        let content_length = nat (from_bytes_be length_bytes) in
        if content_length < 128 then Inl (ValueError ''non-minimal DER long-form length'') else
        if start + length_size + content_length > limit then Inl (ValueError ''truncated DER contents'') else
        Inr (tag AND 0x20 \<noteq> 0, start + length_size, start + length_size + content_length)
      else
        let content_length = unat first_length in
        if start + content_length > limit then Inl (ValueError ''truncated DER contents'') else
        Inr (tag AND 0x20 \<noteq> 0, start, start + content_length))"

text \<open>
  The recursion over nested items, with the interpreter's recursion limit as \<open>depth\<close>.  The
  children loop \<open>while child < content_end\<close> always moves forward (\<open>der_item_end_bounds\<close>
  below); the test \<open>child < next\<close> only makes the recursion well-founded.
\<close>

function der_item_end :: "nat \<Rightarrow> bytes \<Rightarrow> nat \<Rightarrow> nat \<Rightarrow> exn + nat"
  and der_children :: "nat \<Rightarrow> bytes \<Rightarrow> nat \<Rightarrow> nat \<Rightarrow> exn + nat" where
  "der_item_end 0 data offset limit = Inl RecursionError"
| "der_item_end (Suc depth) data offset limit =
     ebind (der_header data offset limit) (\<lambda>(constructed, start, content_end).
     if constructed then
       ebind (der_children depth data start content_end) (\<lambda>child.
       if child \<noteq> content_end then Inl (ValueError ''invalid constructed DER contents'') else Inr content_end)
     else Inr content_end)"
| "der_children depth data child content_end =
     (if child < content_end then
        ebind (der_item_end depth data child content_end) (\<lambda>next.
        if child < next then der_children depth data next content_end else Inl AssertionError)
      else Inr child)"
  by pat_completeness auto
termination
  by (relation "measures [case_sum (\<lambda>(d, _, _, _). d) (\<lambda>(d, _, _, _). d), case_sum (\<lambda>_. 0) (\<lambda>_. 1),
      case_sum (\<lambda>_. 0) (\<lambda>(_, _, child, e). e - child)]") auto

declare der_children.simps [simp del]

definition validate_der_encoding :: "nat \<Rightarrow> bytes \<Rightarrow> exn + unit" where
  "validate_der_encoding depth data =
     (if data = [] then Inl (ValueError ''invalid DER value'') else
      ebind (der_item_end depth data 0 (length data)) (\<lambda>end.
      if end \<noteq> length data then Inl (ValueError ''invalid DER value'') else Inr ()))"

section \<open>The grammar\<close>

definition tag_ok :: "byte \<Rightarrow> bool" where
  "tag_ok tag \<longleftrightarrow> tag \<noteq> 0 \<and> tag AND 0x1F \<noteq> 0x1F"

definition constructed_tag :: "byte \<Rightarrow> bool" where
  "constructed_tag tag \<longleftrightarrow> tag AND 0x20 \<noteq> 0"

text \<open>The definite, minimal encodings of a length.\<close>

definition der_length :: "bytes \<Rightarrow> nat \<Rightarrow> bool" where
  "der_length ls n \<longleftrightarrow>
     (\<exists>b. ls = [b] \<and> b AND 0x80 = 0 \<and> n = unat b) \<or>
     (\<exists>b bs. ls = b # bs \<and> b AND 0x80 \<noteq> 0 \<and> length bs = unat (b AND 0x7F) \<and> bs \<noteq> [] \<and> hd bs \<noteq> 0 \<and>
        n = nat (from_bytes_be bs) \<and> 128 \<le> n)"

inductive der_item :: "bytes \<Rightarrow> bool" where
  primitive: "tag_ok tag \<Longrightarrow> \<not> constructed_tag tag \<Longrightarrow> der_length ls (length content) \<Longrightarrow>
    der_item (tag # ls @ content)"
| constructed: "tag_ok tag \<Longrightarrow> constructed_tag tag \<Longrightarrow> \<forall>c\<in>set cs. der_item c \<Longrightarrow>
    der_length ls (length (concat cs)) \<Longrightarrow> der_item (tag # ls @ concat cs)"

section \<open>The walk accepts exactly the grammar\<close>

definition part :: "bytes \<Rightarrow> nat \<Rightarrow> nat \<Rightarrow> bytes" where
  "part data i j = take (j - i) (drop i data)"

lemma part_split:
  assumes "i \<le> j" "j \<le> k"
  shows "part data i k = part data i j @ part data j k"
proof -
  from assms obtain a b where "j = i + a" "k = i + a + b" by (metis le_add_diff_inverse)
  then show ?thesis by (simp add: part_def take_add add.commute)
qed

lemma part_Cons: "i < j \<Longrightarrow> j \<le> length data \<Longrightarrow> part data i j = data ! i # part data (Suc i) j"
  unfolding part_def by (metis (no_types, lifting) Cons_nth_drop_Suc Suc_diff_Suc less_le_trans take_Suc_Cons)

lemma part_self [simp]: "part data i i = []"
  by (simp add: part_def)

lemma length_part [simp]: "j \<le> length data \<Longrightarrow> length (part data i j) = j - i"
  by (simp add: part_def)

lemma part_whole [simp]: "part data 0 (length data) = data"
  by (simp add: part_def)

text \<open>A header the walk accepts is a tag and a minimal length.\<close>

lemma der_header_sound:
  assumes "der_header data offset limit = Inr (c, start, e)" "limit \<le> length data"
  shows "offset + 2 \<le> start \<and> start \<le> e \<and> e \<le> limit \<and>
    (\<exists>tag ls. part data offset start = tag # ls \<and> tag_ok tag \<and> c = constructed_tag tag \<and> der_length ls (e - start))"
proof -
  let ?tag = "data ! offset" and ?first = "data ! (offset + 1)"
  from assms(1) have lim: "offset + 2 \<le> limit" and tag: "tag_ok ?tag" "c = constructed_tag ?tag"
    by (auto simp: der_header_def Let_def tag_ok_def constructed_tag_def split: if_splits)
  have head: "part data offset (offset + 2) = [?tag, ?first]"
    using lim assms(2) by (simp add: part_Cons)
  show ?thesis
  proof (cases "?first AND 0x80 = 0")
    case True
    with assms(1) have "start = offset + 2" "e = start + unat ?first" "e \<le> limit"
      by (auto simp: der_header_def Let_def split: if_splits)
    with head tag True show ?thesis
      by (auto simp: der_length_def)
  next
    case False
    define k where "k = unat (?first AND 0x7F)"
    define lb where "lb = take k (drop (offset + 2) data)"
    from False assms(1) have k: "0 < k" "offset + 2 + k \<le> limit" "hd lb \<noteq> 0" "128 \<le> nat (from_bytes_be lb)"
      and pos: "start = offset + 2 + k" "e = start + nat (from_bytes_be lb)" "e \<le> limit"
      by (auto simp: der_header_def Let_def k_def lb_def split: if_splits)
    have "part data (offset + 2) start = lb" by (simp add: part_def lb_def pos(1))
    then have "part data offset start = ?tag # ?first # lb"
      using head part_split [of offset "offset + 2" start data] pos(1) by simp
    moreover have "length lb = k" using k(2) assms(2) by (simp add: lb_def)
    then have "der_length (?first # lb) (e - start)"
      using False k pos(2) unfolding der_length_def k_def by fastforce
    ultimately show ?thesis using tag pos k(2) by auto
  qed
qed

lemma der_bounds:
  shows "der_item_end depth data offset limit = Inr e \<Longrightarrow> limit \<le> length data \<Longrightarrow> offset + 2 \<le> e \<and> e \<le> limit"
    and "der_children depth data child content_end = Inr e \<Longrightarrow> content_end \<le> length data \<Longrightarrow> child \<le> content_end \<Longrightarrow> e = content_end"
proof (induction depth data offset limit and depth data child content_end
    arbitrary: e and e rule: der_item_end_der_children.induct)
  case (2 depth data offset limit)
  from "2.prems"(1) obtain c start where "der_header data offset limit = Inr (c, start, e)"
    by (auto simp: ebind_inv split: prod.splits if_splits)
  from der_header_sound [OF this "2.prems"(2)] show ?case by auto
next
  case (3 depth data child content_end)
  show ?case
  proof (cases "child < content_end")
    case True
    with "3.prems"(1) obtain n where n: "der_item_end depth data child content_end = Inr n" "child < n"
      "der_children depth data n content_end = Inr e"
      by (auto simp: der_children.simps [of depth data child] ebind_inv split: if_splits)
    with "3.IH" True "3.prems" show ?thesis by auto
  next
    case False
    with "3.prems" show ?thesis by (auto simp: der_children.simps [of depth data child])
  qed
qed simp

lemmas der_item_end_bounds = der_bounds(1)

lemma der_sound:
  shows "der_item_end depth data offset limit = Inr e \<Longrightarrow> limit \<le> length data \<Longrightarrow> der_item (part data offset e)"
    and "der_children depth data child content_end = Inr e \<Longrightarrow> content_end \<le> length data \<Longrightarrow> child \<le> content_end \<Longrightarrow>
      \<exists>cs. part data child content_end = concat cs \<and> (\<forall>c\<in>set cs. der_item c)"
proof (induction depth data offset limit and depth data child content_end
    arbitrary: e and e rule: der_item_end_der_children.induct)
  case (2 depth data offset limit)
  from "2.prems"(1) obtain c start ce where h: "der_header data offset limit = Inr (c, start, ce)" and e: "e = ce"
    and ch: "c \<Longrightarrow> der_children depth data start ce = Inr ce"
    by (auto simp: ebind_inv split: prod.splits if_splits)
  from der_header_sound [OF h "2.prems"(2)] obtain tag ls
    where pos: "offset + 2 \<le> start" "start \<le> ce" "ce \<le> limit"
      and tl: "part data offset start = tag # ls" "tag_ok tag" "c = constructed_tag tag" "der_length ls (ce - start)"
    by blast
  have whole: "part data offset ce = tag # ls @ part data start ce"
    using part_split [of offset start ce data] pos tl(1) by simp
  show ?case
  proof (cases c)
    case True
    with "2.IH" h ch pos "2.prems"(2) obtain cs where "part data start ce = concat cs" "\<forall>c\<in>set cs. der_item c"
      by fastforce
    moreover from this have "length (concat cs) = ce - start"
      using pos "2.prems"(2) by (metis length_part order.trans)
    ultimately show ?thesis
      using whole e tl True der_item.constructed [of tag cs ls] by simp
  next
    case False
    then show ?thesis
      using whole e tl pos "2.prems"(2) der_item.primitive [of tag ls "part data start ce"] by simp
  qed
next
  case (3 depth data child content_end)
  show ?case
  proof (cases "child < content_end")
    case True
    with "3.prems"(1) obtain n where n: "der_item_end depth data child content_end = Inr n" "child < n"
      "der_children depth data n content_end = Inr e"
      by (auto simp: der_children.simps [of depth data child] ebind_inv split: if_splits)
    have "n \<le> content_end" using der_item_end_bounds [OF n(1) "3.prems"(2)] by simp
    with "3.IH"(2) [OF True n(1,2,3) "3.prems"(2)] obtain cs
      where "part data n content_end = concat cs" "\<forall>c\<in>set cs. der_item c" by blast
    with "3.IH"(1) [OF True n(1) "3.prems"(2)] n(2) \<open>n \<le> content_end\<close> show ?thesis
      by (intro exI [of _ "part data child n # cs"]) (simp add: part_split [of child n content_end])
  next
    case False
    with "3.prems" show ?thesis by (intro exI [of _ "[]"]) simp
  qed
qed simp

lemma der_header_complete:
  assumes data: "data = pre @ (tag # ls @ content) @ post" and tag: "tag_ok tag"
    and len: "der_length ls (length content)" and fits: "length pre + 1 + length ls + length content \<le> limit"
  shows "der_header data (length pre) limit =
    Inr (constructed_tag tag, length pre + 1 + length ls, length pre + 1 + length ls + length content)"
proof -
  have at: "data ! length pre = tag" "ls \<noteq> [] \<Longrightarrow> data ! (length pre + 1) = hd ls"
    by (cases ls; simp add: data nth_append)+
  from len show ?thesis
    unfolding der_length_def
  proof (elim disjE exE conjE)
    fix b assume "ls = [b]" "b AND 0x80 = 0" "length content = unat b"
    with at tag fits show ?thesis by (simp add: der_header_def Let_def tag_ok_def constructed_tag_def)
  next
    fix b bs
    assume b: "ls = b # bs" "b AND 0x80 \<noteq> 0" "length bs = unat (b AND 0x7F)" "bs \<noteq> []" "hd bs \<noteq> 0"
      "length content = nat (from_bytes_be bs)" "128 \<le> length content"
    have "take (length bs) (drop (length pre + 2) data) = bs" using b(1) by (simp add: data)
    moreover have "unat (b AND 0x7F) \<noteq> 0" using b(3,4) by (metis length_0_conv)
    ultimately show ?thesis using at tag fits b
      by (simp add: der_header_def Let_def tag_ok_def constructed_tag_def)
  qed
qed

lemma der_children_complete:
  assumes "\<forall>c\<in>set cs. c \<noteq> [] \<and>
      (\<forall>pre post limit. length pre + length c \<le> limit \<longrightarrow>
        der_item_end depth (pre @ c @ post) (length pre) limit = Inr (length pre + length c))"
  shows "der_children depth (pre @ concat cs @ post) (length pre) (length pre + length (concat cs)) =
    Inr (length pre + length (concat cs))"
  using assms
proof (induction cs arbitrary: pre)
  case Nil
  then show ?case by (simp add: der_children.simps)
next
  case (Cons c cs)
  let ?data = "pre @ concat (c # cs) @ post" and ?e = "length pre + length (concat (c # cs))"
  from Cons.prems have c: "c \<noteq> []" by simp
  have item: "der_item_end depth ?data (length pre) ?e = Inr (length pre + length c)"
    using Cons.prems by simp
  have "der_children depth ?data (length pre) ?e = der_children depth ?data (length (pre @ c)) ?e"
    using c by (subst der_children.simps) (simp add: item [simplified])
  also have "\<dots> = Inr ?e"
    using Cons.IH [of "pre @ c"] Cons.prems by (simp add: add.assoc)
  finally show ?case .
qed

lemma der_item_nonempty: "der_item x \<Longrightarrow> x \<noteq> []"
  by (induction rule: der_item.induct) auto

lemma der_complete:
  assumes "der_item x" and "length x \<le> depth" and "length pre + length x \<le> limit"
  shows "der_item_end depth (pre @ x @ post) (length pre) limit = Inr (length pre + length x)"
  using assms
proof (induction arbitrary: depth pre post limit rule: der_item.induct)
  case (primitive tag ls content)
  then obtain d where "depth = Suc d" by (cases depth) auto
  with primitive show ?case
    using der_header_complete [OF refl primitive(1) primitive(3), of pre limit post] by simp
next
  case (constructed tag cs ls)
  then obtain d where d: "depth = Suc d" "length (concat cs) \<le> d" by (cases depth) auto
  let ?pre = "pre @ tag # ls"
  let ?data = "pre @ (tag # ls @ concat cs) @ post"
  have small: "length c \<le> d" if "c \<in> set cs" for c
    using d(2) that by (auto simp: in_set_conv_decomp)
  have "\<forall>c\<in>set cs. c \<noteq> [] \<and>
      (\<forall>pre post limit. length pre + length c \<le> limit \<longrightarrow>
        der_item_end d (pre @ c @ post) (length pre) limit = Inr (length pre + length c))"
  proof (intro ballI conjI allI impI)
    fix c assume c: "c \<in> set cs"
    with constructed.IH show "c \<noteq> []" using der_item_nonempty by blast
    fix pre post :: bytes and limit assume "length pre + length c \<le> limit"
    with constructed.IH c small show "der_item_end d (pre @ c @ post) (length pre) limit = Inr (length pre + length c)"
      by blast
  qed
  then have "der_children d (?pre @ concat cs @ post) (length ?pre) (length ?pre + length (concat cs)) =
      Inr (length ?pre + length (concat cs))"
    by (rule der_children_complete)
  then show ?case
    using der_header_complete [OF refl constructed.hyps(1,3), of pre limit post] constructed.hyps(2) constructed.prems(2) d(1) by simp
qed

lemma validate_der_encoding_sound:
  assumes "validate_der_encoding depth data = Inr ()"
  shows "der_item data"
proof -
  from assms obtain e where "der_item_end depth data 0 (length data) = Inr e" "e = length data"
    by (auto simp: validate_der_encoding_def ebind_inv split: if_splits)
  with der_sound(1) [of depth data 0 "length data" e] show ?thesis by simp
qed

text \<open>
  C12: the strict DER check applied to the leaf certificate and to a subject-alternative-name
  extension accepts exactly the byte strings of the DER grammar (one item, single-byte nonzero
  tag, definite minimal length, constructed contents that are items themselves), as soon as
  the recursion limit is at least the length of the input (with a smaller limit it can
  only refuse more, \<open>validate_der_encoding_sound\<close>).
\<close>

theorem validate_der_encoding_exact:
  assumes "length data \<le> depth"
  shows "validate_der_encoding depth data = Inr () \<longleftrightarrow> der_item data"
proof
  show "der_item data" if "validate_der_encoding depth data = Inr ()"
    using that by (rule validate_der_encoding_sound)
next
  assume item: "der_item data"
  have "der_item_end depth data 0 (length data) = Inr (length data)"
    using der_complete [OF item assms, of "[]" "length data" "[]"] by simp
  then show "validate_der_encoding depth data = Inr ()"
    using der_item_nonempty [OF item] by (simp add: validate_der_encoding_def)
qed

text \<open>A sequence holding one integer is accepted, and is an item.\<close>

theorem validate_der_encoding_exact_witness:
  "validate_der_encoding 5 [0x30, 3, 2, 1, 7] = Inr () \<and> der_item [0x30, 3, 2, 1, 7]"
proof -
  have "validate_der_encoding 5 [0x30, 3, 2, 1, 7] = Inr ()" by code_simp
  then show ?thesis using validate_der_encoding_exact [of "[0x30, 3, 2, 1, 7]" 5] by simp
qed

end
