(* ===== verification/Py_Sha256.thy ===== *)
theory Py_Sha256
  imports Prelude
begin

text \<open>
  \<open>hashlib.sha256(data).digest()\<close> of the Python standard library, as FIPS 180-4 defines it, on 32-bit words
  whose addition wraps around.
\<close>

unbundle bit_operations_syntax

type_synonym word32 = "32 word"

section \<open>Functions\<close>

definition rotr :: "nat \<Rightarrow> word32 \<Rightarrow> word32" where
  "rotr n x = drop_bit n x OR push_bit (32 - n) x"

definition big_sigma0 :: "word32 \<Rightarrow> word32" where "big_sigma0 x = rotr 2 x XOR rotr 13 x XOR rotr 22 x"
definition big_sigma1 :: "word32 \<Rightarrow> word32" where "big_sigma1 x = rotr 6 x XOR rotr 11 x XOR rotr 25 x"
definition small_sigma0 :: "word32 \<Rightarrow> word32" where "small_sigma0 x = rotr 7 x XOR rotr 18 x XOR drop_bit 3 x"
definition small_sigma1 :: "word32 \<Rightarrow> word32" where "small_sigma1 x = rotr 17 x XOR rotr 19 x XOR drop_bit 10 x"

definition choice32 :: "word32 \<Rightarrow> word32 \<Rightarrow> word32 \<Rightarrow> word32" where
  "choice32 x y z = (x AND y) XOR ((NOT x) AND z)"

definition majority32 :: "word32 \<Rightarrow> word32 \<Rightarrow> word32 \<Rightarrow> word32" where
  "majority32 x y z = (x AND y) XOR (x AND z) XOR (y AND z)"

section \<open>The constants of the standard\<close>

text \<open>
  FIPS 180-4 takes its constants from the fractional parts of roots of the first primes: the first 32 bits
  of the cube roots of the first 64 for the rounds, and of the square roots of the first 8 for the initial
  hash value.  Here they are computed by that rule, with the integer root of a number found bit by bit.
\<close>

primrec root_search :: "nat \<Rightarrow> nat \<Rightarrow> nat \<Rightarrow> nat \<Rightarrow> nat" where
  "root_search 0 k n r = r"
| "root_search (Suc b) k n r =
     (if (r + 2 ^ b) ^ k \<le> n then root_search b k n (r + 2 ^ b) else root_search b k n r)"

lemma root_search_brackets:
  assumes "r ^ k \<le> n" and "n < (r + 2 ^ b) ^ k"
  shows "root_search b k n r ^ k \<le> n \<and> n < (root_search b k n r + 1) ^ k"
  using assms
proof (induction b arbitrary: r)
  case (Suc b)
  have double: "r + 2 ^ b + 2 ^ b = r + 2 ^ Suc b" by simp
  show ?case
  proof (cases "(r + 2 ^ b) ^ k \<le> n")
    case True
    with Suc.prems Suc.IH [of "r + 2 ^ b"] show ?thesis by (simp only: root_search.simps double if_True)
  next
    case False
    with Suc.prems Suc.IH [of r] show ?thesis by simp
  qed
qed simp

text \<open>The fractional bits of the \<open>k\<close>th root of \<open>p\<close>: the integer root of \<open>p\<close> scaled by \<open>2 ^ (32 * k)\<close>.\<close>

definition root_bits :: "nat \<Rightarrow> nat \<Rightarrow> nat" where
  "root_bits k p = root_search 41 k (p * 2 ^ (32 * k)) 0"

lemma root_bits_brackets:
  assumes "0 < k" and "p < 512"
  shows "root_bits k p ^ k \<le> p * 2 ^ (32 * k) \<and> p * 2 ^ (32 * k) < (root_bits k p + 1) ^ k"
proof -
  have "(512 :: nat) ^ 1 \<le> 512 ^ k" using assms(1) by (intro power_increasing) auto
  with assms(2) have "p < 512 ^ k" by simp
  then have "p * 2 ^ (32 * k) < 512 ^ k * 2 ^ (32 * k)" by simp
  also have "\<dots> = (0 + 2 ^ 41) ^ k"
    by (simp add: power_mult flip: power_mult_distrib)
  finally show ?thesis
    unfolding root_bits_def using assms(1) by (intro root_search_brackets) (simp_all add: power_0_left)
qed

definition root_fraction :: "nat \<Rightarrow> nat \<Rightarrow> word32" where
  "root_fraction k p = word_of_nat (root_bits k p)"

definition is_prime :: "nat \<Rightarrow> bool" where
  "is_prime p \<longleftrightarrow> 2 \<le> p \<and> list_all (\<lambda>d. \<not> d dvd p) [2..<p]"

definition first_primes :: "nat \<Rightarrow> nat list" where
  "first_primes n = take n (filter is_prime [0..<312])"

definition round_constants :: "word32 list" where
  "round_constants = map (root_fraction 3) (first_primes 64)"

section \<open>Padding and blocks\<close>

definition pad_message :: "bytes \<Rightarrow> bytes" where
  "pad_message m =
     m @ [0x80] @ replicate ((119 - length m mod 64) mod 64) 0 @ to_bytes_be 8 (int (8 * length m) mod 2 ^ 64)"

fun words_of :: "bytes \<Rightarrow> word32 list" where
  "words_of (a # b # c # d # rest) = word_of_int (from_bytes_be [a, b, c, d]) # words_of rest"
| "words_of _ = []"

text \<open>Padding fills the last block.\<close>

lemma pad_message_blocks: "64 dvd length (pad_message m)"
proof -
  obtain q r where m: "length m = 64 * q + r" and r: "r < (64 :: nat)"
    by (metis div_mult_mod_eq mod_less_divisor mult.commute zero_less_numeral)
  have "(119 - r) mod 64 = (if r \<le> 55 then 55 - r else 119 - r)"
    using r by (auto simp: le_mod_geq)
  with m r have "length (pad_message m) = (if r \<le> 55 then 64 * (q + 1) else 64 * (q + 2))"
    by (simp add: pad_message_def)
  then show ?thesis by simp
qed

section \<open>Compression\<close>

text \<open>The message schedule, the last word first.\<close>

fun expand :: "nat \<Rightarrow> word32 list \<Rightarrow> word32 list" where
  "expand 0 ws = ws"
| "expand (Suc n) ws =
     expand n ((small_sigma1 (ws ! 1) + ws ! 6 + small_sigma0 (ws ! 14) + ws ! 15) # ws)"

datatype hash_state = Hash word32 word32 word32 word32 word32 word32 word32 word32

fun hash_round :: "hash_state \<Rightarrow> word32 \<times> word32 \<Rightarrow> hash_state" where
  "hash_round (Hash a b c d e f g h) (k, w) =
     (let t1 = h + big_sigma1 e + choice32 e f g + k + w; t2 = big_sigma0 a + majority32 a b c
      in Hash (t1 + t2) a b c (d + t1) e f g)"

fun add_state :: "hash_state \<Rightarrow> hash_state \<Rightarrow> hash_state" where
  "add_state (Hash a b c d e f g h) (Hash a' b' c' d' e' f' g' h') =
     Hash (a + a') (b + b') (c + c') (d + d') (e + e') (f + f') (g + g') (h + h')"

definition compress :: "hash_state \<Rightarrow> word32 list \<Rightarrow> hash_state" where
  "compress st block = add_state st (foldl hash_round st (zip round_constants (rev (expand 48 (rev block)))))"

function hash_blocks :: "hash_state \<Rightarrow> word32 list \<Rightarrow> hash_state" where
  "hash_blocks st ws = (if ws = [] then st else hash_blocks (compress st (take 16 ws)) (drop 16 ws))"
  by pat_completeness auto
termination by (relation "measure (\<lambda>(_, ws). length ws)") auto

declare hash_blocks.simps [simp del]

fun state_bytes :: "hash_state \<Rightarrow> bytes" where
  "state_bytes (Hash a b c d e f g h) = concat (map (\<lambda>w. to_bytes_be 4 (uint w)) [a, b, c, d, e, f, g, h])"

definition hash_of :: "word32 list \<Rightarrow> hash_state" where
  "hash_of ws = Hash (ws ! 0) (ws ! 1) (ws ! 2) (ws ! 3) (ws ! 4) (ws ! 5) (ws ! 6) (ws ! 7)"

definition initial_hash :: hash_state where
  "initial_hash = hash_of (map (root_fraction 2) (first_primes 8))"

definition sha256 :: "bytes \<Rightarrow> bytes" where
  "sha256 m = state_bytes (hash_blocks initial_hash (words_of (pad_message m)))"

lemma length_sha256 [simp]: "length (sha256 m) = 32"
  unfolding sha256_def
  by (cases "hash_blocks initial_hash (words_of (pad_message m))") simp

end
