(* ===== verification/Py_Url.thy ===== *)
theory Py_Url
  imports Py_Json
begin

text \<open>
  \<open>urllib.parse.urlsplit\<close> as far as the program uses its result: the scheme, \<open>hostname\<close>, and the
  validity of \<open>port\<close>.  Two checks of the library are left to the argument \<open>netloc_ok\<close>: that what is
  in brackets is an IPv6 or future address, and that a network location with non-ASCII characters
  stays one under NFKC normalisation.
\<close>

section \<open>Splitting a URL\<close>

text \<open>Leading controls and spaces are dropped, and tabs and line breaks everywhere.\<close>

definition clean_url :: "pystr \<Rightarrow> pystr" where
  "clean_url url = filter (\<lambda>c. c \<notin> {9, 10, 13}) (dropWhile (\<lambda>c. c \<le> 32) url)"

definition is_ascii_letter :: "nat \<Rightarrow> bool" where
  "is_ascii_letter c \<longleftrightarrow> 65 \<le> c \<and> c \<le> 90 \<or> 97 \<le> c \<and> c \<le> 122"

definition is_scheme_char :: "nat \<Rightarrow> bool" where
  "is_scheme_char c \<longleftrightarrow> is_ascii_letter c \<or> is_digit c \<or> c \<in> {43, 45, 46}"

definition split_scheme :: "pystr \<Rightarrow> pystr \<times> pystr" where
  "split_scheme url =
     (case split_first 58 url of
        (p, Some rest) \<Rightarrow>
          if p \<noteq> [] \<and> is_ascii_letter (hd p) \<and> (\<forall>c\<in>set p. is_scheme_char c) then (lower_ascii p, rest) else ([], url)
      | _ \<Rightarrow> ([], url))"

definition ends_netloc :: "nat \<Rightarrow> bool" where
  "ends_netloc c \<longleftrightarrow> c \<in> {47, 63, 35}"

definition netloc_of :: "pystr \<Rightarrow> pystr" where
  "netloc_of rest = (if take 2 rest = U ''//'' then takeWhile (\<lambda>c. \<not> ends_netloc c) (drop 2 rest) else [])"

text \<open>\<open>_hostinfo\<close>: what is after the last \<open>@\<close>, split into host and port.\<close>

definition optional :: "pystr option \<Rightarrow> pystr" where
  "optional x = (case x of None \<Rightarrow> [] | Some s \<Rightarrow> s)"

definition hostinfo :: "pystr \<Rightarrow> pystr \<times> pystr" where
  "hostinfo netloc =
     (let info = last (split_all 64 netloc) in
      case split_first 91 info of
        (_, Some bracketed) \<Rightarrow>
          (let (host, after) = split_first 93 bracketed
           in (host, optional (snd (split_first 58 (optional after)))))
      | (_, None) \<Rightarrow> (let (host, port) = split_first 58 info in (host, optional port)))"

definition hostname_of :: "pystr \<Rightarrow> pystr option" where
  "hostname_of netloc =
     (let host = fst (hostinfo netloc) in
      if host = [] then None
      else case split_first 37 host of
        (h, None) \<Rightarrow> Some (lower_ascii h)
      | (h, Some zone) \<Rightarrow> Some (lower_ascii h @ [37] @ zone))"

definition port_ok :: "pystr \<Rightarrow> bool" where
  "port_ok port \<longleftrightarrow>
     port = [] \<or> (\<forall>c\<in>set port. is_digit c) \<and> length port \<le> MAX_INT_DIGITS \<and> digits_value port \<le> 65535"

definition netloc_check :: "(pystr \<Rightarrow> bool) \<Rightarrow> pystr \<Rightarrow> bool" where
  "netloc_check netloc_ok netloc \<longleftrightarrow>
     (91 \<in> set netloc \<longleftrightarrow> 93 \<in> set netloc) \<and>
     (91 \<in> set netloc \<or> (\<exists>c\<in>set netloc. 128 \<le> c) \<longrightarrow> netloc_ok netloc)"

record split_url =
  url_scheme :: pystr
  url_hostname :: "pystr option"

text \<open>\<open>urlsplit(url)\<close>, then \<open>.hostname\<close> and \<open>.port\<close>.\<close>

definition split_pdp_url :: "(pystr \<Rightarrow> bool) \<Rightarrow> pystr \<Rightarrow> exn + split_url" where
  "split_pdp_url netloc_ok url =
     (let (scheme, rest) = split_scheme (clean_url url); netloc = netloc_of rest in
      if \<not> netloc_check netloc_ok netloc then Inl (ValueError ''Invalid IPv6 URL'')
      else if \<not> port_ok (snd (hostinfo netloc)) then Inl (ValueError ''Port out of range 0-65535'')
      else Inr \<lparr>url_scheme = scheme, url_hostname = hostname_of netloc\<rparr>)"

section \<open>URLs put together from their parts\<close>

lemma split_first_none: "sep \<notin> set s \<Longrightarrow> split_first sep s = (s, None)"
  by (induction s) auto

lemma split_first_some: "sep \<notin> set p \<Longrightarrow> split_first sep (p @ sep # r) = (p, Some r)"
  by (induction p) auto

lemma split_all_none: "sep \<notin> set s \<Longrightarrow> split_all sep s = [s]"
  by (induction s) auto

lemma split_all_nonempty [simp]: "split_all sep s \<noteq> []"
  by (induction s) (auto split: list.split)

lemma split_all_last: "sep \<notin> set s \<Longrightarrow> \<exists>ps. ps \<noteq> [] \<and> split_all sep (p @ sep # s) = ps @ [s]"
proof (induction p)
  case (Cons c p)
  then obtain q ps where "split_all sep (p @ sep # s) = (q # ps) @ [s]" by (metis neq_Nil_conv)
  then show ?case
    by (cases "c = sep") (auto intro: exI [of _ "[] # q # ps"] exI [of _ "(c # q) # ps"])
qed (auto simp: split_all_none)

lemma last_split_all: "sep \<notin> set s \<Longrightarrow> last (split_all sep (p @ sep # s)) = s"
  using split_all_last [of sep s p] by auto

text \<open>Characters that mean nothing special in a network location.\<close>

definition plain_char :: "nat \<Rightarrow> bool" where
  "plain_char c \<longleftrightarrow> 32 < c \<and> c < 128 \<and> \<not> ends_netloc c \<and> c \<notin> {91, 93}"

lemma plain_char_simps: "plain_char c \<Longrightarrow> 32 < c \<and> c < 128 \<and> \<not> ends_netloc c \<and> c \<noteq> 91 \<and> c \<noteq> 93"
  by (simp add: plain_char_def)

lemma netloc_check_plain: "\<forall>c\<in>set s. plain_char c \<Longrightarrow> netloc_check netloc_ok s"
proof -
  assume plain: "\<forall>c\<in>set s. plain_char c"
  then have "91 \<notin> set s" "93 \<notin> set s" by (auto dest: plain_char_simps)
  moreover have "\<not> (\<exists>c\<in>set s. 128 \<le> c)" using plain plain_char_simps by fastforce
  ultimately show ?thesis by (simp add: netloc_check_def)
qed

lemma clean_plain: "\<forall>c\<in>set s. 32 < c \<Longrightarrow> s \<noteq> [] \<Longrightarrow> clean_url (s @ r) = s @ filter (\<lambda>c. c \<notin> {9, 10, 13}) r"
  by (cases s) (auto simp: clean_url_def filter_id_conv intro!: filter_True)

lemma split_scheme_http: "split_scheme (U ''http:'' @ r) = (U ''http'', r)"
  using split_first_some [of 58 "U ''http''" r]
  by (simp add: split_scheme_def U_def is_ascii_letter_def is_scheme_char_def lower_ascii_def)

lemma netloc_of_append:
  assumes "\<forall>c\<in>set netloc. \<not> ends_netloc c" "path = [] \<or> ends_netloc (hd path)"
  shows "netloc_of (U ''//'' @ netloc @ path) = netloc"
  using assms by (cases path) (simp_all add: netloc_of_def U_def takeWhile_append2)

text \<open>The host is what stands between the last \<open>@\<close> and the port, whatever the user information says.\<close>

lemma hostinfo_plain:
  assumes "\<forall>c\<in>set host. c \<notin> {58, 64, 91}" "\<forall>c\<in>set port. c \<notin> {64, 91}"
  shows "hostinfo (userinfo @ 64 # host @ 58 # port) = (host, port)"
proof -
  have "last (split_all 64 (userinfo @ 64 # host @ 58 # port)) = host @ 58 # port"
    using assms by (intro last_split_all) auto
  moreover have "split_first 91 (host @ 58 # port) = (host @ 58 # port, None)"
    using assms by (intro split_first_none) auto
  moreover have "split_first 58 (host @ 58 # port) = (host, Some port)"
    using assms by (intro split_first_some) auto
  ultimately show ?thesis by (simp add: hostinfo_def optional_def)
qed

lemma hostname_plain:
  assumes "host \<noteq> []" "\<forall>c\<in>set host. c \<notin> {37, 58, 64, 91}" "\<forall>c\<in>set port. c \<notin> {64, 91}"
  shows "hostname_of (userinfo @ 64 # host @ 58 # port) = Some (lower_ascii host)"
proof -
  have "hostinfo (userinfo @ 64 # host @ 58 # port) = (host, port)"
    using assms by (intro hostinfo_plain) auto
  moreover have "split_first 37 host = (host, None)" using assms by (intro split_first_none) auto
  ultimately show ?thesis using assms(1) by (simp add: hostname_of_def)
qed

lemma split_plain_http_url:
  assumes "\<forall>c\<in>set userinfo. plain_char c" "\<forall>c\<in>set host. plain_char c \<and> c \<notin> {37, 58, 64}" "host \<noteq> []"
    and "\<forall>c\<in>set port. is_digit c" "port_ok port" "path = [] \<or> ends_netloc (hd path)"
  shows "split_pdp_url netloc_ok (U ''http://'' @ userinfo @ 64 # host @ 58 # port @ path) =
    Inr \<lparr>url_scheme = U ''http'', url_hostname = Some (lower_ascii host)\<rparr>"
proof -
  let ?netloc = "userinfo @ 64 # host @ 58 # port" and ?path = "filter (\<lambda>c. c \<notin> {9, 10, 13}) path"
  have digit: "is_digit c \<Longrightarrow> plain_char c \<and> c \<noteq> 64" for c
    by (auto simp: is_digit_def plain_char_def ends_netloc_def)
  have "plain_char 64" "plain_char 58" by (simp_all add: plain_char_def ends_netloc_def)
  with assms(1,2,4) digit have plain: "\<forall>c\<in>set ?netloc. plain_char c" by auto
  have big: "\<forall>c\<in>set (U ''http://'' @ ?netloc). 32 < c" using plain by (auto simp: plain_char_def U_def)
  have path: "?path = [] \<or> ends_netloc (hd ?path)"
    using assms(6) by (cases path) (auto simp: ends_netloc_def)
  have "clean_url (U ''http://'' @ ?netloc @ path) = U ''http:'' @ U ''//'' @ ?netloc @ ?path"
    using clean_plain [OF big, of path] by (simp add: U_def)
  moreover have "netloc_of (U ''//'' @ ?netloc @ ?path) = ?netloc"
    using plain path by (intro netloc_of_append) (auto simp: plain_char_def)
  moreover have "netloc_check netloc_ok ?netloc"
    using plain by (rule netloc_check_plain)
  moreover have "hostinfo ?netloc = (host, port)"
    using assms(2,4) digit by (intro hostinfo_plain) (auto simp: plain_char_def)
  moreover have "hostname_of ?netloc = Some (lower_ascii host)"
    using assms(2,3,4) digit by (intro hostname_plain) (auto simp: plain_char_def)
  ultimately show ?thesis
    using assms(5) split_scheme_http [of "U ''//'' @ ?netloc @ ?path"]
    by (simp add: split_pdp_url_def Let_def del: filter.simps)
qed

end
