(* ===== verification/Trust.thy ===== *)
theory Trust
  imports Trust_Der Py_Sha256 Py_Url Mdoc_Document
begin

text \<open>
  \<open>trust.py\<close>: the per-document AuthZEN authorization.  A document's issuer identity is taken
  from its leaf certificate's subject alternative names or, failing that, from the leaf's
  hash; one request per document is posted to the configured decision point, whose answer
  counts only if it is a 2xx response of at most 1 MiB that is a JSON object, without
  duplicate members, with a boolean \<open>decision\<close>.

  \<open>asn1crypto\<close> and \<open>aiohttp\<close> are fields of the record \<open>trust_env\<close>; \<open>attempt\<close> numbers the posts, so that the same request posted twice may be
  answered differently.
\<close>

definition MAX_PDP_RESPONSE_BYTES :: nat where
  "MAX_PDP_RESPONSE_BYTES = 1024 * 1024"

record extension =
  ext_id :: pystr
  ext_value :: bytes

record general_name =
  gn_name :: pystr
  gn_contents :: bytes

text \<open>
  A parsed DER sequence: the library parses its members only when they are reached, so
  each of them may be an exception.
\<close>

type_synonym 'a lazily = "(exn + 'a) list"

record http_response =
  http_status :: int
  http_content_length :: "int option"
  http_read :: "nat \<Rightarrow> nat \<Rightarrow> exn + bytes"
    \<comment> \<open>the bytes the \<open>i\<close>-th read returns when it is asked for at most \<open>n\<close>\<close>

record trust_env =
  recursion_limit :: nat
  asn1_extensions :: "bytes \<Rightarrow> exn + extension lazily"
    \<comment> \<open>\<open>Certificate.load(der, strict=True)["tbs_certificate"]["extensions"]\<close>\<close>
  asn1_general_names :: "bytes \<Rightarrow> exn + ((exn + bytes) \<times> general_name lazily)"
    \<comment> \<open>\<open>GeneralNames.load(der, strict=True)\<close>: its \<open>dump(force=True)\<close> and its members\<close>
  netloc_ok :: "pystr \<Rightarrow> bool"
    \<comment> \<open>\<open>urlsplit\<close>'s checks of bracketed and of non-ASCII network locations\<close>
  http_post :: "nat \<Rightarrow> pystr \<Rightarrow> bytes \<Rightarrow> (pystr \<times> pystr) list \<Rightarrow> exn + http_response"
  json_recursion_limit :: nat
    \<comment> \<open>how deeply the JSON scanner may nest before \<open>RecursionError\<close>\<close>
  float_of_text :: "pystr \<Rightarrow> pyobj"
    \<comment> \<open>\<open>float(text)\<close>\<close>

section \<open>Roles and issuer identities\<close>

definition validate_mdoc_issuer_role :: "pystr \<Rightarrow> exn + unit" where
  "validate_mdoc_issuer_role role =
     (if role = [] \<or> strip role \<noteq> role \<or> (\<exists>char\<in>set role. is_control char)
      then Inl (TrustError ''invalid mdoc issuer role'') else Inr ())"

definition hash_issuer_id :: "bytes \<Rightarrow> pystr" where
  "hash_issuer_id leaf_der = U ''x509_hash:'' @ rstrip_pad (b64encode True (sha256 leaf_der))"

text \<open>The exceptions \<open>except (TypeError, ValueError)\<close> catches.\<close>

definition is_format_error :: "exn \<Rightarrow> bool" where
  "is_format_error e \<longleftrightarrow> class_of e = IsTypeError \<or> class_of e = IsValueError"

text \<open>
  The loop over the general names: \<open>Inl\<close> an early return, \<open>Inr\<close> the first DNS name without a
  wildcard.
\<close>

fun scan_names :: "general_name lazily \<Rightarrow> pystr option \<Rightarrow> exn + (pystr + pystr option)" where
  "scan_names [] dns_name = Inr (Inr dns_name)"
| "scan_names (Inl e # rest) dns_name = Inl e"
| "scan_names (Inr name # rest) dns_name =
     (if gn_name name \<noteq> U ''uniform_resource_identifier'' \<and> gn_name name \<noteq> U ''dns_name'' then scan_names rest dns_name
      else ebind (decode_ascii (gn_contents name)) (\<lambda>value.
        if gn_name name = U ''uniform_resource_identifier'' then
          if starts_with value (U ''http://'') then Inr (Inl (U ''https://'' @ drop (length (U ''http://'')) value))
          else if starts_with value (U ''https://'') then Inr (Inl value)
          else scan_names rest dns_name
        else if dns_name = None \<and> \<not> starts_with value (U ''*.'') then scan_names rest (Some value)
        else scan_names rest dns_name))"

text \<open>The body of the \<open>try\<close> for one subject-alternative-name extension.\<close>

definition san_identity :: "trust_env \<Rightarrow> bytes \<Rightarrow> bytes \<Rightarrow> exn + (pystr + pystr option)" where
  "san_identity E leaf_der san_der =
     ebind (validate_der_encoding (recursion_limit E) san_der) (\<lambda>_.
     ebind (asn1_general_names E san_der) (\<lambda>(dump, names).
     ebind dump (\<lambda>encoded.
     if encoded \<noteq> san_der then Inr (Inl (hash_issuer_id leaf_der)) else scan_names names None)))"

fun scan_extensions :: "trust_env \<Rightarrow> bytes \<Rightarrow> extension lazily \<Rightarrow> exn + pystr" where
  "scan_extensions E leaf_der [] = Inr (hash_issuer_id leaf_der)"
| "scan_extensions E leaf_der (Inl e # rest) = Inl e"
| "scan_extensions E leaf_der (Inr extension # rest) =
     (if ext_id extension \<noteq> U ''2.5.29.17'' then scan_extensions E leaf_der rest
      else case san_identity E leaf_der (ext_value extension) of
        Inl e \<Rightarrow> if is_format_error e then Inr (hash_issuer_id leaf_der) else Inl e
      | Inr (Inl identity) \<Rightarrow> Inr identity
      | Inr (Inr (Some dns_name)) \<Rightarrow> Inr (U ''https://'' @ dns_name)
      | Inr (Inr None) \<Rightarrow> scan_extensions E leaf_der rest)"

definition mdoc_issuer_id :: "trust_env \<Rightarrow> bytes \<Rightarrow> exn + pystr" where
  "mdoc_issuer_id E leaf_der =
     (case ebind (validate_der_encoding (recursion_limit E) leaf_der) (\<lambda>_. asn1_extensions E leaf_der) of
        Inl e \<Rightarrow> if is_format_error e then Inr (hash_issuer_id leaf_der) else Inl e
      | Inr extensions \<Rightarrow> scan_extensions E leaf_der extensions)"

section \<open>Requests\<close>

definition authzen_payload :: "pystr \<Rightarrow> bytes list \<Rightarrow> pystr \<Rightarrow> pystr \<Rightarrow> json" where
  "authzen_payload issuer_id chain role doc_type =
     JObj [(U ''subject'', JObj [(U ''type'', JStr (U ''key'')), (U ''id'', JStr issuer_id)]),
           (U ''resource'', JObj [(U ''type'', JStr (U ''x5c'')), (U ''id'', JStr issuer_id),
              (U ''key'', JList (map (\<lambda>certificate. JStr (b64encode False certificate)) chain))]),
           (U ''action'', JObj [(U ''name'', JStr role),
              (U ''parameters'', JObj [(U ''credential_types'', JList [JStr doc_type])])])]"

definition issuer_x5chain :: "parsed_document \<Rightarrow> bytes list" where
  "issuer_x5chain doc = (case pd_issuer_auth doc of None \<Rightarrow> [] | Some ia \<Rightarrow> ia_x5chain_der ia)"

definition build_authzen_request :: "trust_env \<Rightarrow> parsed_document \<Rightarrow> pystr \<Rightarrow> exn + json" where
  "build_authzen_request E doc role =
     ebind (validate_mdoc_issuer_role role) (\<lambda>_.
     case issuer_x5chain doc of
       [] \<Rightarrow> Inl (TrustError ''document has no issuer certificate chain'')
     | leaf # rest \<Rightarrow>
         ebind (mdoc_issuer_id E leaf) (\<lambda>issuer_id.
         Inr (authzen_payload issuer_id (leaf # rest) role (pd_doc_type doc))))"

definition LOOPBACK_HOSTS :: "pystr list" where
  "LOOPBACK_HOSTS = [U ''127.0.0.1'', U ''localhost'', U ''::1'']"

definition validate_pdp_url :: "trust_env \<Rightarrow> pystr \<Rightarrow> exn + unit" where
  "validate_pdp_url E url =
     (case split_pdp_url (netloc_ok E) url of
        Inl e \<Rightarrow> if class_of e = IsValueError then Inl (TrustError ''invalid PDP evaluation URL'') else Inl e
      | Inr parsed \<Rightarrow>
          (case url_hostname parsed of
             None \<Rightarrow> Inl (TrustError ''PDP evaluation URL must use HTTPS, except HTTP on an exact loopback host'')
           | Some hostname \<Rightarrow>
               if hostname = [] \<or>
                  (url_scheme parsed \<noteq> U ''https'' \<and>
                   \<not> (url_scheme parsed = U ''http'' \<and> hostname \<in> set LOOPBACK_HOSTS))
               then Inl (TrustError ''PDP evaluation URL must use HTTPS, except HTTP on an exact loopback host'')
               else Inr ()))"

definition validate_bearer_token :: "pystr option \<Rightarrow> exn + unit" where
  "validate_bearer_token token =
     (case token of
        None \<Rightarrow> Inr ()
      | Some t \<Rightarrow> if \<exists>char\<in>set t. char \<noteq> 9 \<and> \<not> (32 \<le> char \<and> char \<le> 126)
                   then Inl (TrustError ''invalid PDP bearer token'') else Inr ())"

section \<open>Responses\<close>

text \<open>The hooks given to the JSON scanner; \<open>seen\<close> is the dict built so far.\<close>

fun duplicate_scan :: "pystr list \<Rightarrow> (pystr \<times> pyobj) list \<Rightarrow> exn + unit" where
  "duplicate_scan seen [] = Inr ()"
| "duplicate_scan seen ((key, v) # rest) =
     (if key \<in> set seen then Inl (ValueError ''duplicate JSON member'') else duplicate_scan (key # seen) rest)"

definition reject_duplicate_members :: "(pystr \<times> pyobj) list \<Rightarrow> exn + pyobj" where
  "reject_duplicate_members pairs =
     ebind (duplicate_scan [] pairs) (\<lambda>_. Inr (PMap (map (\<lambda>(k, v). (PStr k, v)) pairs)))"

definition reject_json_constant :: "pystr \<Rightarrow> exn + pyobj" where
  "reject_json_constant v = Inl (ValueError ''invalid JSON constant'')"

definition pdp_hooks :: "trust_env \<Rightarrow> json_hooks" where
  "pdp_hooks E = \<lparr>hook_pairs = reject_duplicate_members, hook_constant = reject_json_constant, hook_float = float_of_text E\<rparr>"

text \<open>
  The body loop: at most one byte more than the limit is ever read, and every read that
  returns something brings the end nearer.
\<close>

function read_body :: "(nat \<Rightarrow> nat \<Rightarrow> exn + bytes) \<Rightarrow> nat \<Rightarrow> bytes \<Rightarrow> exn + bytes" where
  "read_body read i body =
     (if length body \<le> MAX_PDP_RESPONSE_BYTES then
        ebind (read i (min 65536 (MAX_PDP_RESPONSE_BYTES + 1 - length body))) (\<lambda>chunk.
        if chunk = [] then Inr body else read_body read (Suc i) (body @ chunk))
      else Inr body)"
  by pat_completeness auto
termination
  by (relation "measure (\<lambda>(_, _, body). MAX_PDP_RESPONSE_BYTES + 1 - length body)") (auto simp: neq_Nil_conv)

declare read_body.simps [simp del]

definition is_transport_error :: "exn \<Rightarrow> bool" where
  "is_transport_error e \<longleftrightarrow> class_of e = IsClientError \<or> class_of e = IsValueError \<or> e = TimeoutError"

definition receive_response :: "http_response \<Rightarrow> exn + bytes" where
  "receive_response response =
     (if \<not> (200 \<le> http_status response \<and> http_status response < 300)
      then Inl (TrustUnavailable ''PDP returned HTTP status'')
      else if (case http_content_length response of None \<Rightarrow> False | Some n \<Rightarrow> n > int MAX_PDP_RESPONSE_BYTES)
      then Inl (TrustUnavailable ''PDP response exceeded 1 MiB'')
      else read_body (http_read response) 0 [])"

definition decision_of :: "pyobj \<Rightarrow> exn + bool" where
  "decision_of decoded =
     (case decoded of
        PMap m \<Rightarrow> (case dict_lookup m (S ''decision'') of
                      Some (PBool b) \<Rightarrow> Inr b
                    | _ \<Rightarrow> Inl (TrustUnavailable ''PDP response did not contain a boolean decision''))
      | _ \<Rightarrow> Inl (TrustUnavailable ''PDP response did not contain a boolean decision''))"

definition pdp_headers :: "pystr option \<Rightarrow> (pystr \<times> pystr) list" where
  "pdp_headers bearer_token =
     [(U ''Content-Type'', U ''application/json''), (U ''Accept-Encoding'', U ''identity'')] @
     (case bearer_token of
        None \<Rightarrow> []
      | Some t \<Rightarrow> if t = [] then [] else [(U ''Authorization'', U ''Bearer '' @ t)])"

definition evaluate_request :: "trust_env \<Rightarrow> nat \<Rightarrow> json \<Rightarrow> pystr \<Rightarrow> pystr option \<Rightarrow> exn + bool" where
  "evaluate_request E attempt payload pdp_url bearer_token =
     ebind (validate_pdp_url E pdp_url) (\<lambda>_.
     ebind (validate_bearer_token bearer_token) (\<lambda>_.
     ebind (json_compact payload) (\<lambda>text.
     ebind (utf8_encode text) (\<lambda>body.
     case ebind (http_post E attempt pdp_url body (pdp_headers bearer_token)) receive_response of
       Inl e \<Rightarrow>
         if class_of e = IsTrustError then Inl e
         else if is_transport_error e then Inl (TrustUnavailable ''PDP request failed'') else Inl e
     | Inr response_body \<Rightarrow>
         if length response_body > MAX_PDP_RESPONSE_BYTES then Inl (TrustUnavailable ''PDP response exceeded 1 MiB'')
         else case json_loads (pdp_hooks E) (json_recursion_limit E) response_body of
           Inl e \<Rightarrow> if class_of e = IsValueError then Inl (TrustUnavailable ''PDP returned malformed JSON'') else Inl e
         | Inr decoded \<Rightarrow> decision_of decoded))))"

text \<open>One request per document, in order, until one is not permitted.\<close>

fun authorize_documents ::
  "trust_env \<Rightarrow> nat \<Rightarrow> parsed_document list \<Rightarrow> pystr \<Rightarrow> pystr \<Rightarrow> pystr option \<Rightarrow> exn + unit" where
  "authorize_documents E attempt [] pdp_url role bearer_token = Inr ()"
| "authorize_documents E attempt (doc # documents) pdp_url role bearer_token =
     ebind (build_authzen_request E doc role) (\<lambda>payload.
     ebind (evaluate_request E attempt payload pdp_url bearer_token) (\<lambda>permit.
     if \<not> permit then Inl (TrustDenied ''go-trust denied document'')
     else authorize_documents E (Suc attempt) documents pdp_url role bearer_token))"

section \<open>The response loop and the hooks\<close>

lemma duplicate_scan_Inr: "duplicate_scan seen pairs = Inr () \<longleftrightarrow> distinct (map fst pairs) \<and> set (map fst pairs) \<inter> set seen = {}"
  by (induction seen pairs rule: duplicate_scan.induct) auto

text \<open>The hook accepts exactly the objects whose member names are distinct, and keeps them all.\<close>

lemma reject_duplicate_members_Inr:
  "reject_duplicate_members pairs = Inr x \<longleftrightarrow>
     distinct (map fst pairs) \<and> x = PMap (map (\<lambda>(k, v). (PStr k, v)) pairs)"
  by (auto simp: reject_duplicate_members_def ebind_inv duplicate_scan_Inr)

text \<open>A stream that respects the requested size never makes the loop hold more than 1 MiB + 1 byte.\<close>

lemma read_body_bound:
  assumes read: "\<And>i n chunk. read i n = Inr chunk \<Longrightarrow> length chunk \<le> n"
  shows "read_body read i body = Inr result \<Longrightarrow> length body \<le> MAX_PDP_RESPONSE_BYTES + 1 \<Longrightarrow>
    length result \<le> MAX_PDP_RESPONSE_BYTES + 1"
proof (induction "MAX_PDP_RESPONSE_BYTES + 1 - length body" arbitrary: i body rule: less_induct)
  case less
  let ?n = "min 65536 (MAX_PDP_RESPONSE_BYTES + 1 - length body)"
  show ?case
  proof (cases "length body \<le> MAX_PDP_RESPONSE_BYTES")
    case True
    with less.prems(1) obtain chunk where chunk: "read i ?n = Inr chunk"
      and rest: "(if chunk = [] then Inr body else read_body read (Suc i) (body @ chunk)) = Inr result"
      by (subst (asm) read_body.simps) (auto simp: ebind_inv)
    show ?thesis
    proof (cases "chunk = []")
      case False
      have "length (body @ chunk) \<le> MAX_PDP_RESPONSE_BYTES + 1"
        using read [OF chunk] True by simp arith
      moreover have "MAX_PDP_RESPONSE_BYTES + 1 - length (body @ chunk) < MAX_PDP_RESPONSE_BYTES + 1 - length body"
        using False True by (cases chunk) auto
      ultimately show ?thesis using less.hyps [of "body @ chunk" "Suc i"] rest False by simp
    qed (use rest less.prems(2) in simp)
  next
    case False
    with less.prems show ?thesis by (subst (asm) read_body.simps) simp
  qed
qed

section \<open>What a permit means\<close>

definition url_allowed :: "split_url \<Rightarrow> bool" where
  "url_allowed u \<longleftrightarrow> (\<exists>h. url_hostname u = Some h \<and> h \<noteq> [] \<and>
     (url_scheme u = U ''https'' \<or> (url_scheme u = U ''http'' \<and> h \<in> set LOOPBACK_HOSTS)))"

definition token_clean :: "pystr option \<Rightarrow> bool" where
  "token_clean token \<longleftrightarrow> (\<forall>t. token = Some t \<longrightarrow> (\<forall>c\<in>set t. c = 9 \<or> (32 \<le> c \<and> c \<le> 126)))"

lemma validate_pdp_url_Inr: "validate_pdp_url E url = Inr () \<longleftrightarrow> (\<exists>u. split_pdp_url (netloc_ok E) url = Inr u \<and> url_allowed u)"
  by (auto simp: validate_pdp_url_def url_allowed_def split: sum.splits option.splits if_splits)

lemma validate_bearer_token_Inr: "validate_bearer_token token = Inr () \<longleftrightarrow> token_clean token"
  by (auto simp: validate_bearer_token_def token_clean_def split: option.splits)

lemma receive_response_Inr:
  "receive_response response = Inr body \<Longrightarrow> 200 \<le> http_status response \<and> http_status response < 300"
  by (auto simp: receive_response_def split: if_splits)

lemma decision_of_Inr: "decision_of x = Inr b \<longleftrightarrow> (\<exists>m. x = PMap m \<and> dict_lookup m (S ''decision'') = Some (PBool b))"
  by (auto simp: decision_of_def split: pyobj.splits option.splits)

text \<open>The decision point's answer to the \<open>attempt\<close>-th post is an explicit permit.\<close>

definition explicit_permit :: "trust_env \<Rightarrow> nat \<Rightarrow> json \<Rightarrow> pystr \<Rightarrow> pystr option \<Rightarrow> bool" where
  "explicit_permit E attempt payload url token \<longleftrightarrow>
     (\<exists>u text body response answer m.
        split_pdp_url (netloc_ok E) url = Inr u \<and> url_allowed u \<and> token_clean token \<and>
        json_compact payload = Inr text \<and> utf8_encode text = Inr body \<and>
        http_post E attempt url body (pdp_headers token) = Inr response \<and>
        200 \<le> http_status response \<and> http_status response < 300 \<and>
        receive_response response = Inr answer \<and> length answer \<le> MAX_PDP_RESPONSE_BYTES \<and>
        json_loads (pdp_hooks E) (json_recursion_limit E) answer = Inr (PMap m) \<and>
        dict_lookup m (S ''decision'') = Some (PBool True))"

lemma evaluate_request_permit: "evaluate_request E attempt payload url token = Inr True \<longleftrightarrow> explicit_permit E attempt payload url token"
  (is "?lhs = ?rhs")
proof
  assume ?lhs
  then obtain t body where url: "validate_pdp_url E url = Inr ()" "validate_bearer_token token = Inr ()"
    and body: "json_compact payload = Inr t" "utf8_encode t = Inr body"
    and rest: "(case ebind (http_post E attempt url body (pdp_headers token)) receive_response of
       Inl e \<Rightarrow>
         if class_of e = IsTrustError then Inl e
         else if is_transport_error e then Inl (TrustUnavailable ''PDP request failed'') else Inl e
     | Inr response_body \<Rightarrow>
         if length response_body > MAX_PDP_RESPONSE_BYTES then Inl (TrustUnavailable ''PDP response exceeded 1 MiB'')
         else case json_loads (pdp_hooks E) (json_recursion_limit E) response_body of
           Inl e \<Rightarrow> if class_of e = IsValueError then Inl (TrustUnavailable ''PDP returned malformed JSON'') else Inl e
         | Inr decoded \<Rightarrow> decision_of decoded) = Inr True"
    unfolding evaluate_request_def by (auto simp: ebind_eq_Inr)
  from rest obtain answer
    where answer: "ebind (http_post E attempt url body (pdp_headers token)) receive_response = Inr answer"
      "length answer \<le> MAX_PDP_RESPONSE_BYTES"
      and scanned: "(case json_loads (pdp_hooks E) (json_recursion_limit E) answer of
           Inl e \<Rightarrow> if class_of e = IsValueError then Inl (TrustUnavailable ''PDP returned malformed JSON'') else Inl e
         | Inr decoded \<Rightarrow> decision_of decoded) = Inr True"
    by (auto split: sum.splits if_splits)
  from scanned obtain m where "json_loads (pdp_hooks E) (json_recursion_limit E) answer = Inr (PMap m)"
    "dict_lookup m (S ''decision'') = Some (PBool True)"
    by (auto simp: decision_of_Inr split: sum.splits if_splits)
  moreover from answer(1) obtain response
    where "http_post E attempt url body (pdp_headers token) = Inr response" "receive_response response = Inr answer"
    by (auto simp: ebind_eq_Inr)
  moreover from this(2) have "200 \<le> http_status response \<and> http_status response < 300"
    by (rule receive_response_Inr)
  ultimately show ?rhs
    using url body answer(2) unfolding explicit_permit_def validate_pdp_url_Inr validate_bearer_token_Inr by blast
next
  assume ?rhs
  then show ?lhs
    unfolding explicit_permit_def
  proof (elim exE conjE)
    fix u t body response answer m
    assume *: "split_pdp_url (netloc_ok E) url = Inr u" "url_allowed u" "token_clean token" "json_compact payload = Inr t"
      "utf8_encode t = Inr body" "http_post E attempt url body (pdp_headers token) = Inr response"
      "receive_response response = Inr answer" "length answer \<le> MAX_PDP_RESPONSE_BYTES"
      "json_loads (pdp_hooks E) (json_recursion_limit E) answer = Inr (PMap m)"
      "dict_lookup m (S ''decision'') = Some (PBool True)"
    have "validate_pdp_url E url = Inr ()" "validate_bearer_token token = Inr ()"
      using *(1-3) by (auto simp: validate_pdp_url_Inr validate_bearer_token_Inr)
    with *(4-) show ?lhs by (simp add: evaluate_request_def decision_of_def)
  qed
qed

lemma authorize_documents_Inr:
  "authorize_documents E attempt documents url role token = Inr () \<longleftrightarrow>
    (\<forall>i<length documents. \<exists>payload. build_authzen_request E (documents ! i) role = Inr payload \<and>
       explicit_permit E (attempt + i) payload url token)"
proof (induction documents arbitrary: attempt)
  case (Cons doc documents)
  have "authorize_documents E attempt (doc # documents) url role token = Inr () \<longleftrightarrow>
    (\<exists>payload. build_authzen_request E doc role = Inr payload \<and> explicit_permit E attempt payload url token) \<and>
    authorize_documents E (Suc attempt) documents url role token = Inr ()"
    by (auto simp: ebind_eq_Inr evaluate_request_permit [symmetric])
  then show ?case by (simp add: Cons.IH All_less_Suc2)
qed simp

section \<open>Identities and requests\<close>

text \<open>The issuer identity the names of one extension give, by preference instead of by scanning.\<close>

definition ascii_name :: "general_name \<Rightarrow> bool" where
  "ascii_name name \<longleftrightarrow> (\<forall>c\<in>set (gn_contents name). unat c < 128)"

definition name_text :: "general_name \<Rightarrow> pystr" where
  "name_text name = map unat (gn_contents name)"

definition is_web_uri :: "general_name \<Rightarrow> bool" where
  "is_web_uri name \<longleftrightarrow> gn_name name = U ''uniform_resource_identifier'' \<and>
     (starts_with (name_text name) (U ''http://'') \<or> starts_with (name_text name) (U ''https://''))"

definition is_plain_dns :: "general_name \<Rightarrow> bool" where
  "is_plain_dns name \<longleftrightarrow> gn_name name = U ''dns_name'' \<and> \<not> starts_with (name_text name) (U ''*.'')"

definition https_of :: "pystr \<Rightarrow> pystr" where
  "https_of uri = (if starts_with uri (U ''http://'') then U ''https://'' @ drop (length (U ''http://'')) uri else uri)"

definition preferred_identity :: "general_name list \<Rightarrow> pystr option \<Rightarrow> pystr + pystr option" where
  "preferred_identity names dns_name =
     (case find is_web_uri names of
        Some name \<Rightarrow> Inl (https_of (name_text name))
      | None \<Rightarrow> Inr (case dns_name of Some d \<Rightarrow> Some d | None \<Rightarrow> map_option name_text (find is_plain_dns names)))"

lemma decode_ascii_name: "ascii_name name \<Longrightarrow> decode_ascii (gn_contents name) = Inr (name_text name)"
  by (auto simp: decode_ascii_def ascii_name_def name_text_def not_le [symmetric])

lemma scan_names_preferred:
  "\<forall>name\<in>set names. ascii_name name \<Longrightarrow> scan_names (map Inr names) dns_name = Inr (preferred_identity names dns_name)"
proof (induction names arbitrary: dns_name)
  case (Cons name names)
  then have "ascii_name name" and IH: "\<And>d. scan_names (map Inr names) d = Inr (preferred_identity names d)" by auto
  then show ?case
    by (cases dns_name) (auto simp: preferred_identity_def is_web_uri_def is_plain_dns_def https_of_def decode_ascii_name split: option.split)
qed (simp add: preferred_identity_def split: option.split)

lemma b64_keys_inject:
  "map (\<lambda>c. JStr (b64encode False c)) xs = map (\<lambda>c. JStr (b64encode False c)) ys \<longleftrightarrow> xs = ys"
proof -
  have "inj (\<lambda>c. JStr (b64encode False c))" by (rule injI) (simp add: b64encode_inject)
  then show ?thesis by (simp add: inj_map_eq_map)
qed

lemma build_authzen_request_Inr:
  "build_authzen_request E doc role = Inr payload \<Longrightarrow>
    \<exists>leaf rest issuer_id. issuer_x5chain doc = leaf # rest \<and> mdoc_issuer_id E leaf = Inr issuer_id \<and>
      payload = authzen_payload issuer_id (issuer_x5chain doc) role (pd_doc_type doc)"
  by (auto simp: build_authzen_request_def ebind_eq_Inr split: list.splits)

lemma authzen_payload_inject:
  "authzen_payload i c r d = authzen_payload i' c' r' d' \<longleftrightarrow> i = i' \<and> c = c' \<and> r = r' \<and> d = d'"
  by (auto simp: authzen_payload_def b64_keys_inject)

text \<open>The body that is posted for a document.\<close>

definition authzen_body :: "trust_env \<Rightarrow> parsed_document \<Rightarrow> pystr \<Rightarrow> exn + bytes" where
  "authzen_body E doc role =
     ebind (build_authzen_request E doc role) (\<lambda>payload. ebind (json_compact payload) utf8_encode)"

lemma plain_authzen_payload: "plain_json (authzen_payload issuer_id chain role doc_type)"
  by (auto simp: authzen_payload_def U_def)

lemma json_depth_authzen_payload: "json_depth (authzen_payload issuer_id chain role doc_type) \<le> 4"
proof -
  have "foldr (\<lambda>x. max (json_depth x)) (map (\<lambda>c. JStr (b64encode False c)) chain) 0 = 0"
    by (induction chain) auto
  then show ?thesis by (simp add: authzen_payload_def)
qed

lemma authzen_body_reads_back:
  assumes "authzen_body E doc role = Inr body" "builds_dicts H" "4 \<le> d"
  shows "\<exists>payload. build_authzen_request E doc role = Inr payload \<and> json_loads H d body = Inr (obj_of payload)"
proof -
  from assms(1) obtain payload t where p: "build_authzen_request E doc role = Inr payload"
      "json_compact payload = Inr t" "utf8_encode t = Inr body"
    by (auto simp: authzen_body_def ebind_inv)
  from build_authzen_request_Inr [OF p(1)] obtain issuer_id chain
    where "payload = authzen_payload issuer_id chain role (pd_doc_type doc)" by blast
  then have "plain_json payload" "json_depth payload \<le> d"
    using plain_authzen_payload json_depth_authzen_payload [of issuer_id chain role "pd_doc_type doc"] assms(3) by auto
  with assms(2) p(2) have "json_decode H d t = Inr (obj_of payload)"
    unfolding json_compact_def by (intro json_decode_write)
  with p(1) utf8_decode_encode [OF p(3)] show ?thesis by (simp add: json_loads_def)
qed

lemma pdp_hooks_build_dicts: "builds_dicts (pdp_hooks E)"
  by (simp add: builds_dicts_def pdp_hooks_def reject_duplicate_members_Inr)

lemma obj_of_authzen_payload:
  "obj_of (authzen_payload i c r d) = obj_of (authzen_payload i' c' r' d') \<longleftrightarrow> i = i' \<and> c = c' \<and> r = r' \<and> d = d'"
proof -
  have "inj (\<lambda>c. PStr (b64encode False c))" by (rule injI) (simp add: b64encode_inject)
  then have "map (obj_of \<circ> (\<lambda>c. JStr (b64encode False c))) xs = map (obj_of \<circ> (\<lambda>c. JStr (b64encode False c))) ys \<longleftrightarrow> xs = ys" for xs ys
    by (simp add: inj_map_eq_map o_def)
  then show ?thesis by (auto simp: authzen_payload_def)
qed

section \<open>Properties\<close>

text \<open>
  C4: \<open>authorize_documents\<close> returns normally exactly when every document, in order, was posted
  as its own request and answered by an explicit permit: an allowed URL (HTTPS, or HTTP on a
  loopback host), a clean token, a 2xx response of at most 1 MiB that parses, with duplicate
  members refused, to an object whose \<open>decision\<close> is the boolean true.  Each document is
  judged by its own post, so no answer is reused.
\<close>

theorem authorize_documents_explicit_permits:
  "authorize_documents E attempt documents url role token = Inr () \<longleftrightarrow>
    (\<forall>i<length documents. \<exists>payload. build_authzen_request E (documents ! i) role = Inr payload \<and>
       explicit_permit E (attempt + i) payload url token)"
  by (rule authorize_documents_Inr)

text \<open>
  C18: the bytes posted to the decision point determine the evidence they are about: they are the
  JSON text of the request, so a decoder reads the request back, and if the same bytes are
  posted for two documents (with any roles), these have the same certificate chain, the same role
  and the same document type.
\<close>

theorem authzen_request_binds_evidence:
  assumes "authzen_body E doc role = Inr body" and "authzen_body E' doc' role' = Inr body"
  shows "issuer_x5chain doc = issuer_x5chain doc' \<and> role = role' \<and> pd_doc_type doc = pd_doc_type doc' \<and>
    (\<exists>payload. build_authzen_request E doc role = Inr payload \<and> json_loads (pdp_hooks E) 4 body = Inr (obj_of payload))"
proof -
  note reads = authzen_body_reads_back [OF _ pdp_hooks_build_dicts [of E] order_refl]
  from reads [OF assms(1)] reads [OF assms(2)] obtain p p'
    where p: "build_authzen_request E doc role = Inr p" "json_loads (pdp_hooks E) 4 body = Inr (obj_of p)"
      and p': "build_authzen_request E' doc' role' = Inr p'" "json_loads (pdp_hooks E) 4 body = Inr (obj_of p')"
    by blast
  then have "obj_of p = obj_of p'" by simp
  with build_authzen_request_Inr [OF p(1)] build_authzen_request_Inr [OF p'(1)]
  have "issuer_x5chain doc = issuer_x5chain doc' \<and> role = role' \<and> pd_doc_type doc = pd_doc_type doc'"
    using obj_of_authzen_payload by metis
  with p show ?thesis by blast
qed

text \<open>
  C19: the identity taken from the first subject-alternative-name extension prefers a web URI
  anywhere in the list over every DNS name, upgrades it to HTTPS, and otherwise takes the
  first DNS name that is not a wildcard; without either, the search moves on to the next
  extension.
\<close>

theorem issuer_identity_preference:
  assumes "ext_id extension = U ''2.5.29.17''"
    and "validate_der_encoding (recursion_limit E) (ext_value extension) = Inr ()"
    and "asn1_general_names E (ext_value extension) = Inr (Inr (ext_value extension), map Inr names)"
    and "\<forall>name\<in>set names. ascii_name name"
  shows "scan_extensions E leaf_der (Inr extension # rest) =
    (case find is_web_uri names of
       Some name \<Rightarrow> Inr (https_of (name_text name))
     | None \<Rightarrow> (case find is_plain_dns names of
         Some name \<Rightarrow> Inr (U ''https://'' @ name_text name)
       | None \<Rightarrow> scan_extensions E leaf_der rest))"
  using assms by (simp add: san_identity_def scan_names_preferred preferred_identity_def split: option.split)

text \<open>
  C20: a plain HTTP decision point with user information, host and port is accepted exactly when the
  host itself is a loopback name: nothing in the user information, the port or the path can make
  another host pass for it.
\<close>

theorem plain_http_only_to_loopback:
  assumes "\<forall>c\<in>set userinfo. plain_char c" "\<forall>c\<in>set host. plain_char c \<and> c \<notin> {37, 58, 64}" "host \<noteq> []"
    and "\<forall>c\<in>set port. is_digit c" "port_ok port" "path = [] \<or> ends_netloc (hd path)"
  shows "validate_pdp_url E (U ''http://'' @ userinfo @ 64 # host @ 58 # port @ path) = Inr () \<longleftrightarrow>
    lower_ascii host = U ''127.0.0.1'' \<or> lower_ascii host = U ''localhost''"
proof -
  have "lower_ascii host \<noteq> U ''::1''"
  proof
    assume "lower_ascii host = U ''::1''"
    then have "hd (lower_ascii host) = 58" by (simp add: U_def)
    with assms(3) have "hd host = 58 \<or> hd host = 26" by (cases host) (auto simp: lower_ascii_def split: if_splits)
    with assms(2,3) show False by (cases host) (auto simp: plain_char_def)
  qed
  moreover have "lower_ascii host \<noteq> []" using assms(3) by (simp add: lower_ascii_def)
  moreover have "U ''http'' \<noteq> U ''https''" by (simp add: U_def)
  ultimately show ?thesis
    by (simp add: validate_pdp_url_Inr split_plain_http_url [OF assms] url_allowed_def LOOPBACK_HOSTS_def)
qed

section \<open>Concrete instances\<close>

text \<open>
  A decision point that permits the first two posts and then denies, and a leaf certificate with
  one subject-alternative-name extension that holds a DNS name and a URI.
\<close>

definition demo_san :: extension where
  "demo_san = \<lparr>ext_id = U ''2.5.29.17'', ext_value = [48, 2, 130, 0]\<rparr>"

definition demo_names :: "general_name list" where
  "demo_names = [\<lparr>gn_name = U ''dns_name'', gn_contents = map of_nat (U ''a.org'')\<rparr>,
     \<lparr>gn_name = U ''uniform_resource_identifier'', gn_contents = map of_nat (U ''http://b.org'')\<rparr>]"

definition demo_answer :: "bool \<Rightarrow> bytes" where
  \<open>demo_answer permit = map of_nat (U ''{"decision": '' @ (if permit then U ''true}'' else U ''false}''))\<close>

definition demo_env :: trust_env where
  "demo_env = \<lparr>recursion_limit = 100,
     asn1_extensions = (\<lambda>der. Inr [Inr demo_san]),
     asn1_general_names = (\<lambda>der. Inr (Inr der, map Inr demo_names)),
     netloc_ok = (\<lambda>netloc. True),
     http_post = (\<lambda>attempt url body headers. Inr \<lparr>http_status = 200, http_content_length = None,
       http_read = (\<lambda>i n. Inr (if i = 0 then demo_answer (attempt < 2) else []))\<rparr>),
     json_recursion_limit = 50, float_of_text = (\<lambda>t. POther 0 True None)\<rparr>"

definition demo_document :: "bytes \<Rightarrow> parsed_document" where
  "demo_document leaf = \<lparr>pd_doc_type = U ''mdl'', pd_namespaces = [],
     pd_issuer_auth = Some \<lparr>ia_alg = None, ia_alg_name = [], ia_certificates = [], ia_mso = None,
       ia_signature_valid = None, ia_x5chain_der = [leaf]\<rparr>,
     pd_device_namespaces = PNone, pd_device_auth_type = PNone, pd_errors = PNone, pd_device_auth_cbor = PNone,
     pd_device_namespaces_raw = None, pd_device_auth_valid = None\<rparr>"

theorem authorize_documents_explicit_permits_witness:
  "(\<exists>payload. build_authzen_request demo_env (demo_document [48, 0]) (U ''pid-provider'') = Inr payload \<and>
      explicit_permit demo_env 1 payload (U ''https://pdp'') None) \<and>
   authorize_documents demo_env 0 (replicate 3 (demo_document [48, 0])) (U ''https://pdp'') (U ''pid-provider'') None \<noteq> Inr ()"
proof
  let ?docs = "replicate 2 (demo_document [48, 0])"
  have "authorize_documents demo_env 0 ?docs (U ''https://pdp'') (U ''pid-provider'') None = Inr ()" by code_simp
  from this [unfolded authorize_documents_explicit_permits]
  have "\<forall>i<2. \<exists>payload. build_authzen_request demo_env (?docs ! i) (U ''pid-provider'') = Inr payload \<and>
      explicit_permit demo_env (0 + i) payload (U ''https://pdp'') None" by simp
  from spec [OF this, of 1]
  show "\<exists>payload. build_authzen_request demo_env (demo_document [48, 0]) (U ''pid-provider'') = Inr payload \<and>
      explicit_permit demo_env 1 payload (U ''https://pdp'') None" by simp
qed code_simp

theorem authzen_request_binds_evidence_witness:
  "\<exists>body payload. authzen_body demo_env (demo_document [48, 0]) (U ''r'') = Inr body \<and>
    json_loads (pdp_hooks demo_env) 4 body = Inr (obj_of payload)"
proof -
  have "\<not> isl (authzen_body demo_env (demo_document [48, 0]) (U ''r''))" by code_simp
  then obtain body where b: "authzen_body demo_env (demo_document [48, 0]) (U ''r'') = Inr body"
    by (cases "authzen_body demo_env (demo_document [48, 0]) (U ''r'')") auto
  from authzen_request_binds_evidence [OF b b] b show ?thesis by blast
qed

theorem plain_http_only_to_loopback_witness:
  "validate_pdp_url demo_env (U ''http://localhost@evil.org:80/127.0.0.1'') \<noteq> Inr () \<and>
   validate_pdp_url demo_env (U ''http://evil.org@LocalHost:8080'') = Inr ()"
proof
  have "\<forall>c\<in>set (U ''localhost''). plain_char c" "\<forall>c\<in>set (U ''evil.org''). plain_char c \<and> c \<notin> {37, 58, 64}"
    "U ''evil.org'' \<noteq> []" "\<forall>c\<in>set (U ''80''). is_digit c" "port_ok (U ''80'')"
    "U ''/127.0.0.1'' = [] \<or> ends_netloc (hd (U ''/127.0.0.1''))"
    by code_simp+
  from plain_http_only_to_loopback [OF this, of demo_env]
  show "validate_pdp_url demo_env (U ''http://localhost@evil.org:80/127.0.0.1'') \<noteq> Inr ()"
    by (simp add: U_def lower_ascii_def)
qed code_simp

theorem issuer_identity_preference_witness:
  "scan_extensions demo_env [48, 0] [Inr demo_san] = Inr (U ''https://b.org'')"
proof -
  have "ext_id demo_san = U ''2.5.29.17''"
    "validate_der_encoding (recursion_limit demo_env) (ext_value demo_san) = Inr ()"
    by code_simp+
  moreover have "\<forall>name\<in>set demo_names. ascii_name name" by code_simp
  moreover have "asn1_general_names demo_env (ext_value demo_san) = Inr (Inr (ext_value demo_san), map Inr demo_names)"
    by (simp add: demo_env_def)
  ultimately have "scan_extensions demo_env [48, 0] [Inr demo_san] =
    (case find is_web_uri demo_names of
       Some name \<Rightarrow> Inr (https_of (name_text name))
     | None \<Rightarrow> (case find is_plain_dns demo_names of
         Some name \<Rightarrow> Inr (U ''https://'' @ name_text name)
       | None \<Rightarrow> scan_extensions demo_env [48, 0] []))"
    by (intro issuer_identity_preference)
  also have "\<dots> = Inr (U ''https://b.org'')" by code_simp
  finally show ?thesis .
qed

end
