(* ===== verification/Ble_Framing.thy ===== *)
theory Ble_Framing
  imports Py_Object
begin

text \<open>
  The pure wire framing of \<open>ble.py\<close>: the chunk size a negotiated MTU allows, splitting a
  message into prefixed chunks, and the \<open>Reassembler\<close>.  Both transports (\<open>ble.py\<close> and
  \<open>ble_peripheral.py\<close>) rely on it only through the locale \<open>framing\<close>: a split message is
  received as exactly that message, and no proper prefix of its chunks completes one.
\<close>

section \<open>Chunking\<close>

definition MIN_CHUNK_SIZE :: int where "MIN_CHUNK_SIZE = 20"
definition MAX_CHUNK_SIZE :: int where "MAX_CHUNK_SIZE = 512"

definition negotiate_chunk_size :: "int \<Rightarrow> int" where
  "negotiate_chunk_size mtu_size = min (max (mtu_size - 3) MIN_CHUNK_SIZE) MAX_CHUNK_SIZE"

definition slice :: "'a list \<Rightarrow> nat \<Rightarrow> nat \<Rightarrow> 'a list" where
  "slice xs i j = take (j - i) (drop i xs)"

text \<open>
  The \<open>while offset < len(message)\<close> loop.  A zero payload size would make the source loop
  for ever; \<open>chunk_message\<close> has rejected it before the loop is entered, so the guard
  \<open>0 < payload_size\<close> only makes the recursion well-founded.
\<close>

function chunk_loop :: "bytes \<Rightarrow> nat \<Rightarrow> nat \<Rightarrow> bytes list" where
  "chunk_loop message payload_size offset =
     (if offset < length message \<and> 0 < payload_size then
        let end = min (offset + payload_size) (length message);
            is_last = (end = length message)
        in ((if is_last then 0 else 1) # slice message offset end) # chunk_loop message payload_size end
      else [])"
  by pat_completeness auto
termination
  by (relation "measure (\<lambda>(message, payload_size, offset). length message - offset)") (auto simp: min_def)

declare chunk_loop.simps [simp del]

definition chunk_message :: "bytes \<Rightarrow> int \<Rightarrow> exn + bytes list" where
  "chunk_message message max_chunk_size =
     (if max_chunk_size \<le> 1 then Inl (ValueError ''max_chunk_size must allow at least 1 payload byte'')
      else let payload_size = nat (max_chunk_size - 1)
           in if message = [] then Inr [[0]] else Inr (chunk_loop message payload_size 0))"

section \<open>Reassembly\<close>

record reassembler =
  buffer :: bytes

definition Reassembler :: reassembler where
  "Reassembler = \<lparr>buffer = []\<rparr>"

text \<open>\<open>feed\<close> reads \<open>chunk[0]\<close> first, so an empty chunk raises and leaves the buffer alone.\<close>

fun feed :: "reassembler \<Rightarrow> bytes \<Rightarrow> exn + (bytes option \<times> reassembler)" where
  "feed r [] = Inl IndexError"
| "feed r (b # rest) =
     (let is_last = (b = 0); buf = buffer r @ rest
      in if \<not> is_last then Inr (None, r\<lparr>buffer := buf\<rparr>)
         else Inr (Some buf, r\<lparr>buffer := []\<rparr>))"

text \<open>A sequence of arriving chunks, with the messages completed on the way.\<close>

fun receive :: "('r \<Rightarrow> bytes \<Rightarrow> exn + (bytes option \<times> 'r)) \<Rightarrow> 'r \<Rightarrow> bytes list \<Rightarrow> exn + (bytes list \<times> 'r)" where
  "receive rx r [] = Inr ([], r)"
| "receive rx r (c # cs) =
     ebind (rx r c) (\<lambda>(msg, r'). ebind (receive rx r' cs) (\<lambda>(ms, r'').
       Inr (case msg of None \<Rightarrow> ms | Some m \<Rightarrow> m # ms, r'')))"

lemma receive_append:
  "receive rx r (cs @ ds) =
     ebind (receive rx r cs) (\<lambda>(ms, r'). ebind (receive rx r' ds) (\<lambda>(ms', r''). Inr (ms @ ms', r'')))"
proof (induction cs arbitrary: r)
  case (Cons c cs)
  show ?case
  proof (cases "rx r c")
    case (Inr p)
    then show ?thesis
      by (cases p; cases "receive rx (snd p) cs"; cases "fst p")
        (auto simp: Cons.IH ebind_def split: sum.splits)
  qed simp
qed (auto simp: ebind_def split: sum.splits)

section \<open>The framing interface\<close>

locale framing =
  fixes split :: "bytes \<Rightarrow> exn + bytes list"
    and rx :: "'r \<Rightarrow> bytes \<Rightarrow> exn + (bytes option \<times> 'r)"
    and idle :: 'r
  assumes split_total: "\<exists>cs. split m = Inr cs"
    and receive_split: "split m = Inr cs \<Longrightarrow> receive rx idle cs = Inr ([m], idle)"
    and receive_prefix: "split m = Inr cs \<Longrightarrow> k < length cs \<Longrightarrow> \<exists>r. receive rx idle (take k cs) = Inr ([], r)"
begin

lemma split_nonempty: "split m = Inr cs \<Longrightarrow> cs \<noteq> []"
  using receive_split [of m cs] by auto

lemma split_inject: "split m = Inr cs \<Longrightarrow> split m' = Inr cs \<Longrightarrow> m = m'"
  using receive_split [of m cs] receive_split [of m' cs] by simp

text \<open>Messages sent one after the other are received in order and whole.\<close>

lemma receive_stream: "emap split ms = Inr css \<Longrightarrow> receive rx idle (concat css) = Inr (ms, idle)"
proof (induction ms arbitrary: css)
  case (Cons m ms)
  then show ?case
    by (auto simp: ebind_inv receive_append receive_split)
qed simp

text \<open>A transfer that stops before its last chunk never completes a message.\<close>

lemma receive_truncated:
  assumes "emap split ms = Inr css" "split m = Inr cs" "k < length cs"
  shows "\<exists>r. receive rx idle (concat css @ take k cs) = Inr (ms, r)"
  using receive_stream [OF assms(1)] receive_prefix [OF assms(2,3)]
  by (auto simp: receive_append)

end

text \<open>
  An \<open>asyncio.Future\<close> as the transports use it; waiting for it with a timeout that expires
  cancels it.  \<open>resolve\<close> is \<open>if message is not None and not future.done(): set_result(message)\<close>.
\<close>

datatype 'a future = Pending | Resolved 'a | Cancelled

fun resolve :: "'a future \<Rightarrow> 'a option \<Rightarrow> 'a future" where
  "resolve Pending (Some m) = Resolved m"
| "resolve f _ = f"

lemma resolve_done [simp]: "f \<noteq> Pending \<Longrightarrow> resolve f msg = f"
  by (cases f) auto

lemma resolve_None [simp]: "resolve f None = f"
  by (cases f) auto

text \<open>
  A collector is the callback part of a transport: it feeds each arriving chunk to the
  receiver and resolves a future with the first message, ignoring later ones; a chunk the
  receiver rejects (the exception is raised inside the callback) changes nothing.
\<close>

locale collector = framing split rx idle
  for split :: "bytes \<Rightarrow> exn + bytes list"
    and rx :: "'r \<Rightarrow> bytes \<Rightarrow> exn + (bytes option \<times> 'r)"
    and idle :: 'r +
  fixes deliver :: "'s \<Rightarrow> bytes \<Rightarrow> 's"
    and rx_of :: "'s \<Rightarrow> 'r"
    and future :: "'s \<Rightarrow> bytes future"
  assumes deliver_accept: "rx (rx_of s) c = Inr (msg, r') \<Longrightarrow>
      rx_of (deliver s c) = r' \<and> future (deliver s c) = resolve (future s) msg"
    and deliver_reject: "rx (rx_of s) c = Inl e \<Longrightarrow>
      rx_of (deliver s c) = rx_of s \<and> future (deliver s c) = future s"
begin

lemma deliver_done: "future s \<noteq> Pending \<Longrightarrow> future (deliver s c) = future s"
  by (cases "rx (rx_of s) c") (auto simp: deliver_accept deliver_reject)

lemma deliver_all_done: "future s \<noteq> Pending \<Longrightarrow> future (foldl deliver s cs) = future s"
  by (induction cs arbitrary: s) (simp_all add: deliver_done)

lemma deliver_all_receive:
  "receive rx (rx_of s) cs = Inr (ms, r) \<Longrightarrow>
    rx_of (foldl deliver s cs) = r \<and>
    future (foldl deliver s cs) = resolve (future s) (case ms of [] \<Rightarrow> None | m # _ \<Rightarrow> Some m)"
proof (induction cs arbitrary: s ms)
  case (Cons c cs)
  then obtain msg r' ms' where step: "rx (rx_of s) c = Inr (msg, r')"
    and rest: "receive rx r' cs = Inr (ms', r)"
    and ms: "ms = (case msg of None \<Rightarrow> ms' | Some m \<Rightarrow> m # ms')"
    by (auto simp: ebind_inv split: prod.splits)
  show ?case
    using Cons.IH [of "deliver s c" ms'] step rest ms
    by (cases "future s"; cases msg) (auto simp: deliver_accept)
qed simp

text \<open>
  Once the sender has delivered all chunks of a message to an idle collector, the future
  holds that message, whatever arrives afterwards.
\<close>

lemma first_message_wins:
  assumes "rx_of s = idle" "future s = Pending" "split m = Inr cs"
  shows "future (foldl deliver s (cs @ ds)) = Resolved m"
proof -
  have "future (foldl deliver s cs) = Resolved m"
    using deliver_all_receive [of s cs "[m]" idle] receive_split [OF assms(3)] assms(1,2) by simp
  then show ?thesis by (simp add: deliver_all_done)
qed

lemma no_message_from_prefix:
  assumes "rx_of s = idle" "future s = Pending" "split m = Inr cs" "k < length cs"
  shows "future (foldl deliver s (take k cs)) = Pending"
  using receive_prefix [OF assms(3,4)] deliver_all_receive [of s "take k cs" "[]"] assms(1,2) by auto

end

section \<open>The code's framing satisfies it\<close>

lemma negotiate_chunk_size_range: "MIN_CHUNK_SIZE \<le> negotiate_chunk_size mtu \<and> negotiate_chunk_size mtu \<le> MAX_CHUNK_SIZE"
  by (simp add: negotiate_chunk_size_def MIN_CHUNK_SIZE_def MAX_CHUNK_SIZE_def)

lemma negotiate_chunk_size_gt1 [simp]: "1 < negotiate_chunk_size mtu"
  using negotiate_chunk_size_range [of mtu] by (simp add: MIN_CHUNK_SIZE_def)

lemma negotiate_chunk_size_not_le1 [simp]: "negotiate_chunk_size mtu \<le> 1 \<longleftrightarrow> False"
  by (metis negotiate_chunk_size_gt1 not_le)

lemma MIN_CHUNK_SIZE_gt1 [simp]: "1 < MIN_CHUNK_SIZE"
  by (simp add: MIN_CHUNK_SIZE_def)

lemma slice_append_drop: "i \<le> j \<Longrightarrow> slice xs i j @ drop j xs = drop i xs"
  unfolding slice_def by (metis append_take_drop_id drop_drop le_add_diff_inverse2)

lemma length_slice: "j \<le> length xs \<Longrightarrow> length (slice xs i j) = j - i"
  by (simp add: slice_def)

text \<open>One turn of the loop, in the two shapes it has.\<close>

lemma chunk_loop_last [frame_simps]:
  "offset < length m \<Longrightarrow> length m \<le> offset + p \<Longrightarrow> chunk_loop m p offset = [0 # drop offset m]"
  by (subst chunk_loop.simps)
    (auto simp: Let_def min_def slice_def chunk_loop.simps [of m p "length m"])

lemma chunk_loop_more [frame_simps]:
  "0 < p \<Longrightarrow> offset + p < length m \<Longrightarrow>
    chunk_loop m p offset = (1 # slice m offset (offset + p)) # chunk_loop m p (offset + p)"
  by (subst chunk_loop.simps) (simp add: Let_def min_def)

lemma chunk_loop_induct [consumes 2, case_names last more]:
  assumes "offset < length m" "0 < p"
    and last: "\<And>offset. offset < length m \<Longrightarrow> length m \<le> offset + p \<Longrightarrow> P offset"
    and more: "\<And>offset. offset + p < length m \<Longrightarrow> P (offset + p) \<Longrightarrow> P offset"
  shows "P offset"
  using assms(1)
proof (induction "length m - offset" arbitrary: offset rule: less_induct)
  case less
  show ?case
  proof (cases "length m \<le> offset + p")
    case True
    with less.prems show ?thesis by (rule last)
  next
    case False
    then have step: "offset + p < length m" by simp
    moreover have "length m - (offset + p) < length m - offset"
      using less.prems \<open>0 < p\<close> by linarith
    ultimately have "P (offset + p)" by (rule less.hyps [rotated])
    with step show ?thesis by (rule more)
  qed
qed

lemma receive_chunk_loop:
  assumes "offset < length m" "0 < p"
  shows "receive feed r (chunk_loop m p offset) = Inr ([buffer r @ drop offset m], r\<lparr>buffer := []\<rparr>)"
  using assms
proof (induction arbitrary: r rule: chunk_loop_induct)
  case (last offset)
  then show ?case by (simp add: frame_simps Let_def)
next
  case (more offset)
  from more show ?case
    using \<open>0 < p\<close> slice_append_drop [of offset "offset + p" m]
    by (simp add: frame_simps Let_def)
qed

lemma receive_chunk_loop_prefix:
  assumes "offset < length m" "0 < p" "k < length (chunk_loop m p offset)"
  shows "\<exists>r'. receive feed r (take k (chunk_loop m p offset)) = Inr ([], r')"
  using assms
proof (induction arbitrary: r k rule: chunk_loop_induct)
  case (last offset)
  then show ?case by (simp add: frame_simps)
next
  case (more offset)
  show ?case
  proof (cases k)
    case (Suc j)
    with more.prems more.hyps \<open>0 < p\<close> have "j < length (chunk_loop m p (offset + p))"
      by (simp add: frame_simps)
    from more.IH [OF this, of "r\<lparr>buffer := buffer r @ slice m offset (offset + p)\<rparr>"]
    show ?thesis using more.hyps \<open>0 < p\<close> Suc
      by (auto simp: frame_simps Let_def)
  qed simp
qed

lemma chunk_message_framing:
  assumes "1 < max_chunk_size"
  shows "framing (\<lambda>m. chunk_message m max_chunk_size) feed Reassembler"
proof
  fix m
  show "\<exists>cs. chunk_message m max_chunk_size = Inr cs"
    using assms by (simp add: chunk_message_def Let_def)
next
  fix m cs assume "chunk_message m max_chunk_size = Inr cs"
  then show "receive feed Reassembler cs = Inr ([m], Reassembler)"
    using assms receive_chunk_loop [of 0 m "nat (max_chunk_size - 1)" Reassembler]
    by (auto simp: chunk_message_def Let_def Reassembler_def split: if_splits)
next
  fix m cs k assume *: "chunk_message m max_chunk_size = Inr cs" "k < length cs"
  show "\<exists>r. receive feed Reassembler (take k cs) = Inr ([], r)"
  proof (cases "m = []")
    case True
    with * assms show ?thesis by (auto simp: chunk_message_def Let_def)
  next
    case False
    with * assms have "cs = chunk_loop m (nat (max_chunk_size - 1)) 0"
      by (simp add: chunk_message_def Let_def)
    with * False assms show ?thesis
      using receive_chunk_loop_prefix [of 0 m "nat (max_chunk_size - 1)" k Reassembler] by simp
  qed
qed

text \<open>The two link layers the program drives: the negotiated size and the fixed one.\<close>

interpretation central_link: framing "\<lambda>m. chunk_message m (negotiate_chunk_size mtu)" feed Reassembler
  for mtu
  by (rule chunk_message_framing) simp

interpretation peripheral_link: framing "\<lambda>m. chunk_message m MIN_CHUNK_SIZE" feed Reassembler
  by (rule chunk_message_framing) simp

section \<open>Shape of the chunks\<close>

lemma chunk_loop_length:
  assumes "offset < length m" "0 < p"
  shows "length (chunk_loop m p offset) = (length m - offset + p - 1) div p"
  using assms
proof (induction rule: chunk_loop_induct)
  case (last offset)
  then have "(length m - offset + p - 1) div p = 1"
    by (intro div_nat_eqI) (use \<open>0 < p\<close> in auto)
  with last show ?case by (simp add: frame_simps)
next
  case (more offset)
  have "length m - offset + p - 1 = (length m - (offset + p) + p - 1) + p"
    using more.hyps \<open>0 < p\<close> by linarith
  then have "(length m - offset + p - 1) div p = Suc ((length m - (offset + p) + p - 1) div p)"
    using \<open>0 < p\<close> by (simp only: div_add_self2)
  with more \<open>0 < p\<close> show ?case by (simp add: frame_simps)
qed

lemma chunk_loop_shape:
  assumes "offset < length m" "0 < p"
  shows "\<exists>init lst. chunk_loop m p offset = init @ [0 # lst] \<and> lst \<noteq> [] \<and> length lst \<le> p \<and>
    (\<forall>c\<in>set init. \<exists>d. c = 1 # d \<and> length d = p)"
  using assms
proof (induction rule: chunk_loop_induct)
  case (last offset)
  then show ?case
    by (intro exI [of _ "[]"] exI [of _ "drop offset m"]) (simp add: frame_simps)
next
  case (more offset)
  then obtain init lst where *: "chunk_loop m p (offset + p) = init @ [0 # lst]"
    "lst \<noteq> []" "length lst \<le> p" "\<forall>c\<in>set init. \<exists>d. c = 1 # d \<and> length d = p"
    by blast
  with more.hyps \<open>0 < p\<close> show ?case
    by (intro exI [of _ "(1 # slice m offset (offset + p)) # init"] exI [of _ lst])
      (simp add: frame_simps length_slice)
qed

section \<open>Items both transports share\<close>

definition STATE_START :: bytes where "STATE_START = [1]"
definition STATE_END :: bytes where "STATE_END = [2]"

record exchange_result =
  session_data_bytes :: bytes
  negotiated_mtu :: int
  chunk_size :: int
  device_address :: string

text \<open>
  What a stream of notifications says, independently of the callback: the payloads up to and
  including the first chunk marked as last; empty notifications count for nothing.
\<close>

fun first_message :: "bytes \<Rightarrow> bytes list \<Rightarrow> bytes option" where
  "first_message buf [] = None"
| "first_message buf ([] # cs) = first_message buf cs"
| "first_message buf ((b # d) # cs) = (if b = 0 then Some (buf @ d) else first_message (buf @ d) cs)"

text \<open>A collector built on the code's own \<open>Reassembler\<close> computes exactly that.\<close>

locale gatt_collector = collector split feed Reassembler deliver rx_of future
  for split :: "bytes \<Rightarrow> exn + bytes list"
    and deliver :: "'s \<Rightarrow> bytes \<Rightarrow> 's"
    and rx_of :: "'s \<Rightarrow> reassembler"
    and future :: "'s \<Rightarrow> bytes future"
begin

lemma deliver_all_first:
  "future s = Pending \<Longrightarrow>
    future (foldl deliver s cs) = resolve Pending (first_message (buffer (rx_of s)) cs)"
proof (induction cs arbitrary: s)
  case (Cons d cs)
  show ?case
  proof (cases d)
    case Nil
    with Cons show ?thesis using deliver_reject [of s d IndexError] by simp
  next
    case (Cons b rest)
    with Cons.prems show ?thesis
      using Cons.IH [of "deliver s d"] deliver_all_done [of "deliver s d" cs]
      by (cases "b = 0") (auto simp: deliver_accept Let_def)
  qed
qed simp

end

section \<open>Properties\<close>

text \<open>
  C10: splitting messages with any admissible chunk size and feeding all the chunks, in order,
  to one \<open>Reassembler\<close> gives back exactly those messages and leaves its buffer empty.
\<close>

theorem framing_roundtrip:
  assumes "1 < max_chunk_size"
  shows "\<exists>css. emap (\<lambda>m. chunk_message m max_chunk_size) ms = Inr css \<and>
    receive feed Reassembler (concat css) = Inr (ms, Reassembler)"
proof -
  have "\<exists>css. emap (\<lambda>m. chunk_message m max_chunk_size) ms = Inr css"
    using assms by (induction ms) (auto simp: chunk_message_def Let_def)
  then show ?thesis
    using framing.receive_stream [OF chunk_message_framing [OF assms]] by blast
qed

theorem framing_roundtrip_witness:
  "\<exists>css. emap (\<lambda>m. chunk_message m 3) [[1, 2, 3, 4, 5], [], [9]] = Inr css \<and>
    receive feed Reassembler (concat css) = Inr ([[1, 2, 3, 4, 5], [], [9]], Reassembler)"
  by (rule framing_roundtrip) simp

text \<open>
  C27: with the chunk size negotiated from any MTU (even a nonsensical one), \<open>chunk_message\<close>
  never raises; it sends one chunk for an empty message and otherwise the least number of
  chunks the size allows; each chunk has a prefix byte and fits the negotiated size, which
  is at most 512; the last chunk, and no other, is marked with prefix 0.
\<close>

theorem chunk_message_shape:
  "\<exists>init lst. chunk_message m (negotiate_chunk_size mtu) = Inr (init @ [0 # lst]) \<and>
    length (init @ [0 # lst]) = max 1 ((length m + nat (negotiate_chunk_size mtu) - 2) div (nat (negotiate_chunk_size mtu) - 1)) \<and>
    int (length (0 # lst)) \<le> negotiate_chunk_size mtu \<and>
    (\<forall>c\<in>set init. hd c = 1 \<and> int (length c) = negotiate_chunk_size mtu) \<and>
    negotiate_chunk_size mtu \<le> 512"
proof -
  define p where "p = nat (negotiate_chunk_size mtu - 1)"
  have p: "0 < p" "nat (negotiate_chunk_size mtu) = Suc p" "negotiate_chunk_size mtu = int p + 1"
    unfolding p_def using negotiate_chunk_size_gt1 [of mtu] by linarith+
  have max: "negotiate_chunk_size mtu \<le> 512"
    using negotiate_chunk_size_range [of mtu] by (simp add: MAX_CHUNK_SIZE_def)
  show ?thesis
  proof (cases "m = []")
    case True
    with max p show ?thesis
      by (intro exI [of _ "[]"] exI [of _ "[]"]) (auto simp: chunk_message_def Let_def)
  next
    case False
    with p have cm: "chunk_message m (negotiate_chunk_size mtu) = Inr (chunk_loop m p 0)"
      by (simp add: chunk_message_def Let_def)
    obtain init lst where shape: "chunk_loop m p 0 = init @ [0 # lst]" "length lst \<le> p"
      "\<forall>c\<in>set init. \<exists>d. c = 1 # d \<and> length d = p"
      using chunk_loop_shape [of 0 m p] False p(1) by auto
    have "length (init @ [0 # lst]) = (length m + p - 1) div p"
      using chunk_loop_length [of 0 m p] shape(1) False p(1) by simp
    with cm shape p max show ?thesis
      by (intro exI [of _ init] exI [of _ lst]) (fastforce simp: max_def)
  qed
qed

theorem chunk_message_shape_witness:
  "negotiate_chunk_size 23 = 20 \<and> (\<exists>init lst. chunk_message (replicate 245 7) (negotiate_chunk_size 23) = Inr (init @ [0 # lst]) \<and>
    length (init @ [0 # lst]) = 13)"
  using chunk_message_shape [of "replicate 245 7" 23]
  by (auto simp: negotiate_chunk_size_def MIN_CHUNK_SIZE_def MAX_CHUNK_SIZE_def)

end
