(* ===== verification/Ble_Central.thy ===== *)
theory Ble_Central
  imports Ble_Framing
begin

text \<open>
  The GATT central role of \<open>ble.py\<close>.  \<open>exchange\<close> is a step relation: the coroutine's own
  progress (scan, connect, subscribe, write the chunks, wait, write STATE_END) interleaves
  with the notifications of the mdoc, which may arrive at any time after \<open>start_notify\<close>.
  The transport of \<open>fuzz\<close> (\<open>exchange_dropping_tail\<close>, \<open>connect_and_disconnect\<close>,
  \<open>rapid_reconnect_probe\<close>) follows as functions, since nothing is waited for there.

  Radio, clock and library are inputs: whether a device is found, the MTU, the notifications
  that arrive and the calls that raise are the choices of the relation.
\<close>

section \<open>State\<close>

definition STATE_UUID :: string where "STATE_UUID = ''00000001-a123-48ce-896b-4c76973373e6''"
definition CLIENT2SERVER_UUID :: string where "CLIENT2SERVER_UUID = ''00000002-a123-48ce-896b-4c76973373e6''"
definition SERVER2CLIENT_UUID :: string where "SERVER2CLIENT_UUID = ''00000003-a123-48ce-896b-4c76973373e6''"

text \<open>
  \<open>Closing r\<close> is the \<open>finally\<close> block: the wait has ended with \<open>r\<close> and STATE_END is being
  written.  \<open>Finished r\<close> is the coroutine's return value or the exception it raised.
\<close>

datatype phase =
    Scanning
  | Found
  | Connected
  | Subscribed
  | Sending
  | Waiting
  | Closing "exn + bytes"
  | Finished "exn + exchange_result"

record central =
  phase :: phase
  outbox :: "bytes list"
  writes :: "(string \<times> bytes) list"
  reassembler :: reassembler
  response_future :: "bytes future"
  seen :: "bytes list"

definition central_init :: central where
  "central_init = \<lparr>phase = Scanning, outbox = [], writes = [], reassembler = Reassembler,
     response_future = Pending, seen = []\<rparr>"

definition on_server2client :: "central \<Rightarrow> bytes \<Rightarrow> central" where
  "on_server2client c data =
     (case feed (reassembler c) data of
        Inl e \<Rightarrow> c
      | Inr (message, r) \<Rightarrow>
          c\<lparr>reassembler := r, response_future := resolve (response_future c) message\<rparr>)"

fun listening :: "phase \<Rightarrow> bool" where
  "listening Subscribed = True"
| "listening Sending = True"
| "listening Waiting = True"
| "listening (Closing _) = True"
| "listening _ = False"

definition write_gatt_char :: "string \<Rightarrow> bytes \<Rightarrow> central \<Rightarrow> central" where
  "write_gatt_char uuid data c = c\<lparr>writes := writes c @ [(uuid, data)]\<rparr>"

section \<open>exchange\<close>

text \<open>
  One rule per await of the coroutine and per way it can fail; \<open>se\<close> is
  \<open>session_establishment_bytes\<close>, \<open>mtu\<close> the negotiated MTU, \<open>addr\<close> the device address.
\<close>

inductive exchange_step :: "bytes \<Rightarrow> int \<Rightarrow> string \<Rightarrow> central \<Rightarrow> central \<Rightarrow> bool"
  for se :: bytes and mtu :: int and addr :: string
where
  scan_found: "phase c = Scanning \<Longrightarrow> exchange_step se mtu addr c (c\<lparr>phase := Found\<rparr>)"
| scan_none: "phase c = Scanning \<Longrightarrow>
    exchange_step se mtu addr c (c\<lparr>phase := Finished (Inl DeviceNotFoundError)\<rparr>)"
| connect: "phase c = Found \<Longrightarrow> exchange_step se mtu addr c (c\<lparr>phase := Connected\<rparr>)"
| start_notify: "phase c = Connected \<Longrightarrow> exchange_step se mtu addr c (c\<lparr>phase := Subscribed\<rparr>)"
| state_start: "phase c = Subscribed \<Longrightarrow> chunk_message se (negotiate_chunk_size mtu) = Inr chunks \<Longrightarrow>
    exchange_step se mtu addr c
      ((write_gatt_char STATE_UUID STATE_START c)\<lparr>phase := Sending, outbox := chunks\<rparr>)"
| send: "phase c = Sending \<Longrightarrow> outbox c = chunk # rest \<Longrightarrow>
    exchange_step se mtu addr c ((write_gatt_char CLIENT2SERVER_UUID chunk c)\<lparr>outbox := rest\<rparr>)"
| sent: "phase c = Sending \<Longrightarrow> outbox c = [] \<Longrightarrow> exchange_step se mtu addr c (c\<lparr>phase := Waiting\<rparr>)"
| call_fails: "phase c \<in> {Scanning, Found, Connected, Subscribed, Sending} \<Longrightarrow>
    exchange_step se mtu addr c (c\<lparr>phase := Finished (Inl e)\<rparr>)"
| notified: "listening (phase c) \<Longrightarrow>
    exchange_step se mtu addr c ((on_server2client c data)\<lparr>seen := seen c @ [data]\<rparr>)"
| response: "phase c = Waiting \<Longrightarrow> response_future c = Resolved m \<Longrightarrow>
    exchange_step se mtu addr c (c\<lparr>phase := Closing (Inr m)\<rparr>)"
| response_timeout: "phase c = Waiting \<Longrightarrow> response_future c = Pending \<Longrightarrow>
    exchange_step se mtu addr c (c\<lparr>phase := Closing (Inl TimeoutError), response_future := Cancelled\<rparr>)"
| state_end: "phase c = Closing r \<Longrightarrow>
    exchange_step se mtu addr c ((write_gatt_char STATE_UUID STATE_END c)\<lparr>phase := Finished
      (ebind r (\<lambda>m. Inr \<lparr>session_data_bytes = m, negotiated_mtu = mtu,
         chunk_size = negotiate_chunk_size mtu, device_address = addr\<rparr>))\<rparr>)"
| state_end_bleak_error: "phase c = Closing r \<Longrightarrow>
    exchange_step se mtu addr c (c\<lparr>phase := Finished
      (ebind r (\<lambda>m. Inr \<lparr>session_data_bytes = m, negotiated_mtu = mtu,
         chunk_size = negotiate_chunk_size mtu, device_address = addr\<rparr>))\<rparr>)"
| state_end_other_error: "phase c = Closing r \<Longrightarrow> e \<noteq> BleakError \<Longrightarrow>
    exchange_step se mtu addr c (c\<lparr>phase := Finished (Inl e)\<rparr>)"

inductive exchange_run :: "bytes \<Rightarrow> int \<Rightarrow> string \<Rightarrow> central \<Rightarrow> bool"
  for se :: bytes and mtu :: int and addr :: string
where
  init: "exchange_run se mtu addr central_init"
| step: "exchange_run se mtu addr c \<Longrightarrow> exchange_step se mtu addr c c' \<Longrightarrow> exchange_run se mtu addr c'"

inductive_cases exchange_stepE: "exchange_step se mtu addr c c'"

lemma exchange_finished_final: "phase c = Finished r \<Longrightarrow> \<not> exchange_step se mtu addr c c'"
  by (auto elim: exchange_stepE)

lemma exchange_progress: "(\<And>r. phase c \<noteq> Finished r) \<Longrightarrow> \<exists>c'. exchange_step se mtu addr c c'"
proof (cases "phase c")
  case Waiting
  then show ?thesis by (metis exchange_step.notified listening.simps(3))
qed (auto intro: exchange_step.intros)

section \<open>The callback is a collector\<close>

lemma on_server2client_collector:
  "1 < sz \<Longrightarrow> gatt_collector (\<lambda>m. chunk_message m sz) on_server2client reassembler response_future"
  by (auto intro!: gatt_collector.intro collector.intro chunk_message_framing
    simp: collector_axioms_def on_server2client_def)

interpretation central_collector: gatt_collector "\<lambda>m. chunk_message m (negotiate_chunk_size mtu)"
  on_server2client reassembler response_future
  for mtu
  by (rule on_server2client_collector) simp

lemma on_server2client_Nil [frame_simps]: "on_server2client c [] = c"
  by (simp add: on_server2client_def)

lemma on_server2client_Cons [frame_simps]:
  "on_server2client c (b # d) =
     (if b = 0 then c\<lparr>reassembler := (reassembler c)\<lparr>buffer := []\<rparr>,
        response_future := resolve (response_future c) (Some (buffer (reassembler c) @ d))\<rparr>
      else c\<lparr>reassembler := (reassembler c)\<lparr>buffer := buffer (reassembler c) @ d\<rparr>\<rparr>)"
  by (simp add: on_server2client_def Let_def)

lemma on_server2client_frame [simp]:
  "phase (on_server2client c d) = phase c" "outbox (on_server2client c d) = outbox c"
  "writes (on_server2client c d) = writes c" "seen (on_server2client c d) = seen c"
  by (simp_all add: on_server2client_def split: sum.split prod.split)

section \<open>Invariant\<close>

fun chunks_of :: "bytes \<Rightarrow> int \<Rightarrow> bytes list" where
  "chunks_of se mtu = (case chunk_message se (negotiate_chunk_size mtu) of Inl _ \<Rightarrow> [] | Inr cs \<Rightarrow> cs)"

declare chunks_of.simps [simp del]

lemma chunks_of_eq: "chunk_message se (negotiate_chunk_size mtu) = Inr (chunks_of se mtu)"
  using central_link.split_total [where mtu = mtu and m = se] by (auto simp: chunks_of.simps)

definition request_writes :: "bytes \<Rightarrow> int \<Rightarrow> (string \<times> bytes) list" where
  "request_writes se mtu = (STATE_UUID, STATE_START) # map (Pair CLIENT2SERVER_UUID) (chunks_of se mtu)"

text \<open>What has been written by the time a phase is reached.\<close>

fun writes_ok :: "bytes \<Rightarrow> int \<Rightarrow> phase \<Rightarrow> bytes list \<Rightarrow> (string \<times> bytes) list \<Rightarrow> bool" where
  "writes_ok se mtu Sending ob w \<longleftrightarrow>
     w @ map (Pair CLIENT2SERVER_UUID) ob = request_writes se mtu \<and> w \<noteq> []"
| "writes_ok se mtu Waiting ob w \<longleftrightarrow> w = request_writes se mtu"
| "writes_ok se mtu (Closing _) ob w \<longleftrightarrow> w = request_writes se mtu"
| "writes_ok se mtu (Finished (Inr _)) ob w \<longleftrightarrow>
     w = request_writes se mtu \<or> w = request_writes se mtu @ [(STATE_UUID, STATE_END)]"
| "writes_ok se mtu (Finished (Inl _)) ob w \<longleftrightarrow>
     (\<exists>rest. request_writes se mtu = w @ rest) \<or> w = request_writes se mtu @ [(STATE_UUID, STATE_END)]"
| "writes_ok se mtu _ ob w \<longleftrightarrow> w = []"

definition future_ok :: "central \<Rightarrow> bool" where
  "future_ok c \<longleftrightarrow>
     (response_future c \<noteq> Cancelled \<longrightarrow>
        response_future c = response_future (foldl on_server2client central_init (seen c)) \<and>
        reassembler c = reassembler (foldl on_server2client central_init (seen c)))"

fun outcome_ok :: "int \<Rightarrow> string \<Rightarrow> bytes future \<Rightarrow> phase \<Rightarrow> bool" where
  "outcome_ok mtu addr f (Closing (Inr m)) \<longleftrightarrow> f = Resolved m"
| "outcome_ok mtu addr f (Closing (Inl e)) \<longleftrightarrow> e = TimeoutError \<and> f = Cancelled"
| "outcome_ok mtu addr f (Finished (Inr r)) \<longleftrightarrow>
     f = Resolved (session_data_bytes r) \<and> negotiated_mtu r = mtu \<and>
     chunk_size r = negotiate_chunk_size mtu \<and> device_address r = addr"
| "outcome_ok mtu addr f (Finished (Inl e)) \<longleftrightarrow> True"
| "outcome_ok mtu addr f _ \<longleftrightarrow> f \<noteq> Cancelled"

definition exchange_inv :: "bytes \<Rightarrow> int \<Rightarrow> string \<Rightarrow> central \<Rightarrow> bool" where
  "exchange_inv se mtu addr c \<longleftrightarrow>
     writes_ok se mtu (phase c) (outbox c) (writes c) \<and> future_ok c \<and>
     outcome_ok mtu addr (response_future c) (phase c)"

lemma exchange_inv_init: "exchange_inv se mtu addr central_init"
  by (simp add: exchange_inv_def future_ok_def central_init_def)

lemma on_server2client_local:
  "response_future c = response_future d \<Longrightarrow> reassembler c = reassembler d \<Longrightarrow>
    response_future (on_server2client c x) = response_future (on_server2client d x) \<and>
    reassembler (on_server2client c x) = reassembler (on_server2client d x)"
  by (simp add: on_server2client_def split: sum.split prod.split)

lemma future_ok_notified: "future_ok c \<Longrightarrow> future_ok ((on_server2client c data)\<lparr>seen := seen c @ [data]\<rparr>)"
proof (cases "response_future c = Cancelled")
  case True
  then have "response_future (on_server2client c data) = Cancelled"
    using central_collector.deliver_done [of c data] by simp
  then show ?thesis by (simp add: future_ok_def)
next
  case False
  assume "future_ok c"
  with False show ?thesis
    using on_server2client_local [of c "foldl on_server2client central_init (seen c)" data]
    by (simp add: future_ok_def)
qed

lemma outcome_ok_notified:
  assumes "outcome_ok mtu addr (response_future c) (phase c)" "listening (phase c)"
  shows "outcome_ok mtu addr (response_future (on_server2client c data)) (phase c)"
proof -
  have "response_future (on_server2client c data) \<noteq> Cancelled" if "response_future c \<noteq> Cancelled"
    using that by (cases "response_future c") (auto simp: on_server2client_def split: sum.split prod.split option.split elim!: resolve.elims)
  moreover have "response_future (on_server2client c data) = response_future c" if "response_future c \<noteq> Pending"
    using that by (rule central_collector.deliver_done)
  ultimately show ?thesis using assms
    by (cases "phase c" rule: listening.cases) (auto split: sum.splits elim!: outcome_ok.elims)
qed

lemma exchange_step_inv: "exchange_step se mtu addr c c' \<Longrightarrow> exchange_inv se mtu addr c \<Longrightarrow> exchange_inv se mtu addr c'"
proof (induction rule: exchange_step.induct)
  case (notified c data)
  then show ?case
    using future_ok_notified [of c data] outcome_ok_notified [of mtu addr c data]
    by (simp add: exchange_inv_def)
next
  case (state_start c chunks)
  then show ?case
    by (auto simp: exchange_inv_def future_ok_def write_gatt_char_def request_writes_def chunks_of_eq)
next
  case (send c chunk rest)
  then show ?case by (auto simp: exchange_inv_def future_ok_def write_gatt_char_def)
next
  case (sent c)
  then show ?case by (auto simp: exchange_inv_def future_ok_def)
next
  case (call_fails c e)
  then show ?case
    by (auto simp: exchange_inv_def future_ok_def
      intro: exI [of _ "map (Pair CLIENT2SERVER_UUID) (outbox c)"] sym)
next
  case (state_end c r)
  then show ?case by (cases r) (auto simp: exchange_inv_def future_ok_def write_gatt_char_def)
next
  case (state_end_bleak_error c r)
  then show ?case by (cases r) (auto simp: exchange_inv_def future_ok_def)
qed (auto simp: exchange_inv_def future_ok_def)

lemma exchange_run_inv: "exchange_run se mtu addr c \<Longrightarrow> exchange_inv se mtu addr c"
  by (induction rule: exchange_run.induct) (auto intro: exchange_inv_init exchange_step_inv)

section \<open>Transports of the fuzz scenarios\<close>

text \<open>
  These wait for nothing, so each is a function of what the library does: \<open>raises n\<close> is the
  exception, if any, of the \<open>n\<close>-th awaited call of the client.  The first call that raises ends
  the \<open>async with\<close> block; the second component collects what was written before.
\<close>

datatype client_call = Connect | StartNotify | Write string bytes | Disconnect

fun written_by :: "client_call \<Rightarrow> (string \<times> bytes) list" where
  "written_by (Write uuid data) = [(uuid, data)]"
| "written_by _ = []"

fun run_client :: "(nat \<Rightarrow> exn option) \<Rightarrow> nat \<Rightarrow> client_call list \<Rightarrow> exn option \<times> (string \<times> bytes) list" where
  "run_client raises n [] = (None, [])"
| "run_client raises n (call # calls) =
     (case raises n of
        Some e \<Rightarrow> (Some e, [])
      | None \<Rightarrow> (let (r, w) = run_client raises (Suc n) calls in (r, written_by call @ w)))"

lemma run_client_writes:
  "\<exists>k. snd (run_client raises n calls) = concat (map written_by (take k calls)) \<and>
     (fst (run_client raises n calls) = None \<longrightarrow> take k calls = calls)"
proof (induction calls arbitrary: n)
  case (Cons call calls)
  show ?case
  proof (cases "raises n")
    case None
    from Cons.IH [of "Suc n"] obtain k where k: "snd (run_client raises (Suc n) calls) = concat (map written_by (take k calls)) \<and>
      (fst (run_client raises (Suc n) calls) = None \<longrightarrow> take k calls = calls)" by (rule exE)
    show ?thesis
      by (rule exI [of _ "Suc k"]) (simp add: None k case_prod_beta Let_def)
  next
    case (Some e)
    show ?thesis by (rule exI [of _ 0]) (simp add: Some)
  qed
qed simp

lemma concat_written_by_Write: "concat (map written_by (map (Write uuid) ds)) = map (Pair uuid) ds"
  by (induction ds) auto

text \<open>
  The scan takes the first device that advertises the service; \<open>str(u).lower()\<close> on both sides
  is a comparison of the canonical text, up to the case of ASCII letters.
\<close>

type_synonym advertisement = "string \<times> pystr list option"

definition advertises :: "pystr \<Rightarrow> advertisement \<Rightarrow> bool" where
  "advertises service adv = (case snd adv of None \<Rightarrow> False | Some uuids \<Rightarrow> lower_ascii service \<in> set (map lower_ascii uuids))"

definition scan_for_peripheral :: "pystr \<Rightarrow> advertisement list \<Rightarrow> exn + string" where
  "scan_for_peripheral service advs =
     (case find (advertises service) advs of None \<Rightarrow> Inl DeviceNotFoundError | Some adv \<Rightarrow> Inr (fst adv))"

text \<open>
  \<open>scaled n\<close> stands for \<open>int(n * keep_fraction)\<close>, a float computation that raises when the
  fraction is not finite.
\<close>

record chunk_drop_result =
  drop_address :: string
  chunks_sent :: int
  chunks_total :: int

definition keep_count :: "(nat \<Rightarrow> exn + int) \<Rightarrow> nat \<Rightarrow> exn + int" where
  "keep_count scaled n =
     (if n > 1 then ebind (scaled n) (\<lambda>k. Inr (max 1 (min (int n - 1) k))) else Inr (int n))"

definition exchange_dropping_tail ::
  "exn + string \<Rightarrow> (nat \<Rightarrow> exn option) \<Rightarrow> int \<Rightarrow> bytes \<Rightarrow> (nat \<Rightarrow> exn + int) \<Rightarrow>
    (exn + chunk_drop_result) \<times> (string \<times> bytes) list" where
  "exchange_dropping_tail device raises mtu se scaled =
     (case device of
        Inl e \<Rightarrow> (Inl e, [])
      | Inr addr \<Rightarrow>
          (case run_client raises 0 [Connect, StartNotify, Write STATE_UUID STATE_START] of
             (Some e, w) \<Rightarrow> (Inl e, w)
           | (None, w) \<Rightarrow>
               (case chunk_message se (negotiate_chunk_size mtu) of
                  Inl e \<Rightarrow> (Inl e, w)
                | Inr chunks \<Rightarrow>
                    (case keep_count scaled (length chunks) of
                       Inl e \<Rightarrow> (Inl e, w)
                     | Inr keep \<Rightarrow>
                         (case run_client raises 3 (map (Write CLIENT2SERVER_UUID) (take (nat keep) chunks) @ [Disconnect]) of
                            (Some e, w') \<Rightarrow> (Inl e, w @ w')
                          | (None, w') \<Rightarrow>
                              (Inr \<lparr>drop_address = addr, chunks_sent = keep, chunks_total = int (length chunks)\<rparr>,
                               w @ w'))))))"

definition connect_and_disconnect ::
  "exn + string \<Rightarrow> (nat \<Rightarrow> exn option) \<Rightarrow> bool \<Rightarrow> (exn + string) \<times> (string \<times> bytes) list" where
  "connect_and_disconnect device raises write_state_start =
     (case device of
        Inl e \<Rightarrow> (Inl e, [])
      | Inr addr \<Rightarrow>
          (case run_client raises 0
             (Connect # (if write_state_start then [Write STATE_UUID STATE_START] else []) @ [Disconnect]) of
             (Some e, w) \<Rightarrow> (Inl e, w)
           | (None, w) \<Rightarrow> (Inr addr, w)))"

text \<open>
  One connection attempt per cycle: \<open>attempt cycle\<close> is the exception it raised, if any, and
  \<open>elapsed cycle\<close> the time it took.  The second component counts the sleeps between cycles.
\<close>

record reconnect_cycle_result =
  cycle :: int
  connect_seconds :: int
  cycle_error :: "exn option"

fun reconnect_cycles ::
  "(int \<Rightarrow> exn option) \<Rightarrow> (int \<Rightarrow> int) \<Rightarrow> int \<Rightarrow> int \<Rightarrow> int list \<Rightarrow> reconnect_cycle_result list \<times> nat" where
  "reconnect_cycles attempt elapsed cycles delay [] = ([], 0)"
| "reconnect_cycles attempt elapsed cycles delay (n # ns) =
     (let (results, sleeps) = reconnect_cycles attempt elapsed cycles delay ns
      in (\<lparr>cycle = n, connect_seconds = elapsed n, cycle_error = attempt n\<rparr> # results,
          if n < cycles \<and> delay > 0 then Suc sleeps else sleeps))"

definition rapid_reconnect_probe ::
  "(int \<Rightarrow> exn option) \<Rightarrow> (int \<Rightarrow> int) \<Rightarrow> int \<Rightarrow> int \<Rightarrow> reconnect_cycle_result list \<times> nat" where
  "rapid_reconnect_probe attempt elapsed cycles delay =
     reconnect_cycles attempt elapsed cycles delay [1..cycles]"

lemma reconnect_cycles_results:
  "fst (reconnect_cycles attempt elapsed cycles delay ns) =
     map (\<lambda>n. \<lparr>cycle = n, connect_seconds = elapsed n, cycle_error = attempt n\<rparr>) ns"
  by (induction ns) (auto simp: Let_def split: prod.split)

lemma reconnect_cycles_sleeps:
  "snd (reconnect_cycles attempt elapsed cycles delay ns) =
     (if delay > 0 then length (filter (\<lambda>n. n < cycles) ns) else 0)"
  by (induction ns) (auto simp: Let_def split: prod.splits)

lemma keep_count_range:
  "keep_count scaled n = Inr k \<Longrightarrow> n > 1 \<Longrightarrow> 1 \<le> k \<and> k < int n"
  by (auto simp: keep_count_def ebind_inv)

section \<open>Properties\<close>

text \<open>What the mdoc gets to see: the chunks written to Client2Server, in order.\<close>

definition sent_to_mdoc :: "(string \<times> bytes) list \<Rightarrow> bytes list" where
  "sent_to_mdoc w = map snd (filter (\<lambda>(uuid, _). uuid = CLIENT2SERVER_UUID) w)"

lemma sent_to_mdoc_simps [frame_simps]:
  "sent_to_mdoc [] = []"
  "sent_to_mdoc ((STATE_UUID, d) # w) = sent_to_mdoc w"
  "sent_to_mdoc ((CLIENT2SERVER_UUID, d) # w) = d # sent_to_mdoc w"
  "sent_to_mdoc (v @ w) = sent_to_mdoc v @ sent_to_mdoc w"
  "sent_to_mdoc (map (Pair CLIENT2SERVER_UUID) cs) = cs"
  by (simp_all add: sent_to_mdoc_def STATE_UUID_def CLIENT2SERVER_UUID_def o_def)

lemma finished_exchange:
  assumes "exchange_run se mtu addr c" "phase c = Finished (Inr r)"
  shows "first_message [] (seen c) = Some (session_data_bytes r) \<and>
    receive feed Reassembler (sent_to_mdoc (writes c)) = Inr ([se], Reassembler) \<and>
    hd (writes c) = (STATE_UUID, STATE_START) \<and> chunk_size r = negotiate_chunk_size mtu"
proof -
  have inv: "exchange_inv se mtu addr c" using assms(1) by (rule exchange_run_inv)
  then have fut: "response_future c = Resolved (session_data_bytes r)" "chunk_size r = negotiate_chunk_size mtu"
    using assms(2) by (auto simp: exchange_inv_def)
  have "resolve Pending (first_message [] (seen c)) = Resolved (session_data_bytes r)"
    using inv fut(1) central_collector.deliver_all_first [of central_init "seen c"]
    by (simp add: exchange_inv_def future_ok_def central_init_def Reassembler_def)
  then have "first_message [] (seen c) = Some (session_data_bytes r)"
    by (cases "first_message [] (seen c)") auto
  moreover have "sent_to_mdoc (writes c) = chunks_of se mtu" "hd (writes c) = (STATE_UUID, STATE_START)"
    using inv assms(2) by (auto simp: exchange_inv_def request_writes_def frame_simps)
  ultimately show ?thesis
    using fut(2) central_link.receive_split [OF chunks_of_eq] by simp
qed


text \<open>A complete run with a notification arriving in the middle of the transfer.\<close>

lemma exchange_run_short:
  assumes cs: "chunk_message se (negotiate_chunk_size 23) = Inr [0 # se]"
  shows "exchange_run se 23 ''AA:BB'' \<lparr>phase = Finished (Inr \<lparr>session_data_bytes = a @ b, negotiated_mtu = 23,
       chunk_size = 20, device_address = ''AA:BB''\<rparr>), outbox = [],
     writes = [(STATE_UUID, STATE_START), (CLIENT2SERVER_UUID, 0 # se), (STATE_UUID, STATE_END)],
     reassembler = Reassembler, response_future = Resolved (a @ b), seen = [1 # a, 0 # b]\<rparr>"
proof -
  let ?s = "\<lambda>p ob w b f sn. \<lparr>phase = p, outbox = ob, writes = w, reassembler = \<lparr>buffer = b\<rparr>,
    response_future = f, seen = sn\<rparr>"
  let ?w = "[(STATE_UUID, STATE_START)]" and ?w' = "[(STATE_UUID, STATE_START), (CLIENT2SERVER_UUID, 0 # se)]"
  let ?run = "exchange_run se 23 ''AA:BB''"
  have "?run (?s Scanning [] [] [] Pending [])"
    using exchange_run.init [of se 23 "''AA:BB''"] by (simp add: central_init_def Reassembler_def)
  from exchange_run.step [OF this exchange_step.scan_found]
  have "?run (?s Found [] [] [] Pending [])" by simp
  from exchange_run.step [OF this exchange_step.connect]
  have "?run (?s Connected [] [] [] Pending [])" by simp
  from exchange_run.step [OF this exchange_step.start_notify]
  have "?run (?s Subscribed [] [] [] Pending [])" by simp
  from exchange_run.step [OF this exchange_step.state_start [OF _ cs]]
  have "?run (?s Sending [0 # se] ?w [] Pending [])" by (simp add: write_gatt_char_def)
  from exchange_run.step [OF this exchange_step.notified [of _ _ _ _ "1 # a"]]
  have "?run (?s Sending [0 # se] ?w a Pending [1 # a])" by (simp add: frame_simps)
  from exchange_run.step [OF this exchange_step.send [of _ "0 # se" "[]"]]
  have "?run (?s Sending [] ?w' a Pending [1 # a])" by (simp add: write_gatt_char_def)
  from exchange_run.step [OF this exchange_step.sent]
  have "?run (?s Waiting [] ?w' a Pending [1 # a])" by simp
  from exchange_run.step [OF this exchange_step.notified [of _ _ _ _ "0 # b"]]
  have "?run (?s Waiting [] ?w' [] (Resolved (a @ b)) [1 # a, 0 # b])" by (simp add: frame_simps)
  from exchange_run.step [OF this exchange_step.response [of _ "a @ b"]]
  have "?run (?s (Closing (Inr (a @ b))) [] ?w' [] (Resolved (a @ b)) [1 # a, 0 # b])" by simp
  from exchange_run.step [OF this exchange_step.state_end [of _ "Inr (a @ b)"]]
  show ?thesis
    by (simp add: write_gatt_char_def negotiate_chunk_size_def MIN_CHUNK_SIZE_def MAX_CHUNK_SIZE_def Reassembler_def)
qed


lemma exchange_run_example:
  "exchange_run [7] 23 ''AA:BB'' \<lparr>phase = Finished (Inr \<lparr>session_data_bytes = [9, 5], negotiated_mtu = 23,
       chunk_size = 20, device_address = ''AA:BB''\<rparr>), outbox = [],
     writes = [(STATE_UUID, STATE_START), (CLIENT2SERVER_UUID, [0, 7]), (STATE_UUID, STATE_END)],
     reassembler = Reassembler, response_future = Resolved [9, 5], seen = [[1, 9], [0, 5]]\<rparr>"
proof -
  have "chunk_message [7] (negotiate_chunk_size 23) = Inr [[0, 7]]" by code_simp
  from exchange_run_short [OF this, of "[9]" "[5]"] show ?thesis by simp
qed



lemma sent_chunks:
  "\<exists>k. sent_to_mdoc (snd (run_client raises n (map (Write CLIENT2SERVER_UUID) ds @ [Disconnect]))) = take k ds \<and>
    (fst (run_client raises n (map (Write CLIENT2SERVER_UUID) ds @ [Disconnect])) = None \<longrightarrow> take k ds = ds)"
proof -
  let ?calls = "map (Write CLIENT2SERVER_UUID) ds @ [Disconnect]"
  obtain k where k: "snd (run_client raises n ?calls) = concat (map written_by (take k ?calls)) \<and>
      (fst (run_client raises n ?calls) = None \<longrightarrow> take k ?calls = ?calls)"
    using run_client_writes by (rule exE)
  have "concat (map written_by (take k ?calls)) = map (Pair CLIENT2SERVER_UUID) (take k ds)"
    using concat_written_by_Write [of CLIENT2SERVER_UUID "take k ds"]
    by (cases "k - length ds") (simp_all add: take_map)
  with k have "sent_to_mdoc (snd (run_client raises n ?calls)) = take k ds" by (simp only: frame_simps)
  moreover have "take k ds = ds" if "take k ?calls = ?calls"
    using arg_cong [OF that, of length] by simp
  ultimately show ?thesis using k by metis
qed

lemma sent_in_prologue:
  "sent_to_mdoc (snd (run_client raises 0 [Connect, StartNotify, Write STATE_UUID STATE_START])) = []"
  by (simp add: frame_simps split: option.split)

lemma drop_tail_partial:
  assumes "chunk_message se (negotiate_chunk_size mtu) = Inr chunks" "1 < length chunks"
    and "exchange_dropping_tail device raises mtu se scaled = (result, w)"
  shows "(\<exists>b. receive feed Reassembler (sent_to_mdoc w) = Inr ([], b)) \<and>
    (\<forall>r. result = Inr r \<longrightarrow> 1 \<le> chunks_sent r \<and> chunks_sent r < chunks_total r \<and>
       sent_to_mdoc w = take (nat (chunks_sent r)) chunks)"
proof -
  have few: "\<exists>b. receive feed Reassembler (take k chunks) = Inr ([], b)" if "k < length chunks" for k
    using that by (intro central_link.receive_prefix [OF assms(1)])
  from few [of 0] assms(2) have none: "\<exists>b. receive feed Reassembler [] = Inr ([], b)" by simp
  show ?thesis
  proof (cases "\<exists>addr keep. device = Inr addr \<and> keep_count scaled (length chunks) = Inr keep \<and>
      fst (run_client raises 0 [Connect, StartNotify, Write STATE_UUID STATE_START]) = None")
    case False
    then have "sent_to_mdoc w = [] \<and> (\<forall>r. result \<noteq> Inr r)"
      using assms(1,3) sent_in_prologue [of raises]
      by (auto simp: exchange_dropping_tail_def frame_simps simp del: run_client.simps split: sum.splits prod.splits option.splits)
    with none show ?thesis by simp
  next
    case True
    then obtain addr keep where d: "device = Inr addr" "keep_count scaled (length chunks) = Inr keep"
      "fst (run_client raises 0 [Connect, StartNotify, Write STATE_UUID STATE_START]) = None" by blast
    have range: "1 \<le> keep \<and> keep < int (length chunks)" using d(2) assms(2) by (rule keep_count_range)
    let ?tail = "run_client raises 3 (map (Write CLIENT2SERVER_UUID) (take (nat keep) chunks) @ [Disconnect])"
    obtain k where k: "sent_to_mdoc (snd ?tail) = take k (take (nat keep) chunks)"
        "fst ?tail = None \<longrightarrow> take k (take (nat keep) chunks) = take (nat keep) chunks"
      using sent_chunks by blast
    have run: "sent_to_mdoc w = sent_to_mdoc (snd ?tail)"
      "result = (case fst ?tail of Some e \<Rightarrow> Inl e
         | None \<Rightarrow> Inr \<lparr>drop_address = addr, chunks_sent = keep, chunks_total = int (length chunks)\<rparr>)"
      using assms(1,3) d sent_in_prologue [of raises]
      by (auto simp: exchange_dropping_tail_def frame_simps simp del: run_client.simps split: prod.splits option.splits)
    from range have "\<exists>b. receive feed Reassembler (take (min k (nat keep)) chunks) = Inr ([], b)"
      by (intro few) linarith
    with run k range show ?thesis by (auto split: option.splits)
  qed
qed

lemma drop_tail_whole:
  assumes "chunk_message se (negotiate_chunk_size mtu) = Inr chunks" "length chunks = 1"
    and "exchange_dropping_tail device raises mtu se scaled = (Inr r, w)"
  shows "chunks_sent r = chunks_total r \<and> receive feed Reassembler (sent_to_mdoc w) = Inr ([se], Reassembler)"
proof -
  from assms(2) obtain c where chunks: "chunks = [c]" by (auto simp: length_Suc_conv)
  from assms(1,3) chunks have "chunks_sent r = 1 \<and> chunks_total r = 1 \<and> sent_to_mdoc w = [c]"
    by (auto simp: exchange_dropping_tail_def keep_count_def frame_simps split: option.splits sum.splits)
  then show ?thesis
    using central_link.receive_split [OF assms(1)] chunks by simp
qed

text \<open>
  C28: \<open>exchange_dropping_tail\<close> is a truncated transfer exactly when there is a tail to drop.  If the
  SessionEstablishment needs more than one chunk, the mdoc's reassembler is left without a complete
  message, whatever the keep fraction (negative, above 1, ...) and whichever call of the library fails,
  and a run that returns has sent at least one chunk and not the last one.  If it fits one chunk, a run
  that returns has delivered the whole message: the transfer the scenario is meant to interrupt
  reaches the mdoc complete.
\<close>

theorem drop_tail_outcome:
  assumes "chunk_message se (negotiate_chunk_size mtu) = Inr chunks"
    and "exchange_dropping_tail device raises mtu se scaled = (result, w)"
  shows "(1 < length chunks \<longrightarrow> (\<exists>b. receive feed Reassembler (sent_to_mdoc w) = Inr ([], b)) \<and>
      (\<forall>r. result = Inr r \<longrightarrow> 1 \<le> chunks_sent r \<and> chunks_sent r < chunks_total r \<and>
         sent_to_mdoc w = take (nat (chunks_sent r)) chunks)) \<and>
    (length chunks = 1 \<longrightarrow> (\<forall>r. result = Inr r \<longrightarrow>
       chunks_sent r = chunks_total r \<and> receive feed Reassembler (sent_to_mdoc w) = Inr ([se], Reassembler)))"
  using drop_tail_partial [OF assms(1) _ assms(2)] drop_tail_whole [OF assms(1)] assms(2) by blast

theorem drop_tail_outcome_witness:
  "(\<exists>r w. exchange_dropping_tail (Inr ''AA'') (\<lambda>n. None) 0 (replicate 30 7) (\<lambda>n. Inr (int n)) = (Inr r, w) \<and>
      chunks_sent r < chunks_total r) \<and>
   (\<exists>r w. exchange_dropping_tail (Inr ''AA'') (\<lambda>n. None) 515 (replicate 245 7) (\<lambda>n. Inr 0) = (Inr r, w) \<and>
      receive feed Reassembler (sent_to_mdoc w) = Inr ([replicate 245 7], Reassembler))"
proof
  have cs: "chunk_message (replicate 30 7) (negotiate_chunk_size 0) = Inr [1 # replicate 19 7, 0 # replicate 11 7]"
    by code_simp
  have "\<not> isl (fst (exchange_dropping_tail (Inr ''AA'') (\<lambda>n. None) 0 (replicate 30 7) (\<lambda>n. Inr (int n))))"
    by code_simp
  then obtain r w where run: "exchange_dropping_tail (Inr ''AA'') (\<lambda>n. None) 0 (replicate 30 7) (\<lambda>n. Inr (int n)) = (Inr r, w)"
    by (metis isl_def old.sum.exhaust prod.collapse sum.collapse(2))
  show "\<exists>r w. exchange_dropping_tail (Inr ''AA'') (\<lambda>n. None) 0 (replicate 30 7) (\<lambda>n. Inr (int n)) = (Inr r, w) \<and>
      chunks_sent r < chunks_total r"
    using drop_tail_outcome [OF cs run] run by auto
next
  have cs: "chunk_message (replicate 245 7) (negotiate_chunk_size 515) = Inr [0 # replicate 245 7]"
    by code_simp
  have "\<not> isl (fst (exchange_dropping_tail (Inr ''AA'') (\<lambda>n. None) 515 (replicate 245 7) (\<lambda>n. Inr 0)))"
    by code_simp
  then obtain r w where run: "exchange_dropping_tail (Inr ''AA'') (\<lambda>n. None) 515 (replicate 245 7) (\<lambda>n. Inr 0) = (Inr r, w)"
    by (metis isl_def old.sum.exhaust prod.collapse sum.collapse(2))
  show "\<exists>r w. exchange_dropping_tail (Inr ''AA'') (\<lambda>n. None) 515 (replicate 245 7) (\<lambda>n. Inr 0) = (Inr r, w) \<and>
      receive feed Reassembler (sent_to_mdoc w) = Inr ([replicate 245 7], Reassembler)"
    using drop_tail_outcome [OF cs run] run by auto
qed

end
