(* ===== verification/Cli_Session.thy ===== *)
theory Cli_Session
  imports Cli_Requests Cli_Output Mdoc_Validate Trust Ble_Central
begin

text \<open>
  What the commands of \<open>cli.py\<close> share: their effects as a list of events, the environment they
  run in, \<open>print_engagement\<close>, \<open>_dump_cbor\<close>, \<open>_setup_session\<close> and the building of the
  SessionEstablishment.
\<close>

section \<open>Effects\<close>

text \<open>
  \<open>Page\<close> is an HTML page opened in a browser.  \<open>Released\<close> is the final \<open>print\<close> of the rendered DeviceResponse, the only one that shows claims
  in \<open>read\<close>; what goes to standard error is a \<open>diagnostic\<close>.
\<close>

datatype diagnostic =
    EngagementNote
  | DumpNote
  | TransportFailed exn
  | NoData pyobj pystr
  | MalformedResponse exn
  | VerificationFailed "failure list"
  | TrustFailed exn
  | PermitCount nat
  | RenderFailed exn
  | ScenarioNote string string
  | NoSessionData exn
  | UnexpectedResponse
  | ChunksDropped int int string
  | ConnectedOnly string
  | CyclesFailed nat nat
  | CommandFailed exn
  | PageOpened
  | TrustBanner string

datatype event =
    Printed pystr
  | Diagnostic diagnostic
  | Dumped pystr pystr bytes
  | Exchanged bool bytes bytes
  | Written "(string \<times> bytes) list"
  | Page pystr "string option"
  | Released pystr

type_synonym 'a io = "event list \<times> (exn + 'a)"

definition io_bind :: "'a io \<Rightarrow> ('a \<Rightarrow> 'b io) \<Rightarrow> 'b io" where
  "io_bind m f = (case m of
     (events, Inl e) \<Rightarrow> (events, Inl e)
   | (events, Inr x) \<Rightarrow> (let (events', r) = f x in (events @ events', r)))"

definition pure :: "exn + 'a \<Rightarrow> 'a io" where
  "pure r = ([], r)"

definition emit :: "event \<Rightarrow> unit io" where
  "emit e = ([e], Inr ())"

definition exit_with :: "diagnostic \<Rightarrow> int \<Rightarrow> int io" where
  "exit_with d code = ([Diagnostic d], Inr code)"

lemma io_bind_simps [simp]:
  "io_bind (pure (Inl e)) f = ([], Inl e)"
  "io_bind (pure (Inr x)) f = f x"
  "fst (io_bind (emit ev) f) = ev # fst (f ())"
  "snd (io_bind (emit ev) f) = snd (f ())"
  "fst (pure r) = []" "snd (pure r) = r"
  "fst (emit ev) = [ev]" "snd (emit ev) = Inr ()"
  "fst (exit_with d code) = [Diagnostic d]" "snd (exit_with d code) = Inr code"
  by (auto simp: io_bind_def pure_def emit_def exit_with_def split: prod.splits)

lemma io_bind_Inr: "snd (io_bind m f) = Inr y \<longleftrightarrow> (\<exists>x. snd m = Inr x \<and> snd (f x) = Inr y)"
  by (auto simp: io_bind_def split: prod.splits sum.splits)

lemma set_io_bind: "ev \<in> set (fst (io_bind m f)) \<longleftrightarrow> ev \<in> set (fst m) \<or> (\<exists>x. snd m = Inr x \<and> ev \<in> set (fst (f x)))"
  by (auto simp: io_bind_def split: prod.splits sum.splits)

section \<open>The environment\<close>

record environment =
  env_lib :: lib
  env_trust :: trust_env
  env_scan_camera :: "exn + pystr"
  env_read_qr_image :: "pystr \<Rightarrow> exn + pystr"
  env_read_file :: "pystr \<Rightarrow> exn + bytes"
  env_write_file :: "pystr \<Rightarrow> pystr \<Rightarrow> bytes \<Rightarrow> exn + unit"
    \<comment> \<open>directory, name, contents\<close>
  env_private_key :: nat
    \<comment> \<open>\<open>ec.generate_private_key(ec.SECP256R1())\<close>\<close>
  env_random :: "nat \<Rightarrow> bytes"
    \<comment> \<open>\<open>os.urandom\<close>\<close>
  env_central_exchange :: "bytes \<Rightarrow> bytes \<Rightarrow> exn + bytes"
    \<comment> \<open>\<open>ble.exchange\<close>: service UUID and message, to the bytes of the SessionData\<close>
  env_peripheral_exchange :: "bytes \<Rightarrow> bytes \<Rightarrow> bytes \<Rightarrow> exn + bytes"
    \<comment> \<open>\<open>ble_peripheral.exchange\<close>: service UUID, EDeviceKeyBytes and message\<close>
  env_advertisements :: "advertisement list"
    \<comment> \<open>what a scan sees: addresses and advertised services\<close>
  env_raises :: "nat \<Rightarrow> exn option"
    \<comment> \<open>the exceptions of the BLE client's calls in the fuzz transports\<close>
  env_mtu :: int
  env_reconnect :: "int \<Rightarrow> exn option"
    \<comment> \<open>what the \<open>n\<close>-th connection of \<open>rapid_reconnect_probe\<close> raises\<close>
  env_elapsed :: "int \<Rightarrow> int"
  env_clock :: int
  env_bearer_token :: "pystr option"

section \<open>print_engagement and dumps\<close>

text \<open>\<open>str\<close> of a UUID and \<open>f"{n:064x}"\<close>.\<close>

definition uuid_text :: "bytes \<Rightarrow> pystr" where
  "uuid_text u = bytes_hex (take 4 u) @ U ''-'' @ bytes_hex (take 2 (drop 4 u)) @ U ''-'' @
     bytes_hex (take 2 (drop 6 u)) @ U ''-'' @ bytes_hex (take 2 (drop 8 u)) @ U ''-'' @ bytes_hex (drop 10 u)"

definition hex_064 :: "int \<Rightarrow> pystr" where
  "hex_064 n = (let h = hex_nat (nat n) in replicate (64 - length h) 48 @ h)"

definition offered :: "bytes option \<Rightarrow> pystr" where
  "offered u = (case u of None \<Rightarrow> U ''(not offered)'' | Some b \<Rightarrow> uuid_text b)"

definition engagement_text :: "lib \<Rightarrow> device_engagement \<Rightarrow> printed" where
  "engagement_text L de =
     (let (x, y) = public_numbers L (de_e_device_key_pub de) in pieces
       [line [lit ''version: '', safe_text L (de_version de)],
        line [lit ''cipher suite: '', safe_text L (de_cipher_suite de)],
        line [lit ''EDeviceKey.Pub: x='', Inr (hex_064 x), lit '' y='', Inr (hex_064 y)],
        line [lit ''peripheral server mode UUID: '', Inr (offered (de_peripheral_server_uuid de))],
        line [lit ''central client mode UUID:    '', Inr (offered (de_central_client_uuid de))]])"

definition print_engagement :: "lib \<Rightarrow> device_engagement \<Rightarrow> unit io" where
  "print_engagement L de =
     io_bind (pure (engagement_text L de)) (\<lambda>text.
     io_bind (emit (Printed text)) (\<lambda>_.
     if \<not> supports_peripheral_server_mode de then emit (Diagnostic EngagementNote) else pure (Inr ())))"

definition dump_cbor :: "environment \<Rightarrow> pystr option \<Rightarrow> string \<Rightarrow> bytes \<Rightarrow> unit io" where
  "dump_cbor R dump_dir name data =
     (case dump_dir of
        None \<Rightarrow> pure (Inr ())
      | Some dir \<Rightarrow>
          if dir = [] then pure (Inr ())
          else io_bind (pure (env_write_file R dir (U name) data)) (\<lambda>_. emit (Dumped dir (U name) data)))"

section \<open>_setup_session\<close>

record session_setup =
  ss_de :: device_engagement
  ss_session_transcript :: bytes
  ss_sk_reader :: bytes
  ss_sk_device :: bytes
  ss_e_reader_key_tag :: pyobj

definition load_engagement :: "environment \<Rightarrow> cli_args \<Rightarrow> exn + device_engagement" where
  "load_engagement R args =
     ebind (resolve_engagement_uri (env_scan_camera R) (env_read_qr_image R) args) (parse_mdoc_uri (env_lib R))"

definition derive_session :: "environment \<Rightarrow> cli_args \<Rightarrow> device_engagement \<Rightarrow> exn + session_setup" where
  "derive_session R args de =
     (let L = env_lib R in
      ebind (cose_key_tag L (private_public L (env_private_key R))) (\<lambda>e_reader_key_tag.
      ebind (resolve_handover (env_read_file R) args) (\<lambda>handover.
      ebind (build_session_transcript L (de_raw_bytes de) e_reader_key_tag handover) (\<lambda>session_transcript.
      ebind (ecdh L (env_private_key R) (de_e_device_key_pub de)) (\<lambda>zab.
      ebind (derive_session_keys L zab session_transcript) (\<lambda>(sk_reader, sk_device).
      Inr \<lparr>ss_de = de, ss_session_transcript = session_transcript, ss_sk_reader = sk_reader,
        ss_sk_device = sk_device, ss_e_reader_key_tag = e_reader_key_tag\<rparr>))))))"

definition setup_session :: "environment \<Rightarrow> cli_args \<Rightarrow> session_setup io" where
  "setup_session R args =
     io_bind (pure (load_engagement R args)) (\<lambda>de.
     io_bind (print_engagement (env_lib R) de) (\<lambda>_.
     io_bind (dump_cbor R (arg_dump_cbor args) ''engagement.cbor'' (de_raw_bytes de)) (\<lambda>_.
     io_bind (if given (arg_dump_cbor args) then emit (Diagnostic DumpNote) else pure (Inr ())) (\<lambda>_.
     pure (derive_session R args de)))))"

definition DEFAULT_REQUESTS :: "pystr list" where
  "DEFAULT_REQUESTS = [U ''org.iso.18013.5.1.mDL:org.iso.18013.5.1:given_name,family_name'']"

text \<open>\<open>parse_requests(args.request or DEFAULT_REQUESTS)\<close>.\<close>

definition requested :: "cli_args \<Rightarrow> exn + doc_request list" where
  "requested args = parse_requests (if arg_request args = [] then DEFAULT_REQUESTS else arg_request args)"

definition real_session_establishment :: "lib \<Rightarrow> session_setup \<Rightarrow> bytes \<Rightarrow> exn + bytes" where
  "real_session_establishment L setup device_request_bytes =
     ebind (encrypt_reader_message L (ss_sk_reader setup) 1 device_request_bytes) (\<lambda>ciphertext.
     build_session_establishment L (ss_e_reader_key_tag setup) ciphertext)"

section \<open>SessionData\<close>

definition SESSION_STATUS_NAMES :: "(int \<times> string) list" where
  "SESSION_STATUS_NAMES =
     [(10, ''Error: session encryption''), (11, ''Error: CBOR decoding''), (20, ''Session termination'')]"

fun has_prefix_somewhere :: "pystr \<Rightarrow> pystr \<Rightarrow> bool" where
  "has_prefix_somewhere w [] = (w = [])"
| "has_prefix_somewhere w (c # s) = (starts_with (c # s) w \<or> has_prefix_somewhere w s)"

text \<open>\<open>"data" in session_data\<close> for an object that need not be a mapping.\<close>

fun contains_key :: "pyobj \<Rightarrow> string \<Rightarrow> exn + bool" where
  "contains_key (PMap m) k = Inr (dict_lookup m (S k) \<noteq> None)"
| "contains_key (PList xs) k = Inr (\<exists>x\<in>set xs. py_eq (S k) x)"
| "contains_key (PTuple xs) k = Inr (\<exists>x\<in>set xs. py_eq (S k) x)"
| "contains_key (PStr s) k = Inr (has_prefix_somewhere (U k) s)"
| "contains_key _ k = Inl (TypeError ''argument is not iterable'')"

definition item_of :: "pyobj \<Rightarrow> string \<Rightarrow> exn + pyobj" where
  "item_of x k = (case x of PMap m \<Rightarrow> getitem m (S k) | _ \<Rightarrow> Inl (TypeError ''indices must be integers''))"

text \<open>
  \<open>SESSION_STATUS_NAMES.get(status, f"unknown({status})")\<close>; the default is rendered first.
\<close>

definition session_status_name :: "lib \<Rightarrow> pyobj \<Rightarrow> exn + pystr" where
  "session_status_name L status =
     ebind (atom_str L status) (\<lambda>s.
     if \<not> hashable status then Inl (TypeError ''unhashable type'') else
     case num_of status of
       Some i \<Rightarrow> (case map_of SESSION_STATUS_NAMES i of Some n \<Rightarrow> Inr (U n) | None \<Rightarrow> Inr (U ''unknown('' @ s @ U '')''))
     | None \<Rightarrow> Inr (U ''unknown('' @ s @ U '')''))"

definition no_data :: "lib \<Rightarrow> pyobj \<Rightarrow> int \<Rightarrow> int io" where
  "no_data L session_data code =
     io_bind (pure (obj_get session_data (S ''status'') PNone)) (\<lambda>status.
     io_bind (pure (session_status_name L status)) (\<lambda>name.
     io_bind (pure (safe_text L status)) (\<lambda>_. exit_with (NoData status name) code)))"

end
