(* ===== verification/Mdoc_Sound.thy ===== *)
theory Mdoc_Sound
  imports Mdoc_Validate
begin

text \<open>
  What a parsed and verified document is evidence of.  Every element of a parsed document was
  read from an item the MSO lists (\<open>read_from\<close>), a positive digest verdict means that the item's
  digest is the one in the MSO (\<open>digest_matches\<close>), a positive issuer verdict that the first
  certificate's key signed the very payload the MSO was read from (\<open>signed_by_issuer\<close>), and a
  positive device verdict that the device key of the MSO authenticated this session
  (\<open>authenticated_by_device\<close>).
\<close>

section \<open>Elements\<close>

text \<open>The element \<open>e\<close> is what the tag-24 item says, and the item has a digest in the MSO.\<close>

definition read_from :: "lib \<Rightarrow> mobile_security_object \<Rightarrow> dict \<Rightarrow> pyobj \<Rightarrow> parsed_element \<Rightarrow> bool" where
  "read_from L mso digests tagged_item e \<longleftrightarrow>
     (\<exists>raw m digest_id random. tagged_item = PTag 24 (PBytes raw) \<and> mdoc_loads L raw = Inr (PMap m) \<and>
        get m (S ''digestID'') = PInt digest_id \<and> 0 \<le> digest_id \<and> digest_id < 2 ^ 64 \<and>
        get m (S ''random'') = PBytes random \<and> 16 \<le> length random \<and>
        get m (S ''elementIdentifier'') = PStr (pe_identifier e) \<and>
        dict_lookup m (S ''elementValue'') = Some (pe_value e) \<and> pe_digest_id e = Some digest_id \<and>
        get digests (PInt digest_id) \<noteq> PNone \<and>
        item_digest_valid L (mso_digest_algorithm mso) tagged_item (get digests (PInt digest_id)) = Inr (pe_digest_valid e))"

definition digest_matches :: "lib \<Rightarrow> mobile_security_object \<Rightarrow> dict \<Rightarrow> pyobj \<Rightarrow> parsed_element \<Rightarrow> bool" where
  "digest_matches L mso digests tagged_item e \<longleftrightarrow>
     (\<exists>name alg digest_id encoded. (name, alg) \<in> set digest_algorithms \<and> mso_digest_algorithm mso = S name \<and>
        pe_digest_id e = Some digest_id \<and> cbor_dumps L tagged_item = Inr encoded \<and>
        get digests (PInt digest_id) = PBytes (hash_digest L alg encoded))"

lemma unwrap_tagged24_Inr:
  "unwrap_tagged24 L x = Inr v \<longleftrightarrow> (\<exists>raw. x = PTag 24 (PBytes raw) \<and> mdoc_loads L raw = Inr v)"
  by (cases "(L, x)" rule: unwrap_tagged24.cases) auto

lemma parse_item_read_from:
  assumes "parse_item L mso digests ids names tagged_item = Inr (digest_id, e)"
  shows "read_from L mso digests tagged_item e \<and> pe_digest_id e = Some digest_id \<and>
    digest_id \<notin> ids \<and> pe_identifier e \<notin> names"
  using assms unfolding parse_item_def read_from_def
  by (auto simp: ebind_inv unwrap_tagged24_Inr is_uint64_iff Let_def simp del: unwrap_tagged24.simps)

lemma parse_items_read_from:
  assumes "parse_items L mso digests ids names items = Inr es"
  shows "list_all2 (read_from L mso digests) items es \<and> distinct (map pe_digest_id es) \<and>
    distinct (map pe_identifier es) \<and> (\<forall>e\<in>set es. pe_digest_id e \<notin> Some ` ids \<and> pe_identifier e \<notin> names)"
  using assms
proof (induction L mso digests ids names items arbitrary: es rule: parse_items.induct)
  case (2 L mso digests ids names tagged_item rest)
  then obtain i e es' where e: "parse_item L mso digests ids names tagged_item = Inr (i, e)" "es = e # es'"
    and rest: "parse_items L mso digests (insert i ids) (insert (pe_identifier e) names) rest = Inr es'"
    by (auto simp: ebind_inv)
  with "2.IH" [OF e(1) refl rest] parse_item_read_from [OF e(1)] show ?case by force
qed simp

lemma read_from_digest_matches:
  assumes "read_from L mso digests tagged_item e" and "pe_digest_valid e = Some True"
  shows "digest_matches L mso digests tagged_item e"
proof -
  from assms obtain i where i: "pe_digest_id e = Some i"
    and "item_digest_valid L (mso_digest_algorithm mso) tagged_item (get digests (PInt i)) = Inr (Some True)"
    unfolding read_from_def by metis
  then obtain b where "cbor_dumps L tagged_item = Inr b"
    "verify_digest L (mso_digest_algorithm mso) b (get digests (PInt i)) = Inr True"
    by (auto simp: item_digest_valid_def ebind_inv split: if_splits)
  with i verify_digest_True show ?thesis unfolding digest_matches_def by blast
qed

text \<open>The namespaces of a document, against the items it was parsed from.\<close>

definition namespace_read_from :: "lib \<Rightarrow> mobile_security_object \<Rightarrow> pyobj \<times> pyobj \<Rightarrow> pystr \<times> parsed_element list \<Rightarrow> bool" where
  "namespace_read_from L mso source parsed \<longleftrightarrow>
     (\<exists>items digests. fst source = PStr (fst parsed) \<and> seq_items (snd source) = Some items \<and>
        get (mso_value_digests mso) (fst source) = PMap digests \<and>
        list_all2 (read_from L mso digests) items (snd parsed) \<and>
        distinct (map pe_digest_id (snd parsed)) \<and> distinct (map pe_identifier (snd parsed)))"

lemma parse_namespace_read_from:
  "parse_namespace L mso ns items = Inr p \<Longrightarrow> namespace_read_from L mso (ns, items) p"
  by (auto simp: parse_namespace_def namespace_read_from_def ebind_inv dest!: parse_items_read_from
      split: pyobj.splits option.splits)

lemma parse_namespaces_read_from:
  "parse_namespaces L mso m = Inr ps \<Longrightarrow> list_all2 (namespace_read_from L mso) m ps"
  by (induction L mso m arbitrary: ps rule: parse_namespaces.induct)
     (auto simp: ebind_inv dest: parse_namespace_read_from)

section \<open>The issuer's signature\<close>

text \<open>
  The leaf certificate of the chain loads, its key accepts the signature over the protected
  header and the payload, and the MSO is what that payload decodes to.
\<close>

definition signed_by_issuer :: "lib \<Rightarrow> issuer_auth_info \<Rightarrow> bool" where
  "signed_by_issuer L ia \<longleftrightarrow>
     (\<exists>leaf chain cert key pb un payload sig alg msg. ia_x5chain_der ia = leaf # chain \<and>
        load_certificate L leaf = Inr cert \<and> cert_public_key cert = Inr key \<and>
        cose_alg L (PBytes pb) (PMap un) = Inr alg \<and>
        cbor_dumps L (PList [S ''Signature1'', PBytes pb, PBytes [], PBytes payload]) = Inr msg \<and>
        check_signature L key alg sig msg = Inr True \<and>
        issuer_mso L payload = Inr (ia_mso ia))"

lemma case_four_Inr:
  "(case z of [a, b, c, d] \<Rightarrow> f a b c d | _ \<Rightarrow> Inl e) = Inr y \<longleftrightarrow>
    (\<exists>a b c d. z = [a, b, c, d] \<and> f a b c d = Inr y)"
  by (auto split: list.splits)

lemma case_four_Some:
  "(case z of Some [a, b, c, d] \<Rightarrow> g a b c d | _ \<Rightarrow> Inr None) = Inr (Some y) \<longleftrightarrow>
    (\<exists>a b c d. z = Some [a, b, c, d] \<and> g a b c d = Inr (Some y))"
  by (auto split: option.splits list.splits)

lemma issuer_signature_Some:
  assumes "issuer_signature L chain items = Inr (Some b)"
  obtains leaf rest cert key where "chain = leaf # rest" "load_certificate L leaf = Inr cert"
    "cert_public_key cert = Inr key" "verify_cose_sign1 L items key None [] = Inr b"
  using assms that by (auto simp: issuer_signature_def ebind_inv split: list.splits)

lemma issuer_auth_signed:
  assumes "issuer_auth_from_cose_sign1 L c = Inr ia" and "ia_signature_valid ia = Some True"
  shows "signed_by_issuer L ia"
proof -
  from assms(1) obtain pb un payload sig
    where "seq_items c = Some [PBytes pb, PMap un, PBytes payload, PBytes sig]"
    by (auto simp: issuer_auth_from_cose_sign1_def case_four_Inr ebind_inv)
  with assms have sg: "issuer_signature L (ia_x5chain_der ia) [PBytes pb, PMap un, PBytes payload, PBytes sig] = Inr (Some True)"
    and mso: "issuer_mso L payload = Inr (ia_mso ia)"
    by (auto simp: issuer_auth_from_cose_sign1_def ebind_inv)
  from sg show ?thesis
  proof (rule issuer_signature_Some)
    fix leaf rest cert key
    assume leaf: "ia_x5chain_der ia = leaf # rest" "load_certificate L leaf = Inr cert" "cert_public_key cert = Inr key"
      and "verify_cose_sign1 L [PBytes pb, PMap un, PBytes payload, PBytes sig] key None [] = Inr True"
    from sign1.verify_True [OF this(4)] obtain alg msg where "cose_alg L (PBytes pb) (PMap un) = Inr alg"
      "cbor_dumps L (PList [S ''Signature1'', PBytes pb, PBytes [], PBytes payload]) = Inr msg"
      "check_signature L key alg sig msg = Inr True"
      by (auto simp: sig_structure_def)
    with leaf mso show ?thesis unfolding signed_by_issuer_def by blast
  qed
qed

section \<open>The device's signature or MAC\<close>

text \<open>
  \<open>payload\<close> is the encoding of the DeviceAuthentication array of ISO 18013-5 9.1.3.4 for this session,
  this document type and the device namespaces the mdoc sent, as an embedded CBOR item.
\<close>

definition device_authentication_of :: "lib \<Rightarrow> bytes \<Rightarrow> pystr \<Rightarrow> bytes \<Rightarrow> bytes \<Rightarrow> bool" where
  "device_authentication_of L session_transcript doc_type raw payload \<longleftrightarrow>
     (\<exists>transcript device_namespaces b. mdoc_loads L session_transcript = Inr transcript \<and>
        mdoc_loads L raw = Inr device_namespaces \<and>
        cbor_dumps L (PList [S ''DeviceAuthentication'', transcript, PStr doc_type, device_namespaces]) = Inr b \<and>
        cbor_dumps L (PTag 24 (PBytes b)) = Inr payload)"

lemma device_authentication_bytes_Inr:
  "device_authentication_bytes L session_transcript doc_type raw = Inr payload \<longleftrightarrow>
    device_authentication_of L session_transcript doc_type raw payload"
  by (auto simp: device_authentication_bytes_def device_authentication_of_def ebind_inv)

text \<open>
  The one DeviceAuth structure has an empty payload slot, and the device key of the MSO
  verifies it over the DeviceAuthentication bytes: by signature, or by a MAC under the key
  that only the holder of the device key shares with the reader's ephemeral key.
\<close>

definition authenticated_by_device :: "lib \<Rightarrow> parsed_document \<Rightarrow> bytes \<Rightarrow> nat \<Rightarrow> bool" where
  "authenticated_by_device L doc session_transcript e_reader_priv \<longleftrightarrow>
     (\<exists>mso key raw payload pb un sig alg msg. document_mso (pd_issuer_auth doc) = Some mso \<and>
        cose_key_to_public_key L (mso_device_key mso) = Inr key \<and>
        pd_device_namespaces_raw doc = Some raw \<and>
        device_authentication_of L session_transcript (pd_doc_type doc) raw payload \<and>
        cose_alg L (PBytes pb) (PMap un) = Inr alg \<and>
        (pd_device_auth_type doc = S ''deviceSignature'' \<and>
           cbor_dumps L (PList [S ''Signature1'', PBytes pb, PBytes [], PBytes payload]) = Inr msg \<and>
           check_signature L key alg sig msg = Inr True \<or>
         pd_device_auth_type doc = S ''deviceMac'' \<and> alg = HMAC_256_256_ALG \<and>
           cbor_dumps L (PList [S ''MAC0'', PBytes pb, PBytes [], PBytes payload]) = Inr msg \<and>
           (\<exists>zab emac_key. ecdh L e_reader_priv key = Inr zab \<and>
              derive_emac_key L zab session_transcript = Inr emac_key \<and> hmac_verify L emac_key msg sig)))"

lemma device_signature_verdict_True:
  assumes "device_signature_verdict L structure key payload = Inr (Some True)"
  shows "\<exists>pb un sig alg msg. cose_alg L (PBytes pb) (PMap un) = Inr alg \<and>
    cbor_dumps L (PList [S ''Signature1'', PBytes pb, PBytes [], PBytes payload]) = Inr msg \<and>
    check_signature L key alg sig msg = Inr True"
  using assms unfolding device_signature_verdict_def
  by (auto simp: case_four_Some ebind_inv sig_structure_def dest!: sign1.verify_True split: if_splits) blast

lemma device_mac_verdict_True:
  assumes "device_mac_verdict L structure key e_reader_priv session_transcript payload = Inr (Some True)"
  shows "\<exists>pb un tag msg zab emac_key. cose_alg L (PBytes pb) (PMap un) = Inr HMAC_256_256_ALG \<and>
    cbor_dumps L (PList [S ''MAC0'', PBytes pb, PBytes [], PBytes payload]) = Inr msg \<and>
    ecdh L e_reader_priv key = Inr zab \<and> derive_emac_key L zab session_transcript = Inr emac_key \<and>
    hmac_verify L emac_key msg tag"
  using assms unfolding device_mac_verdict_def
  by (auto simp: case_four_Some ebind_inv sig_structure_def check_mac_def dest!: verify_cose_mac0_True split: if_splits) blast

lemma device_auth_verdict_True:
  assumes "device_auth_verdict L device_auth auth_type key e_reader_priv session_transcript payload = Inr (Some True)"
  shows "(auth_type = S ''deviceSignature'' \<and>
      (\<exists>structure. device_signature_verdict L structure key payload = Inr (Some True))) \<or>
    (auth_type = S ''deviceMac'' \<and>
      (\<exists>structure. device_mac_verdict L structure key e_reader_priv session_transcript payload = Inr (Some True)))"
  using assms unfolding device_auth_verdict_def
  by (auto simp: ebind_inv split: if_splits public_key.splits)

lemma verify_device_auth_True:
  assumes "verify_device_auth L doc session_transcript e_reader_priv = Inr (Some True)"
  shows "authenticated_by_device L doc session_transcript e_reader_priv"
proof -
  from assms obtain device_auth mso raw where d: "pd_device_auth_cbor doc = PMap device_auth"
      "document_mso (pd_issuer_auth doc) = Some mso" "pd_device_namespaces_raw doc = Some raw"
    by (auto simp: verify_device_auth_def split: pyobj.splits option.splits)
  with assms obtain key payload where k: "cose_key_to_public_key L (mso_device_key mso) = Inr key"
      "device_authentication_of L session_transcript (pd_doc_type doc) raw payload"
    and v: "device_auth_verdict L device_auth (pd_device_auth_type doc) key e_reader_priv session_transcript payload = Inr (Some True)"
    by (auto simp: verify_device_auth_def ebind_inv device_authentication_bytes_Inr [symmetric] split: if_splits sum.splits)
  from device_auth_verdict_True [OF v] show ?thesis
  proof (elim disjE conjE exE)
    fix st
    assume t: "pd_device_auth_type doc = S ''deviceSignature''"
      and "device_signature_verdict L st key payload = Inr (Some True)"
    from device_signature_verdict_True [OF this(2)] d(2,3) k t show ?thesis
      unfolding authenticated_by_device_def by blast
  next
    fix st
    assume t: "pd_device_auth_type doc = S ''deviceMac''"
      and "device_mac_verdict L st key e_reader_priv session_transcript payload = Inr (Some True)"
    from device_mac_verdict_True [OF this(2)] d(2,3) k t show ?thesis
      unfolding authenticated_by_device_def by blast
  qed
qed

section \<open>Documents\<close>

lemma parse_issuer_signed_mso:
  assumes "parse_issuer_signed L m = Inr (issuer_auth, namespaces)"
  obtains ia mso source where "issuer_auth = Some ia" "ia_mso ia = Some mso"
    "issuer_auth_from_cose_sign1 L (get m (S ''issuerAuth'')) = Inr ia"
    "list_all2 (namespace_read_from L mso) source namespaces"
proof -
  from assms have ns: "parse_issuer_signed_namespaces L (get_or m (S ''nameSpaces'') (PMap [])) (document_mso issuer_auth) = Inr namespaces"
    and ia: "issuer_auth = None \<or> (\<exists>ia. issuer_auth = Some ia \<and> issuer_auth_from_cose_sign1 L (get m (S ''issuerAuth'')) = Inr ia)"
    by (auto simp: parse_issuer_signed_def Let_def ebind_inv split: if_splits)
  from ns obtain source mso where "document_mso issuer_auth = Some mso" "parse_namespaces L mso source = Inr namespaces"
    by (auto simp: parse_issuer_signed_namespaces_def ebind_inv)
  with ia that show ?thesis
    by (auto simp: document_mso_def split: option.splits dest: parse_namespaces_read_from)
qed

text \<open>A document that was parsed has an MSO, and its elements come from items the MSO lists.\<close>

definition well_parsed :: "lib \<Rightarrow> parsed_document \<Rightarrow> bool" where
  "well_parsed L d \<longleftrightarrow>
     (\<exists>ia mso source. pd_issuer_auth d = Some ia \<and> ia_mso ia = Some mso \<and>
        list_all2 (namespace_read_from L mso) source (pd_namespaces d) \<and>
        (ia_signature_valid ia = Some True \<longrightarrow> signed_by_issuer L ia))"

lemma parse_document_well_parsed:
  assumes "parse_document L doc = Inr d"
  shows "well_parsed L d \<and> pd_device_auth_valid d = None"
proof -
  from assms obtain m where "parse_issuer_signed L m = Inr (pd_issuer_auth d, pd_namespaces d)"
    and "pd_device_auth_valid d = None"
    by (auto simp: parse_document_def ebind_inv Let_def)
  from this(1) show ?thesis
  proof (rule parse_issuer_signed_mso)
    fix ia mso source
    assume "pd_issuer_auth d = Some ia" "ia_mso ia = Some mso" "issuer_auth_from_cose_sign1 L (get m (S ''issuerAuth'')) = Inr ia"
      "list_all2 (namespace_read_from L mso) source (pd_namespaces d)"
    with \<open>pd_device_auth_valid d = None\<close> show ?thesis
      unfolding well_parsed_def using issuer_auth_signed by blast
  qed
qed

text \<open>
  \<open>genuine\<close>: the issuer signed the MSO, the device key in it authenticated this session, and every
  element is an item whose digest is in that MSO.
\<close>

definition element_backed :: "lib \<Rightarrow> mobile_security_object \<Rightarrow> pystr \<Rightarrow> parsed_element \<Rightarrow> bool" where
  "element_backed L mso ns e \<longleftrightarrow>
     (\<exists>digests item. get (mso_value_digests mso) (PStr ns) = PMap digests \<and>
        read_from L mso digests item e \<and> digest_matches L mso digests item e)"

definition genuine :: "lib \<Rightarrow> bytes \<Rightarrow> nat \<Rightarrow> parsed_document \<Rightarrow> bool" where
  "genuine L session_transcript e_reader_priv d \<longleftrightarrow>
     (\<exists>ia mso. pd_issuer_auth d = Some ia \<and> ia_mso ia = Some mso \<and> signed_by_issuer L ia \<and>
        authenticated_by_device L d session_transcript e_reader_priv \<and>
        (\<forall>(ns, elements)\<in>set (pd_namespaces d). distinct (map pe_identifier elements) \<and>
           (\<forall>e\<in>set elements. element_backed L mso ns e)))"

lemma namespace_read_from_backed:
  assumes "namespace_read_from L mso src (ns, elements)" and "\<forall>e\<in>set elements. pe_digest_valid e = Some True"
  shows "distinct (map pe_identifier elements) \<and> (\<forall>e\<in>set elements. element_backed L mso ns e)"
proof -
  from assms(1) obtain items digests where d: "get (mso_value_digests mso) (PStr ns) = PMap digests"
      "list_all2 (read_from L mso digests) items elements" "distinct (map pe_identifier elements)"
    unfolding namespace_read_from_def by (metis fst_conv snd_conv)
  have "element_backed L mso ns e" if "e \<in> set elements" for e
  proof -
    from d(2) that obtain item where "read_from L mso digests item e"
      by (auto simp: list_all2_conv_all_nth in_set_conv_nth)
    with d(1) that assms(2) read_from_digest_matches show ?thesis
      unfolding element_backed_def by blast
  qed
  with d(3) show ?thesis by blast
qed

lemma disclosable_genuine:
  assumes "well_parsed L d" and "authenticated_by_device L d session_transcript e_reader_priv"
    and "document_disclosable doc_requests t d"
  shows "genuine L session_transcript e_reader_priv d"
proof -
  from assms(1) obtain ia mso source where ia: "pd_issuer_auth d = Some ia" "ia_mso ia = Some mso"
    and src: "list_all2 (namespace_read_from L mso) source (pd_namespaces d)"
    and sg: "ia_signature_valid ia = Some True \<longrightarrow> signed_by_issuer L ia"
    unfolding well_parsed_def by blast
  from assms(3) ia have valid: "ia_signature_valid ia = Some True"
    and digests: "\<forall>(ns, elements)\<in>set (pd_namespaces d). \<forall>e\<in>set elements. pe_digest_valid e = Some True"
    unfolding document_disclosable_def by auto
  have "distinct (map pe_identifier elements) \<and> (\<forall>e\<in>set elements. element_backed L mso ns e)"
    if "(ns, elements) \<in> set (pd_namespaces d)" for ns elements
  proof -
    from src that obtain p where "namespace_read_from L mso p (ns, elements)"
      by (metis list_all2_conv_all_nth in_set_conv_nth)
    with digests that show ?thesis by (intro namespace_read_from_backed) auto
  qed
  with ia sg valid assms(2) show ?thesis unfolding genuine_def by fastforce
qed

lemma authenticated_update [simp]:
  "authenticated_by_device L (d\<lparr>pd_device_auth_valid := v\<rparr>) st priv = authenticated_by_device L d st priv"
  "well_parsed L (d\<lparr>pd_device_auth_valid := v\<rparr>) = well_parsed L d"
  by (simp_all add: authenticated_by_device_def well_parsed_def)

section \<open>A concrete document\<close>

text \<open>
  One document with one element, on the table codec of \<open>demo_lib\<close>: byte strings 1 to 12 stand for
  the encoded item, the MSO, the headers and the signed structures.
\<close>

definition demo_item_random :: bytes where
  "demo_item_random = replicate 16 0"

definition demo_mso_cbor :: pyobj where
  "demo_mso_cbor = PMap
     [(S ''version'', S ''1.0''), (S ''digestAlgorithm'', S ''SHA-256''), (S ''docType'', S ''mdl''),
      (S ''valueDigests'', PMap [(S ''ns'', PMap [(PInt 0, PBytes [1, 2])])]),
      (S ''deviceKeyInfo'', PMap [(S ''deviceKey'', cose_key [3] [4])]),
      (S ''validityInfo'', PMap [(S ''signed'', PDateTime (TzOffset 0) 10),
         (S ''validFrom'', PDateTime (TzOffset 0) 10), (S ''validUntil'', PDateTime (TzOffset 0) 100)])]"

definition demo_device_signature :: pyobj where
  "demo_device_signature = PList [PBytes [5], PMap [], PNone, PBytes (to_bytes_be 32 1 @ to_bytes_be 32 7)]"

definition demo_doc :: pyobj where
  "demo_doc = PMap
     [(S ''docType'', S ''mdl''),
      (S ''issuerSigned'', PMap
         [(S ''nameSpaces'', PMap [(S ''ns'', PList [PTag 24 (PBytes [1])])]),
          (S ''issuerAuth'', PList [PBytes [5], PMap [(PInt 33, PBytes [48, 0])], PBytes [4], PBytes [1, 7]])]),
      (S ''deviceSigned'', PMap
         [(S ''nameSpaces'', PTag 24 (PBytes [7])),
          (S ''deviceAuth'', PMap [(S ''deviceSignature'', demo_device_signature)])])]"

definition demo_table :: "(bytes \<times> pyobj) list" where
  "demo_table =
     [([1], PMap [(S ''digestID'', PInt 0), (S ''random'', PBytes demo_item_random),
        (S ''elementIdentifier'', S ''given_name''), (S ''elementValue'', S ''Ann'')]),
      ([2], PTag 24 (PBytes [1])),
      ([3], demo_mso_cbor),
      ([4], PTag 24 (PBytes [3])),
      ([5], PMap [(PInt 1, PInt (-7))]),
      ([6], PList [S ''Signature1'', PBytes [5], PBytes [], PBytes [4]]),
      ([7], PMap []),
      ([8], PTag 24 (PBytes [7])),
      ([9], S ''transcript''),
      ([10], PList [S ''DeviceAuthentication'', S ''transcript'', S ''mdl'', PTag 24 (PBytes [7])]),
      ([11], PTag 24 (PBytes [10])),
      ([12], PList [S ''Signature1'', PBytes [5], PBytes [], PBytes [11]]),
      ([13], PMap [(S ''version'', S ''1.0''), (S ''documents'', PList [demo_doc]), (S ''status'', PInt 0)])]"

definition demo_requests :: "doc_request list" where
  "demo_requests = [\<lparr>dr_doc_type = U ''mdl'', dr_namespaces = [(U ''ns'', [U ''given_name''])]\<rparr>]"

text \<open>The parsed document.\<close>

definition demo_parsed :: parsed_document where
  "demo_parsed = (case parse_document (demo_lib demo_table) demo_doc of Inr d \<Rightarrow> d)"

lemma demo_parsed_eq: "parse_document (demo_lib demo_table) demo_doc = Inr demo_parsed"
proof -
  have "\<not> isl (parse_document (demo_lib demo_table) demo_doc)" by code_simp
  then show ?thesis unfolding demo_parsed_def by (cases "parse_document (demo_lib demo_table) demo_doc") auto
qed

lemma demo_device_auth: "verify_device_auth (demo_lib demo_table) demo_parsed [9] 0 = Inr (Some True)"
  by code_simp

section \<open>Properties\<close>

text \<open>
  C6: every document of a parsed DeviceResponse carries an MSO, and every element of it comes from
  its own tag-24 item: digest identifiers are unsigned 64-bit integers listed in the MSO for
  that namespace, salts have at least 16 bytes, and neither identifiers nor names repeat; a
  positive IssuerAuth verdict means the leaf certificate's key signed that MSO.
\<close>

theorem parsed_documents_come_from_mso_items:
  assumes "parse_device_response L plaintext = Inr response" and "d \<in> set (resp_documents response)"
  shows "well_parsed L d \<and> pd_device_auth_valid d = None"
proof -
  from assms(1) obtain raw_documents where "emap (parse_document L) raw_documents = Inr (resp_documents response)"
    by (auto simp: parse_device_response_def ebind_inv Let_def)
  then show ?thesis using assms(2) by (rule emap_memberE) (rule parse_document_well_parsed)
qed

theorem parsed_documents_come_from_mso_items_witness: "well_parsed (demo_lib demo_table) demo_parsed"
proof -
  have "\<not> isl (parse_device_response (demo_lib demo_table) [13])" by code_simp
  then obtain r where r: "parse_device_response (demo_lib demo_table) [13] = Inr r"
    by (cases "parse_device_response (demo_lib demo_table) [13]") auto
  have "(case parse_device_response (demo_lib demo_table) [13] of Inl _ \<Rightarrow> False | Inr r \<Rightarrow> demo_parsed \<in> set (resp_documents r))"
    by code_simp
  with r have "demo_parsed \<in> set (resp_documents r)" by simp
  from parsed_documents_come_from_mso_items [OF r this] show ?thesis by simp
qed

text \<open>
  C7: \<open>verify_device_auth\<close> answers yes only if the device key inside the MSO verifies, by a signature
  of the right algorithm or by an HMAC-256 tag under the session's EMacKey, the DeviceAuthentication
  bytes of this session transcript, this document type and these device namespaces.
\<close>

theorem device_auth_binds_session:
  assumes "verify_device_auth L doc session_transcript e_reader_priv = Inr (Some True)"
  shows "authenticated_by_device L doc session_transcript e_reader_priv"
  using assms by (rule verify_device_auth_True)

theorem device_auth_binds_session_witness: "authenticated_by_device (demo_lib demo_table) demo_parsed [9] 0"
  by (rule device_auth_binds_session [OF demo_device_auth])

text \<open>
  C3: a document that was parsed, given the verdict of \<open>verify_device_auth\<close> and then passed the
  disclosure policy is genuine: its issuer signed the MSO, its device key authenticated this
  session, and every element is an item whose re-encoded bytes have the digest that the MSO
  lists, under one of SHA-256, SHA-384 and SHA-512.
\<close>

theorem validated_document_is_genuine:
  assumes "parse_document L doc = Inr d"
    and "verify_device_auth L d session_transcript e_reader_priv = Inr v"
    and "document_disclosable doc_requests t (d\<lparr>pd_device_auth_valid := v\<rparr>)"
  shows "genuine L session_transcript e_reader_priv (d\<lparr>pd_device_auth_valid := v\<rparr>)"
proof -
  from assms(3) have "v = Some True" by (simp add: document_disclosable_def)
  with assms(2) have "authenticated_by_device L d session_transcript e_reader_priv"
    by (simp add: verify_device_auth_True)
  with parse_document_well_parsed [OF assms(1)] assms(3) show ?thesis
    by (intro disclosable_genuine) simp_all
qed

theorem validated_document_is_genuine_witness:
  "genuine (demo_lib demo_table) [9] 0 (demo_parsed\<lparr>pd_device_auth_valid := Some True\<rparr>)"
proof -
  have "document_failures demo_requests 50 (demo_parsed\<lparr>pd_device_auth_valid := Some True\<rparr>) = []"
    by code_simp
  then have "document_disclosable demo_requests 50 (demo_parsed\<lparr>pd_device_auth_valid := Some True\<rparr>)"
    by (simp add: no_document_failures)
  from validated_document_is_genuine [OF demo_parsed_eq demo_device_auth this] show ?thesis .
qed

end
