(* ===== verification/Cli_Read.thy ===== *)
theory Cli_Read
  imports Cli_Session Mdoc_Sound
begin

text \<open>
  \<open>run_read\<close> of \<open>cli.py\<close>: one proximity transaction, from the engagement to the claims on
  standard output, and the guarantee it is built for: claims come out only if every document
  passed the verification policy and, with a decision point, got its own explicit permit.
\<close>

section \<open>The command\<close>

definition prepare_request :: "environment \<Rightarrow> cli_args \<Rightarrow> session_setup \<Rightarrow> (doc_request list \<times> bytes) io" where
  "prepare_request R args setup =
     io_bind (pure (requested args)) (\<lambda>doc_requests.
     io_bind (pure (build_device_request (env_lib R) doc_requests)) (\<lambda>device_request_bytes.
     io_bind (dump_cbor R (arg_dump_cbor args) ''device_request.cbor'' device_request_bytes) (\<lambda>_.
     io_bind (pure (real_session_establishment (env_lib R) setup device_request_bytes)) (\<lambda>session_establishment_bytes.
     io_bind (dump_cbor R (arg_dump_cbor args) ''session_establishment.cbor'' session_establishment_bytes) (\<lambda>_.
     pure (Inr (doc_requests, session_establishment_bytes)))))))"

text \<open>\<open>except (ble.DeviceNotFoundError, asyncio.TimeoutError, ImportError)\<close>.\<close>

fun is_exchange_failure :: "exn \<Rightarrow> bool" where
  "is_exchange_failure DeviceNotFoundError = True"
| "is_exchange_failure TimeoutError = True"
| "is_exchange_failure (ImportError _) = True"
| "is_exchange_failure _ = False"

definition exchange_messages :: "environment \<Rightarrow> bool \<Rightarrow> device_engagement \<Rightarrow> bytes \<Rightarrow> bytes io" where
  "exchange_messages R use_peripheral_mode de se =
     (if use_peripheral_mode then
        (case de_peripheral_server_uuid de of
           None \<Rightarrow> pure (Inl AssertionError)
         | Some uuid \<Rightarrow> ([Exchanged True uuid se], env_central_exchange R uuid se))
      else
        (case de_central_client_uuid de of
           None \<Rightarrow> pure (Inl AssertionError)
         | Some uuid \<Rightarrow> ([Exchanged False uuid se], env_peripheral_exchange R uuid (de_e_device_key_bytes de) se)))"

definition verify_documents :: "lib \<Rightarrow> bytes \<Rightarrow> nat \<Rightarrow> parsed_document list \<Rightarrow> exn + parsed_document list" where
  "verify_documents L session_transcript e_reader_priv =
     emap (\<lambda>doc. ebind (verify_device_auth L doc session_transcript e_reader_priv)
       (\<lambda>v. Inr (doc\<lparr>pd_device_auth_valid := v\<rparr>)))"

text \<open>The body of the first \<open>try\<close>: parse, authenticate the device, apply the policy.\<close>

definition check_response ::
  "environment \<Rightarrow> session_setup \<Rightarrow> doc_request list \<Rightarrow> bytes \<Rightarrow> exn + (device_response \<times> failure list)" where
  "check_response R setup doc_requests plaintext =
     ebind (parse_device_response (env_lib R) plaintext) (\<lambda>response.
     ebind (verify_documents (env_lib R) (ss_session_transcript setup) (env_private_key R) (resp_documents response)) (\<lambda>docs.
     let response = response\<lparr>resp_documents := docs\<rparr> in
     ebind (validate_device_response response doc_requests PNone (env_clock R)) (\<lambda>validation_errors.
     Inr (response, validation_errors))))"

definition is_malformed_error :: "exn \<Rightarrow> bool" where
  "is_malformed_error e \<longleftrightarrow> class_of e \<in> {IsValueError, IsTypeError, IsKeyError, IsAttributeError}"

definition is_render_error :: "exn \<Rightarrow> bool" where
  "is_render_error e \<longleftrightarrow> class_of e \<in> {IsValueError, IsTypeError, IsRecursionError}"

definition render :: "lib \<Rightarrow> cli_args \<Rightarrow> device_response \<Rightarrow> printed" where
  "render L args response = (if arg_json args then to_json L response else write_device_response L response)"

definition release_claims :: "environment \<Rightarrow> cli_args \<Rightarrow> device_response \<Rightarrow> int io" where
  "release_claims R args response =
     (case render (env_lib R) args response of
        Inl e \<Rightarrow> if is_render_error e then exit_with (RenderFailed e) 1 else pure (Inl e)
      | Inr rendered \<Rightarrow> io_bind (emit (Released (if arg_json args then rendered @ [10] else rendered))) (\<lambda>_. pure (Inr 0)))"

definition authorize_and_release :: "environment \<Rightarrow> cli_args \<Rightarrow> device_response \<Rightarrow> int io" where
  "authorize_and_release R args response =
     (case arg_pdp_url args of
        None \<Rightarrow> release_claims R args response
      | Some url \<Rightarrow>
          (case authorize_documents (env_trust R) 0 (resp_documents response) url (arg_mdoc_issuer_role args) (env_bearer_token R) of
             Inl e \<Rightarrow> if class_of e = IsTrustError then exit_with (TrustFailed e) 1 else pure (Inl e)
           | Inr _ \<Rightarrow>
               io_bind (emit (Diagnostic (PermitCount (length (resp_documents response))))) (\<lambda>_.
               release_claims R args response)))"

definition handle_plaintext ::
  "environment \<Rightarrow> cli_args \<Rightarrow> session_setup \<Rightarrow> doc_request list \<Rightarrow> bytes \<Rightarrow> int io" where
  "handle_plaintext R args setup doc_requests plaintext =
     (case check_response R setup doc_requests plaintext of
        Inl e \<Rightarrow> if is_malformed_error e then exit_with (MalformedResponse e) 1 else pure (Inl e)
      | Inr (response, validation_errors) \<Rightarrow>
          if validation_errors \<noteq> [] then exit_with (VerificationFailed validation_errors) 1
          else authorize_and_release R args response)"

definition handle_session_data ::
  "environment \<Rightarrow> cli_args \<Rightarrow> session_setup \<Rightarrow> doc_request list \<Rightarrow> bytes \<Rightarrow> int io" where
  "handle_session_data R args setup doc_requests answer_bytes =
     io_bind (pure (cbor_loads (env_lib R) answer_bytes)) (\<lambda>session_data.
     io_bind (pure (contains_key session_data ''data'')) (\<lambda>has_data.
     if \<not> has_data then no_data (env_lib R) session_data 1
     else
       io_bind (pure (item_of session_data ''data'')) (\<lambda>ciphertext.
       io_bind (pure (decrypt_device_message (env_lib R) (ss_sk_device setup) 1 ciphertext)) (\<lambda>plaintext.
       handle_plaintext R args setup doc_requests plaintext))))"

definition transact ::
  "environment \<Rightarrow> cli_args \<Rightarrow> session_setup \<Rightarrow> doc_request list \<Rightarrow> bytes \<Rightarrow> bool \<Rightarrow> int io" where
  "transact R args setup doc_requests session_establishment_bytes use_peripheral_mode =
     (case exchange_messages R use_peripheral_mode (ss_de setup) session_establishment_bytes of
       (events, Inl e) \<Rightarrow>
         if is_exchange_failure e then (events @ [Diagnostic (TransportFailed e)], Inr 1) else (events, Inl e)
     | (events, Inr answer_bytes) \<Rightarrow>
         io_bind (events, Inr ()) (\<lambda>_. handle_session_data R args setup doc_requests answer_bytes))"

definition run_read :: "environment \<Rightarrow> cli_args \<Rightarrow> int io" where
  "run_read R args =
     io_bind (setup_session R args) (\<lambda>setup.
     io_bind (prepare_request R args setup) (\<lambda>(doc_requests, session_establishment_bytes).
     io_bind (pure (resolve_mode (arg_mode args) (ss_de setup))) (\<lambda>use_peripheral_mode.
     io_bind (emit (Printed [10])) (\<lambda>_.
     transact R args setup doc_requests session_establishment_bytes use_peripheral_mode))))"

section \<open>Which events a step can emit\<close>

definition emits :: "(event \<Rightarrow> bool) \<Rightarrow> 'a io \<Rightarrow> bool" where
  "emits P m \<longleftrightarrow> (\<forall>ev\<in>set (fst m). P ev)"

named_theorems emits_intros \<open>events of composed steps\<close>

lemma emits_bind [emits_intros]: "emits P m \<Longrightarrow> (\<And>x. snd m = Inr x \<Longrightarrow> emits P (f x)) \<Longrightarrow> emits P (io_bind m f)"
  by (auto simp: emits_def set_io_bind)

lemma emits_pure [emits_intros, simp]: "emits P (pure r)"
  by (simp add: emits_def)

lemma emits_emit [simp]: "emits P (emit ev) \<longleftrightarrow> P ev"
  by (simp add: emits_def)

lemma emits_exit [simp]: "emits P (exit_with d code) \<longleftrightarrow> P (Diagnostic d)"
  by (simp add: emits_def)

text \<open>Claims are shown by no step but the last.\<close>

definition not_release :: "event \<Rightarrow> bool" where
  "not_release ev \<longleftrightarrow> (\<forall>out. ev \<noteq> Released out)"

lemma not_release_simps [simp]:
  "not_release (Printed t)" "not_release (Diagnostic d)" "not_release (Dumped x y z)" "not_release (Exchanged b u m)"
  "not_release (Written w)" "not_release (Page h br)"
  "\<not> not_release (Released out)"
  by (auto simp: not_release_def)

definition releases :: "event list \<Rightarrow> bool" where
  "releases events \<longleftrightarrow> (\<exists>out. Released out \<in> set events)"

text \<open>
  The only files written are the engagement and the messages the tool itself sends: never what
  the mdoc answered.
\<close>

definition dump_names :: "string list" where
  "dump_names = [''engagement.cbor'', ''device_request.cbor'', ''session_establishment.cbor'']"

definition dumps_own_messages :: "event \<Rightarrow> bool" where
  "dumps_own_messages ev \<longleftrightarrow> (\<forall>dir name data. ev = Dumped dir name data \<longrightarrow> name \<in> U ` set dump_names)"

lemma dumps_own_messages_simps [simp]:
  "dumps_own_messages (Printed t)" "dumps_own_messages (Diagnostic d)" "dumps_own_messages (Exchanged b u m)"
  "dumps_own_messages (Written w)" "dumps_own_messages (Page h br)"
  "dumps_own_messages (Released out)" "dumps_own_messages (Dumped x n z) \<longleftrightarrow> n \<in> U ` set dump_names"
  by (auto simp: dumps_own_messages_def)

lemma emits_dump: "(\<And>dir. P (Dumped dir (U name) data)) \<Longrightarrow> emits P (dump_cbor R dir name data)"
  by (auto simp: dump_cbor_def split: option.split intro!: emits_intros)

text \<open>A transport failure is reported only for the exceptions that are caught.\<close>

fun expected_diagnostic :: "diagnostic \<Rightarrow> bool" where
  "expected_diagnostic (TransportFailed e) = is_exchange_failure e"
| "expected_diagnostic _ = True"

text \<open>The steps before the answer arrives, and the ones that end early.\<close>

lemma emits_setup:
  assumes "\<And>t. P (Printed t)" "\<And>d. P (Diagnostic d)" "\<And>dir data. P (Dumped dir (U ''engagement.cbor'') data)"
  shows "emits P (setup_session R args)"
  using assms by (auto simp: setup_session_def print_engagement_def intro!: emits_intros emits_dump)

lemma emits_prepare:
  assumes "\<And>dir data. P (Dumped dir (U ''device_request.cbor'') data)"
    and "\<And>dir data. P (Dumped dir (U ''session_establishment.cbor'') data)"
  shows "emits P (prepare_request R args setup)"
  using assms by (auto simp: prepare_request_def intro!: emits_intros emits_dump)

lemma emits_no_data: "(\<And>d. expected_diagnostic d \<Longrightarrow> P (Diagnostic d)) \<Longrightarrow> emits P (no_data L session_data code)"
  by (auto simp: no_data_def intro!: emits_intros)

lemma emits_exchange: "(\<And>b u m. P (Exchanged b u m)) \<Longrightarrow> emits P (exchange_messages R b de se)"
  by (auto simp: exchange_messages_def emits_def pure_def split: option.split)

lemma emits_release:
  assumes "\<And>d. expected_diagnostic d \<Longrightarrow> P (Diagnostic d)" "\<And>out. P (Released out)"
  shows "emits P (authorize_and_release R args response)"
  using assms by (auto simp: authorize_and_release_def release_claims_def split: sum.split option.split intro!: emits_intros)

lemma emits_handle:
  assumes "\<And>d. expected_diagnostic d \<Longrightarrow> P (Diagnostic d)" "\<And>out. P (Released out)"
  shows "emits P (handle_session_data R args setup doc_requests sd)"
  using assms
  by (auto simp: handle_session_data_def handle_plaintext_def emits_no_data emits_release split: sum.split intro!: emits_intros)

section \<open>What is released\<close>

definition authorized :: "environment \<Rightarrow> cli_args \<Rightarrow> device_response \<Rightarrow> bool" where
  "authorized R args response \<longleftrightarrow>
     (\<forall>url. arg_pdp_url args = Some url \<longrightarrow>
        (\<forall>i<length (resp_documents response). \<exists>payload.
           build_authzen_request (env_trust R) (resp_documents response ! i) (arg_mdoc_issuer_role args) = Inr payload \<and>
           explicit_permit (env_trust R) i payload url (env_bearer_token R)))"

definition shown :: "environment \<Rightarrow> cli_args \<Rightarrow> device_response \<Rightarrow> pystr \<Rightarrow> bool" where
  "shown R args response out \<longleftrightarrow>
     (\<exists>rendered. render (env_lib R) args response = Inr rendered \<and>
        out = (if arg_json args then rendered @ [10] else rendered))"

lemma release_claims_Released:
  "Released out \<in> set (fst (release_claims R args response)) \<longleftrightarrow> shown R args response out"
  by (auto simp: release_claims_def shown_def split: sum.split)

lemma authorize_and_release_Released:
  "Released out \<in> set (fst (authorize_and_release R args response)) \<longleftrightarrow>
    authorized R args response \<and> shown R args response out"
proof (cases "arg_pdp_url args")
  case (Some url)
  then show ?thesis
    using authorize_documents_Inr [of "env_trust R" 0 "resp_documents response" url "arg_mdoc_issuer_role args" "env_bearer_token R"]
    by (auto simp: authorize_and_release_def authorized_def release_claims_Released split: sum.split)
qed (simp add: authorize_and_release_def authorized_def release_claims_Released)

lemma handle_plaintext_Released:
  "Released out \<in> set (fst (handle_plaintext R args setup doc_requests plaintext)) \<longleftrightarrow>
    (\<exists>response. check_response R setup doc_requests plaintext = Inr (response, []) \<and>
       authorized R args response \<and> shown R args response out)"
  by (auto simp: handle_plaintext_def authorize_and_release_Released split: sum.split)

text \<open>A command ends with exit code 0 exactly when it released something.\<close>

definition zero_iff_released :: "int io \<Rightarrow> bool" where
  "zero_iff_released m \<longleftrightarrow> (snd m = Inr 0 \<longleftrightarrow> releases (fst m))"

lemma zero_release: "zero_iff_released (release_claims R args response)"
  by (auto simp: zero_iff_released_def release_claims_def releases_def split: sum.split)

lemma zero_exit: "code \<noteq> 0 \<Longrightarrow> zero_iff_released (exit_with d code)"
  by (simp add: zero_iff_released_def releases_def)

lemma zero_raise: "zero_iff_released (pure (Inl e))"
  by (simp add: zero_iff_released_def releases_def)

lemma zero_bind:
  assumes "emits not_release m" and "\<And>x. snd m = Inr x \<Longrightarrow> zero_iff_released (f x)"
  shows "zero_iff_released (io_bind m f)"
proof (cases "snd m")
  case (Inl e)
  with assms(1) show ?thesis
    by (auto simp: zero_iff_released_def releases_def emits_def set_io_bind io_bind_Inr not_release_def)
next
  case (Inr x)
  with assms(1) assms(2) [OF Inr] show ?thesis
    by (auto simp: zero_iff_released_def releases_def emits_def set_io_bind io_bind_Inr not_release_def)
qed

lemma zero_no_data: "zero_iff_released (no_data L session_data 1)"
  by (auto simp: no_data_def intro!: zero_bind zero_exit)

lemma zero_authorize: "zero_iff_released (authorize_and_release R args response)"
  by (auto simp: authorize_and_release_def intro!: zero_bind zero_release zero_exit zero_raise split: option.split sum.split)

lemma zero_handle: "zero_iff_released (handle_session_data R args setup doc_requests sd)"
  by (auto simp: handle_session_data_def handle_plaintext_def split: sum.split
      intro!: zero_bind zero_no_data zero_authorize zero_exit zero_raise)

text \<open>The response passed the policy, and every document of it is genuine.\<close>

lemma check_response_disclosable:
  "check_response R setup doc_requests plaintext = Inr (response, []) \<Longrightarrow> disclosable response doc_requests (env_clock R)"
  by (auto simp: check_response_def ebind_inv Let_def validate_Nil)

lemma check_response_document:
  assumes "check_response R setup doc_requests plaintext = Inr (response, errors)" "d \<in> set (resp_documents response)"
  obtains raw doc v where "parse_document (env_lib R) raw = Inr doc"
    "verify_device_auth (env_lib R) doc (ss_session_transcript setup) (env_private_key R) = Inr v"
    "d = doc\<lparr>pd_device_auth_valid := v\<rparr>"
proof -
  from assms obtain parsed docs where p: "parse_device_response (env_lib R) plaintext = Inr parsed"
      "verify_documents (env_lib R) (ss_session_transcript setup) (env_private_key R) (resp_documents parsed) = Inr docs"
      "d \<in> set docs"
    by (auto simp: check_response_def ebind_inv Let_def)
  from p(2,3) obtain doc v where doc: "doc \<in> set (resp_documents parsed)"
    and d: "verify_device_auth (env_lib R) doc (ss_session_transcript setup) (env_private_key R) = Inr v"
      "d = doc\<lparr>pd_device_auth_valid := v\<rparr>"
    unfolding verify_documents_def by (rule emap_memberE) (auto simp: ebind_inv)
  from p(1) obtain raws where "emap (parse_document (env_lib R)) raws = Inr (resp_documents parsed)"
    by (auto simp: parse_device_response_def ebind_inv Let_def)
  then obtain raw where "parse_document (env_lib R) raw = Inr doc" using doc by (rule emap_memberE)
  then show thesis using d by (rule that)
qed

lemma check_response_genuine:
  assumes "check_response R setup doc_requests plaintext = Inr (response, [])" "d \<in> set (resp_documents response)"
  shows "genuine (env_lib R) (ss_session_transcript setup) (env_private_key R) d"
proof -
  from assms obtain raw doc v where p: "parse_document (env_lib R) raw = Inr doc"
    and d: "verify_device_auth (env_lib R) doc (ss_session_transcript setup) (env_private_key R) = Inr v"
      "d = doc\<lparr>pd_device_auth_valid := v\<rparr>"
    by (rule check_response_document)
  from check_response_disclosable [OF assms(1)] assms(2) have dd: "document_disclosable doc_requests (env_clock R) d"
    by (simp add: disclosable_def)
  with d(2) have "v = Some True" by (simp add: document_disclosable_def)
  with d have "authenticated_by_device (env_lib R) d (ss_session_transcript setup) (env_private_key R)"
    by (simp add: verify_device_auth_True)
  moreover from parse_document_well_parsed [OF p] have "well_parsed (env_lib R) d" using d(2) by simp
  ultimately show ?thesis using dd by (intro disclosable_genuine)
qed

lemma handle_session_data_Released:
  assumes "Released out \<in> set (fst (handle_session_data R args setup doc_requests sd))"
  obtains session_data ciphertext plaintext response
    where "cbor_loads (env_lib R) sd = Inr session_data" "item_of session_data ''data'' = Inr ciphertext"
      "decrypt_device_message (env_lib R) (ss_sk_device setup) 1 ciphertext = Inr plaintext"
      "check_response R setup doc_requests plaintext = Inr (response, [])"
      "authorized R args response" "shown R args response out"
proof -
  have "Released out \<notin> set (fst (no_data L x code))" for L x code
    using emits_no_data [of not_release L x code] by (auto simp: emits_def)
  with assms show thesis
    using that by (auto simp: handle_session_data_def set_io_bind handle_plaintext_Released split: if_splits)
qed

lemma setup_session_Inr:
  "snd (setup_session R args) = Inr setup \<Longrightarrow>
    \<exists>de. load_engagement R args = Inr de \<and> derive_session R args de = Inr setup"
  by (auto simp: setup_session_def io_bind_Inr)

lemma prepare_request_Inr:
  "snd (prepare_request R args setup) = Inr (reqs, se) \<Longrightarrow>
    requested args = Inr reqs \<and>
    (\<exists>request. build_device_request (env_lib R) reqs = Inr request \<and> real_session_establishment (env_lib R) setup request = Inr se)"
  by (auto simp: prepare_request_def io_bind_Inr)

lemma transact_Released:
  assumes "Released out \<in> set (fst (transact R args ss reqs se b))"
  obtains sd where "snd (exchange_messages R b (ss_de ss) se) = Inr sd"
    "Released out \<in> set (fst (handle_session_data R args ss reqs sd))"
proof -
  have "Released out \<notin> set (fst (exchange_messages R b (ss_de ss) se))"
    using emits_exchange [of not_release R b "ss_de ss" se] by (auto simp: emits_def)
  with assms that show thesis
    by (auto simp: transact_def set_io_bind split: prod.splits sum.splits if_splits)
qed

lemma emits_transact:
  assumes "\<And>d. expected_diagnostic d \<Longrightarrow> P (Diagnostic d)" "\<And>out. P (Released out)" "\<And>b u m. P (Exchanged b u m)"
  shows "emits P (transact R args ss reqs se b)"
  using emits_exchange [of P R b "ss_de ss" se] emits_handle [of P R args ss reqs] assms
  by (auto simp: transact_def emits_def set_io_bind split: prod.split sum.split)

lemma zero_transact: "zero_iff_released (transact R args ss reqs se b)"
proof -
  obtain events r where er: "exchange_messages R b (ss_de ss) se = (events, r)"
    by (cases "exchange_messages R b (ss_de ss) se")
  have quiet: "\<forall>ev\<in>set events. not_release ev"
    using emits_exchange [of not_release R b "ss_de ss" se] er by (simp add: emits_def)
  then have "zero_iff_released (io_bind (events, Inr ()) (\<lambda>_. handle_session_data R args ss reqs sd))" for sd
    by (intro zero_bind zero_handle) (simp add: emits_def)
  with er quiet show ?thesis
    by (auto simp: transact_def zero_iff_released_def releases_def split: sum.split)
qed

lemma zero_run_read: "zero_iff_released (run_read R args)"
  unfolding run_read_def
  by (intro zero_bind) (auto simp: emits_setup emits_prepare intro!: zero_bind zero_transact split: prod.split)

text \<open>The path of a run that released something, from the session to the answer.\<close>

lemma run_read_path:
  assumes "Released out \<in> set (fst (run_read R args))"
  obtains ss reqs se b sd where "snd (setup_session R args) = Inr ss"
    "snd (prepare_request R args ss) = Inr (reqs, se)" "resolve_mode (arg_mode args) (ss_de ss) = Inr b"
    "snd (exchange_messages R b (ss_de ss) se) = Inr sd"
    "Released out \<in> set (fst (handle_session_data R args ss reqs sd))"
proof -
  have q1: "Released out \<notin> set (fst (setup_session R args))"
    using emits_setup [of not_release R args] by (auto simp: emits_def)
  have q2: "Released out \<notin> set (fst (prepare_request R args ss))" for ss
    using emits_prepare [of not_release R args ss] by (auto simp: emits_def)
  from assms q1 q2 obtain ss reqs se b where "snd (setup_session R args) = Inr ss"
      "snd (prepare_request R args ss) = Inr (reqs, se)" "resolve_mode (arg_mode args) (ss_de ss) = Inr b"
      "Released out \<in> set (fst (transact R args ss reqs se b))"
    by (auto simp: run_read_def set_io_bind)
  with that show thesis by (meson transact_Released)
qed

lemma run_read_Released:
  assumes "Released out \<in> set (fst (run_read R args))"
  obtains ss reqs sd where "snd (setup_session R args) = Inr ss" "requested args = Inr reqs"
    "Released out \<in> set (fst (handle_session_data R args ss reqs sd))"
  using assms that prepare_request_Inr by (elim run_read_path) blast

section \<open>Properties\<close>

text \<open>
  C1: \<open>read\<close> prints the claims of a response only if the response was decrypted under this
  session's device key, parsed, and satisfies the disclosure policy for what was requested at
  the time of the check; if every document in it is genuine (signed MSO, device authenticated
  for this session transcript and this reader key, every element's digest in the MSO); and if,
  when a decision point is configured, each document got its own explicit permit.  What is
  printed is the rendering of that response.
\<close>

theorem read_discloses_only_verified_claims:
  assumes "Released out \<in> set (fst (run_read R args))"
  shows "\<exists>de setup reqs ciphertext plaintext response.
    load_engagement R args = Inr de \<and> derive_session R args de = Inr setup \<and> requested args = Inr reqs \<and>
    decrypt_device_message (env_lib R) (ss_sk_device setup) 1 ciphertext = Inr plaintext \<and>
    check_response R setup reqs plaintext = Inr (response, []) \<and>
    disclosable response reqs (env_clock R) \<and>
    (\<forall>d\<in>set (resp_documents response). genuine (env_lib R) (ss_session_transcript setup) (env_private_key R) d) \<and>
    authorized R args response \<and> shown R args response out"
proof -
  from assms obtain ss reqs sd where s: "snd (setup_session R args) = Inr ss" "requested args = Inr reqs"
    and "Released out \<in> set (fst (handle_session_data R args ss reqs sd))"
    by (rule run_read_Released)
  from this(3) obtain ciphertext plaintext response
    where h: "decrypt_device_message (env_lib R) (ss_sk_device ss) 1 ciphertext = Inr plaintext"
      "check_response R ss reqs plaintext = Inr (response, [])" "authorized R args response" "shown R args response out"
    by (rule handle_session_data_Released)
  from setup_session_Inr [OF s(1)] s(2) h check_response_genuine [OF h(2)] check_response_disclosable [OF h(2)]
  show ?thesis by blast
qed

text \<open>
  C9: the exit code of \<open>read\<close> is 0 exactly when claims were printed: every refusal, by the
  transport, the parser, the policy, the decision point or the renderer, ends with another code
  or an exception, and prints none.
\<close>

theorem read_exit_code_tells_release:
  "snd (run_read R args) = Inr 0 \<longleftrightarrow> releases (fst (run_read R args))"
  using zero_run_read [of R args] by (simp add: zero_iff_released_def)


section \<open>A concrete transaction\<close>

text \<open>
  The document of \<open>Mdoc_Sound\<close>, answered to a \<open>read\<close> of \<open>mdl:ns:given_name\<close> over the central role, with
  a decision point that permits.
\<close>

definition demo_session_table :: "(bytes \<times> pyobj) list" where
  "demo_session_table = demo_table @
     [([30], PMap [(PInt 0, S ''1.0''), (PInt 1, PList [PInt 1, PTag 24 (PBytes [31])]),
        (PInt 2, PList [PList [PInt 2, PInt 1, PMap [(PInt 10, PBytes (replicate 16 9))]]])]),
      ([31], cose_key [3] [4]),
      ([255], S ''transcript''),
      ([40], PMap [(S ''data'', PBytes (replicate 7 0 @ [1, 0, 0, 0, 1, 13]))])]"

definition demo_environment :: environment where
  "demo_environment = \<lparr>env_lib = demo_lib demo_session_table, env_trust = demo_env,
     env_scan_camera = Inl (ImportError ''camera''), env_read_qr_image = (\<lambda>p. Inl (ImportError ''qr'')),
     env_read_file = (\<lambda>p. Inl (LibError 3 IsOtherError)), env_write_file = (\<lambda>d n b. Inr ()),
     env_private_key = 0, env_random = (\<lambda>n. replicate n 7), env_central_exchange = (\<lambda>uuid se. Inr [40]),
     env_peripheral_exchange = (\<lambda>uuid key se. Inl TimeoutError),
     env_advertisements = [(''aa:bb'', Some [uuid_text (replicate 16 9)])], env_raises = (\<lambda>n. None), env_mtu = 23, env_reconnect = (\<lambda>n. None), env_elapsed = (\<lambda>n. 1), env_clock = 50, env_bearer_token = None\<rparr>"

definition demo_args :: "pystr \<Rightarrow> cli_args" where
  "demo_args request = \<lparr>arg_mdoc_uri = Some (U ''mdoc:Hg''), arg_qr_image = None, arg_qr_camera = False,
     arg_request = [request], arg_mode = ''auto'', arg_nfc_handover_hex = None, arg_nfc_handover_file = None,
     arg_pdp_url = Some (U ''https://pdp''), arg_mdoc_issuer_role = U ''pid-provider'', arg_json = False,
     arg_dump_cbor = Some (U ''d''), arg_keep_inside = True, arg_keep_scaled = (\<lambda>n. Inr (7 * int n div 10)),
     arg_skip_state_start = False, arg_cycles = 2, arg_delay = 0\<rparr>"

fun released_text :: "event \<Rightarrow> pystr option" where
  "released_text (Released out) = Some out"
| "released_text _ = None"

lemma released_text_Some: "released_text ev = Some out \<longleftrightarrow> ev = Released out"
  by (cases ev) auto

lemma demo_releases: "\<exists>out. Released out \<in> set (fst (run_read demo_environment (demo_args (U ''mdl:ns:given_name''))))"
proof -
  have "list_ex (\<lambda>ev. released_text ev \<noteq> None) (fst (run_read demo_environment (demo_args (U ''mdl:ns:given_name''))))"
    by code_simp
  then show ?thesis by (auto simp: list_ex_iff released_text_Some)
qed

theorem read_discloses_only_verified_claims_witness:
  "\<exists>response out. authorized demo_environment (demo_args (U ''mdl:ns:given_name'')) response \<and>
    shown demo_environment (demo_args (U ''mdl:ns:given_name'')) response out"
proof -
  from demo_releases obtain out where "Released out \<in> set (fst (run_read demo_environment (demo_args (U ''mdl:ns:given_name''))))"
    by blast
  from read_discloses_only_verified_claims [OF this] show ?thesis by blast
qed


end
