(* ===== verification/Fuzz.thy ===== *)
theory Fuzz
  imports Mdoc_Document
begin

text \<open>
  \<open>fuzz.py\<close>: the deliberate deviations of the fuzz scenarios.
\<close>

datatype scenario =
    GARBAGE_CBOR_REQUEST
  | CORRUPT_CIPHERTEXT
  | TRUNCATED_SESSION_ESTABLISHMENT
  | DROP_MID_CHUNK
  | DISCONNECT_AFTER_CONNECT
  | RAPID_RECONNECT

fun scenario_value :: "scenario \<Rightarrow> string" where
  "scenario_value GARBAGE_CBOR_REQUEST = ''garbage-cbor-request''"
| "scenario_value CORRUPT_CIPHERTEXT = ''corrupt-ciphertext''"
| "scenario_value TRUNCATED_SESSION_ESTABLISHMENT = ''truncated-session-establishment''"
| "scenario_value DROP_MID_CHUNK = ''drop-mid-chunk''"
| "scenario_value DISCONNECT_AFTER_CONNECT = ''disconnect-after-connect''"
| "scenario_value RAPID_RECONNECT = ''rapid-reconnect''"

definition all_scenarios :: "scenario list" where
  "all_scenarios = [GARBAGE_CBOR_REQUEST, CORRUPT_CIPHERTEXT, TRUNCATED_SESSION_ESTABLISHMENT, DROP_MID_CHUNK,
     DISCONNECT_AFTER_CONNECT, RAPID_RECONNECT]"

text \<open>\<open>Scenario(value)\<close>.\<close>

definition scenario_of :: "string \<Rightarrow> exn + scenario" where
  "scenario_of name =
     (case find (\<lambda>s. scenario_value s = name) all_scenarios of
        None \<Rightarrow> Inl (ValueError ''is not a valid Scenario'') | Some s \<Rightarrow> Inr s)"

fun SCENARIO_DESCRIPTIONS :: "scenario \<Rightarrow> string" where
  "SCENARIO_DESCRIPTIONS GARBAGE_CBOR_REQUEST =
     ''Send a structurally valid, correctly-encrypted SessionEstablishment '' @
     ''whose decrypted DeviceRequest is random bytes, not CBOR at all.''"
| "SCENARIO_DESCRIPTIONS CORRUPT_CIPHERTEXT =
     ''Encrypt a real DeviceRequest, then flip a bit in the ciphertext - '' @
     ''AES-GCM'' @ [CHR 0x27] @ ''s integrity check should fail on decrypt.''"
| "SCENARIO_DESCRIPTIONS TRUNCATED_SESSION_ESTABLISHMENT =
     ''Build a real SessionEstablishment, then truncate the encoded bytes '' @
     ''before sending - the outer CBOR structure itself is incomplete.''"
| "SCENARIO_DESCRIPTIONS DROP_MID_CHUNK =
     ''Start a real chunked SessionEstablishment transfer, then disconnect '' @
     ''before sending the final chunk.''"
| "SCENARIO_DESCRIPTIONS DISCONNECT_AFTER_CONNECT =
     ''Connect (optionally writing STATE_START), then disconnect '' @
     ''immediately without ever sending a request.''"
| "SCENARIO_DESCRIPTIONS RAPID_RECONNECT =
     ''Connect and disconnect repeatedly in quick succession, without ever '' @
     ''sending a request.''"

definition CIPHERTEXT_LEVEL_SCENARIOS :: "scenario list" where
  "CIPHERTEXT_LEVEL_SCENARIOS = [GARBAGE_CBOR_REQUEST, CORRUPT_CIPHERTEXT, TRUNCATED_SESSION_ESTABLISHMENT]"

definition TRANSPORT_LEVEL_SCENARIOS :: "scenario list" where
  "TRANSPORT_LEVEL_SCENARIOS = [DROP_MID_CHUNK, DISCONNECT_AFTER_CONNECT, RAPID_RECONNECT]"

unbundle bit_operations_syntax

definition corrupt_ciphertext :: "bytes \<Rightarrow> exn + bytes" where
  "corrupt_ciphertext ciphertext =
     (if ciphertext = [] then Inl (ValueError ''ciphertext is empty, nothing to corrupt'')
      else Inr (butlast ciphertext @ [last ciphertext XOR 1]))"

text \<open>\<open>garbage\<close> is what \<open>os.urandom(size)\<close> returned.\<close>

definition build_garbage_request_session_establishment :: "lib \<Rightarrow> pyobj \<Rightarrow> bytes \<Rightarrow> bytes \<Rightarrow> exn + bytes" where
  "build_garbage_request_session_establishment L e_reader_key_tag sk_reader garbage =
     ebind (encrypt_reader_message L sk_reader 1 garbage) (\<lambda>ciphertext.
     build_session_establishment L e_reader_key_tag ciphertext)"

definition build_corrupt_ciphertext_session_establishment :: "lib \<Rightarrow> pyobj \<Rightarrow> bytes \<Rightarrow> bytes \<Rightarrow> exn + bytes" where
  "build_corrupt_ciphertext_session_establishment L e_reader_key_tag sk_reader device_request_bytes =
     ebind (encrypt_reader_message L sk_reader 1 device_request_bytes) (\<lambda>ciphertext.
     ebind (corrupt_ciphertext ciphertext) (\<lambda>corrupted.
     build_session_establishment L e_reader_key_tag corrupted))"

text \<open>
  A keep fraction is a float: \<open>inside\<close> is \<open>0 < keep_fraction < 1\<close> and \<open>scaled n\<close> is
  \<open>int(n * keep_fraction)\<close>, which raises when the product is not finite.
\<close>

definition truncate_session_establishment :: "bool \<Rightarrow> (nat \<Rightarrow> exn + int) \<Rightarrow> bytes \<Rightarrow> exn + bytes" where
  "truncate_session_establishment inside scaled session_establishment_bytes =
     (if \<not> inside then Inl (ValueError ''keep_fraction must be strictly between 0 and 1'') else
      ebind (scaled (length session_establishment_bytes)) (\<lambda>k.
      Inr (take (nat (max 1 k)) session_establishment_bytes)))"

section \<open>Lemmas\<close>

lemma scenario_of_value: "scenario_of name = Inr s \<longleftrightarrow> scenario_value s = name"
  by (cases s) (auto simp: scenario_of_def all_scenarios_def split: if_splits)

lemma scenario_levels: "s \<in> set TRANSPORT_LEVEL_SCENARIOS \<longleftrightarrow> s \<notin> set CIPHERTEXT_LEVEL_SCENARIOS"
  by (cases s) (simp_all add: CIPHERTEXT_LEVEL_SCENARIOS_def TRANSPORT_LEVEL_SCENARIOS_def)

lemma corrupt_involution: "corrupt_ciphertext c = Inr c' \<Longrightarrow> corrupt_ciphertext c' = Inr c"
  by (auto simp: corrupt_ciphertext_def ac_simps bit.xor_left_self split: if_splits)

lemma xor_one_neq: "(b :: byte) XOR 1 \<noteq> b"
proof
  assume "b XOR 1 = b"
  then have "b XOR (b XOR 1) = b XOR b" by simp
  then show False by simp
qed

section \<open>Properties\<close>

text \<open>
  C40: corrupting a ciphertext changes exactly its last byte, by exactly its low bit: the length and
  every other byte stay, the last byte differs, and corrupting again gives the original back.
\<close>

lemma corrupt_flips_one_bit:
  assumes "corrupt_ciphertext c = Inr c'"
  shows "length c' = length c \<and> butlast c' = butlast c \<and> last c XOR last c' = 1 \<and> c' \<noteq> c \<and>
    corrupt_ciphertext c' = Inr c"
proof -
  from assms have c: "c \<noteq> []" "c' = butlast c @ [last c XOR 1]"
    by (auto simp: corrupt_ciphertext_def split: if_splits)
  then have "last c XOR last c' = 1" by (simp add: bit.xor_left_self)
  moreover have "c' \<noteq> c"
  proof
    assume "c' = c"
    with c(2) have "last c XOR 1 = last c" by (metis last_snoc)
    then show False using xor_one_neq by blast
  qed
  ultimately show ?thesis using c corrupt_involution [OF assms] by simp
qed

text \<open>
  A truncated SessionEstablishment of at least two bytes is a proper, nonempty prefix of the
  original, for any fraction below one.
\<close>

lemma truncation_is_proper_prefix:
  assumes "truncate_session_establishment inside scaled se = Inr t" and "2 \<le> length se"
    and fraction: "\<And>n k. inside \<Longrightarrow> scaled n = Inr k \<Longrightarrow> 0 < n \<Longrightarrow> 0 \<le> k \<and> k < int n"
  shows "\<exists>rest. se = t @ rest \<and> rest \<noteq> [] \<and> t \<noteq> []"
proof -
  from assms(1) obtain k where k: inside "scaled (length se) = Inr k" "t = take (nat (max 1 k)) se"
    by (auto simp: truncate_session_establishment_def ebind_inv split: if_splits)
  have "0 < length se" using assms(2) by linarith
  from fraction [OF k(1,2) this] assms(2) have "nat (max 1 k) < length se" "0 < nat (max 1 k)"
    by (simp_all add: nat_less_iff)
  then show ?thesis using k(3) by (intro exI [of _ "drop (nat (max 1 k)) se"]) auto
qed

end
