(* ===== verification/Cli_Fuzz.thy ===== *)
theory Cli_Fuzz
  imports Cli_Read Fuzz
begin

text \<open>
  \<open>run_fuzz\<close> of \<open>cli.py\<close>: the ciphertext-level scenarios go through the ordinary exchange with a
  wrong message, the transport-level ones use the fuzz transports of \<open>ble.py\<close>.
\<close>

section \<open>The command\<close>

definition fuzz_message :: "environment \<Rightarrow> cli_args \<Rightarrow> scenario \<Rightarrow> session_setup \<Rightarrow> bytes \<Rightarrow> exn + bytes" where
  "fuzz_message R args scenario setup device_request_bytes =
     (if scenario = GARBAGE_CBOR_REQUEST then
        build_garbage_request_session_establishment (env_lib R) (ss_e_reader_key_tag setup) (ss_sk_reader setup) (env_random R 64)
      else if scenario = CORRUPT_CIPHERTEXT then
        build_corrupt_ciphertext_session_establishment (env_lib R) (ss_e_reader_key_tag setup) (ss_sk_reader setup)
          device_request_bytes
      else
        ebind (real_session_establishment (env_lib R) setup device_request_bytes) (\<lambda>full_bytes.
        truncate_session_establishment (arg_keep_inside args) (arg_keep_scaled args) full_bytes))"

fun is_fuzz_timeout :: "exn \<Rightarrow> bool" where
  "is_fuzz_timeout DeviceNotFoundError = True"
| "is_fuzz_timeout TimeoutError = True"
| "is_fuzz_timeout _ = False"

text \<open>\<open>print_device_response\<close> collects the text in a buffer: all of it is printed, or nothing.\<close>

definition print_device_response :: "environment \<Rightarrow> device_response \<Rightarrow> unit io" where
  "print_device_response R response =
     io_bind (pure (write_device_response (env_lib R) response)) (\<lambda>text. emit (Printed text))"

text \<open>
  The answer of the mdoc.  A response is parsed and printed as it is: neither device
  authentication nor the disclosure policy is applied.
\<close>

definition fuzz_answer :: "environment \<Rightarrow> session_setup \<Rightarrow> bytes \<Rightarrow> int io" where
  "fuzz_answer R setup sd =
     io_bind (pure (cbor_loads (env_lib R) sd)) (\<lambda>session_data.
     io_bind (pure (contains_key session_data ''data'')) (\<lambda>has_data.
     if \<not> has_data then no_data (env_lib R) session_data 0
     else
       io_bind (emit (Diagnostic UnexpectedResponse)) (\<lambda>_.
       io_bind (pure (item_of session_data ''data'')) (\<lambda>ciphertext.
       io_bind (pure (decrypt_device_message (env_lib R) (ss_sk_device setup) 1 ciphertext)) (\<lambda>plaintext.
       io_bind (pure (parse_device_response (env_lib R) plaintext)) (\<lambda>response.
       io_bind (print_device_response R response) (\<lambda>_. pure (Inr 0))))))))"

definition fuzz_ciphertext_level :: "environment \<Rightarrow> cli_args \<Rightarrow> scenario \<Rightarrow> int io" where
  "fuzz_ciphertext_level R args scenario =
     io_bind (setup_session R args) (\<lambda>setup.
     io_bind (pure (require_peripheral_mode (ss_de setup) (arg_mode args))) (\<lambda>_.
     case de_peripheral_server_uuid (ss_de setup) of
       None \<Rightarrow> pure (Inl AssertionError)
     | Some uuid \<Rightarrow>
         io_bind (pure (requested args)) (\<lambda>doc_requests.
         io_bind (pure (build_device_request (env_lib R) doc_requests)) (\<lambda>device_request_bytes.
         io_bind (pure (fuzz_message R args scenario setup device_request_bytes)) (\<lambda>se.
         io_bind (dump_cbor R (arg_dump_cbor args) ''fuzz_session_establishment.cbor'' se) (\<lambda>_.
         io_bind (emit (Exchanged True uuid se)) (\<lambda>_.
         case env_central_exchange R uuid se of
           Inl e \<Rightarrow> if is_fuzz_timeout e then exit_with (NoSessionData e) 1 else pure (Inl e)
         | Inr sd \<Rightarrow> fuzz_answer R setup sd)))))))"

definition fuzz_drop_mid_chunk :: "environment \<Rightarrow> cli_args \<Rightarrow> device_engagement \<Rightarrow> bytes \<Rightarrow> int io" where
  "fuzz_drop_mid_chunk R args de uuid =
     io_bind (pure (derive_session R args de)) (\<lambda>setup.
     io_bind (pure (requested args)) (\<lambda>doc_requests.
     io_bind (pure (build_device_request (env_lib R) doc_requests)) (\<lambda>device_request_bytes.
     io_bind (pure (real_session_establishment (env_lib R) setup device_request_bytes)) (\<lambda>se.
     let (result, written) = exchange_dropping_tail (scan_for_peripheral (uuid_text uuid) (env_advertisements R)) (env_raises R) (env_mtu R) se (arg_keep_scaled args) in
     io_bind (emit (Written written)) (\<lambda>_.
     io_bind (pure result) (\<lambda>r.
     exit_with (ChunksDropped (chunks_sent r) (chunks_total r) (drop_address r)) 0))))))"

definition fuzz_disconnect :: "environment \<Rightarrow> cli_args \<Rightarrow> bytes \<Rightarrow> int io" where
  "fuzz_disconnect R args uuid =
     (let (result, written) = connect_and_disconnect (scan_for_peripheral (uuid_text uuid) (env_advertisements R)) (env_raises R) (\<not> arg_skip_state_start args) in
      io_bind (emit (Written written)) (\<lambda>_.
      io_bind (pure result) (\<lambda>address. exit_with (ConnectedOnly address) 0)))"

definition fuzz_rapid_reconnect :: "environment \<Rightarrow> cli_args \<Rightarrow> int io" where
  "fuzz_rapid_reconnect R args =
     (let (results, _) = rapid_reconnect_probe (env_reconnect R) (env_elapsed R) (arg_cycles args) (arg_delay args);
          failures = filter (\<lambda>r. cycle_error r \<noteq> None) results
      in exit_with (CyclesFailed (length failures) (length results)) (if failures \<noteq> [] then 1 else 0))"

definition fuzz_transport_level :: "environment \<Rightarrow> cli_args \<Rightarrow> scenario \<Rightarrow> int io" where
  "fuzz_transport_level R args scenario =
     io_bind (pure (load_engagement R args)) (\<lambda>de.
     io_bind (print_engagement (env_lib R) de) (\<lambda>_.
     io_bind (pure (require_peripheral_mode de (arg_mode args))) (\<lambda>_.
     case de_peripheral_server_uuid de of
       None \<Rightarrow> pure (Inl AssertionError)
     | Some uuid \<Rightarrow>
         if scenario = DROP_MID_CHUNK then fuzz_drop_mid_chunk R args de uuid
         else if scenario = DISCONNECT_AFTER_CONNECT then fuzz_disconnect R args uuid
         else if scenario = RAPID_RECONNECT then fuzz_rapid_reconnect R args
         else pure (Inl AssertionError))))"

definition run_fuzz :: "environment \<Rightarrow> cli_args \<Rightarrow> scenario \<Rightarrow> int io" where
  "run_fuzz R args scenario =
     io_bind (emit (Diagnostic (ScenarioNote (scenario_value scenario) (SCENARIO_DESCRIPTIONS scenario)))) (\<lambda>_.
     if scenario \<in> set CIPHERTEXT_LEVEL_SCENARIOS then fuzz_ciphertext_level R args scenario
     else fuzz_transport_level R args scenario)"

section \<open>Events and exit codes\<close>

text \<open>What a fuzz run may do: everything but release claims or write what the mdoc answered.\<close>

definition fuzz_event :: "event \<Rightarrow> bool" where
  "fuzz_event ev \<longleftrightarrow> not_release ev \<and>
     (\<forall>dir name data. ev = Dumped dir name data \<longrightarrow> name \<in> {U ''engagement.cbor'', U ''fuzz_session_establishment.cbor''})"

lemma fuzz_event_simps [simp]:
  "fuzz_event (Printed t)" "fuzz_event (Diagnostic d)" "fuzz_event (Exchanged b u m)" "fuzz_event (Written w)" "fuzz_event (Page h br)"
  "\<not> fuzz_event (Released out)"
  "fuzz_event (Dumped x n z) \<longleftrightarrow> n \<in> {U ''engagement.cbor'', U ''fuzz_session_establishment.cbor''}"
  by (auto simp: fuzz_event_def)

lemma emits_fuzz_answer: "emits fuzz_event (fuzz_answer R ss sd)"
  by (auto simp: fuzz_answer_def print_device_response_def intro!: emits_bind emits_no_data)

lemma emits_fuzz_ciphertext: "emits fuzz_event (fuzz_ciphertext_level R args scenario)"
  by (auto simp: fuzz_ciphertext_level_def intro!: emits_bind emits_setup emits_dump emits_fuzz_answer
      split: option.split sum.split)

lemma emits_fuzz_transport: "emits fuzz_event (fuzz_transport_level R args scenario)"
  by (auto simp: fuzz_transport_level_def fuzz_drop_mid_chunk_def fuzz_disconnect_def fuzz_rapid_reconnect_def
      print_engagement_def Let_def intro!: emits_bind split: option.split prod.split)

text \<open>The exit codes a command can end with.\<close>

definition exits :: "int io \<Rightarrow> bool" where
  "exits m \<longleftrightarrow> (\<forall>code. snd m = Inr code \<longrightarrow> code = 0 \<or> code = 1)"

lemma exits_bind: "(\<And>x. snd m = Inr x \<Longrightarrow> exits (f x)) \<Longrightarrow> exits (io_bind m f)"
  by (auto simp: exits_def io_bind_Inr)

lemma exits_simps [simp]: "exits (pure (Inl e))" "exits (pure (Inr 0))" "exits (exit_with d code) \<longleftrightarrow> code = 0 \<or> code = 1"
  by (auto simp: exits_def)

lemma exits_run_fuzz: "exits (run_fuzz R args scenario)"
  unfolding run_fuzz_def fuzz_ciphertext_level_def fuzz_transport_level_def fuzz_answer_def print_device_response_def no_data_def
    fuzz_drop_mid_chunk_def fuzz_disconnect_def fuzz_rapid_reconnect_def Let_def
  by (auto intro!: exits_bind split: option.split sum.split prod.split)

lemma emits_run_fuzz: "emits fuzz_event (run_fuzz R args scenario)"
  unfolding run_fuzz_def by (intro emits_bind) (auto simp: emits_fuzz_ciphertext emits_fuzz_transport)

lemma quiet_run_fuzz: "emits not_release (run_fuzz R args scenario)"
  using emits_run_fuzz [of R args scenario] by (simp add: emits_def fuzz_event_def)

section \<open>Properties\<close>


end
