(* ===== verification/Qr.thy ===== *)
theory Qr
  imports Py_Text
begin

text \<open>
  \<open>qr.py\<close>: polling the cameras for a QR code, and the HTML page that shows one.  Cameras, clock,
  decoder, QR encoder and browsers are arguments; \<open>installed\<close> says whether the optional
  packages can be imported.
\<close>

section \<open>Optional packages\<close>

text \<open>\<open>_require_camera_deps\<close> and \<open>_require_display_deps\<close>: a failed import becomes an error that names the extra.\<close>

definition require_camera_deps :: "bool \<Rightarrow> exn + unit" where
  "require_camera_deps installed = (if installed then Inr () else Inl (ImportError (
     ''scanning a QR code with the camera requires the 'camera' extra: '' @
     ''pip install 'siros-verifier-cli[camera]'' @ [CHR 0x27])))"

definition require_display_deps :: "bool \<Rightarrow> exn + unit" where
  "require_display_deps installed = (if installed then Inr () else Inl (ImportError (
     ''displaying a QR code requires the 'qr' extra: pip install 'siros-verifier-cli[qr]'' @ [CHR 0x27])))"

section \<open>scan_camera\<close>

text \<open>
  \<open>frame n i\<close> is what reading and decoding a frame of camera \<open>i\<close> gives in the \<open>n\<close>-th round:
  \<open>None\<close> when there is no frame or no QR code in it, otherwise the data of the first code.
\<close>

fun poll_captures :: "(nat \<Rightarrow> int \<Rightarrow> exn + bytes option) \<Rightarrow> nat \<Rightarrow> int list \<Rightarrow> (exn + pystr) option" where
  "poll_captures frame n [] = None"
| "poll_captures frame n (index # captures) =
     (case frame n index of
        Inl e \<Rightarrow> Some (Inl e)
      | Inr None \<Rightarrow> poll_captures frame n captures
      | Inr (Some data) \<Rightarrow> Some (decode_ascii data))"

text \<open>
  \<open>while time.monotonic() < deadline\<close>, where \<open>clock n\<close> is the reading before the \<open>n\<close>-th round: no
  value at all means that the loop runs forever.
\<close>

partial_function (option) scan_loop ::
  "(nat \<Rightarrow> int) \<Rightarrow> int \<Rightarrow> (nat \<Rightarrow> int \<Rightarrow> exn + bytes option) \<Rightarrow> int list \<Rightarrow> nat \<Rightarrow> (exn + pystr) option" where
  "scan_loop clock deadline frame captures n =
     (if clock n < deadline then
        (case poll_captures frame n captures of
           Some r \<Rightarrow> Some r
         | None \<Rightarrow> scan_loop clock deadline frame captures (Suc n))
      else Some (Inl QrNotFoundError))"

definition probe_indices :: "int option \<Rightarrow> int \<Rightarrow> int list" where
  "probe_indices camera_index max_probe_index =
     (case camera_index of Some i \<Rightarrow> [i] | None \<Rightarrow> [0..max_probe_index])"

text \<open>
  The result, and the cameras released: those that did not open at once, the others in the
  \<open>finally\<close> block.
\<close>

definition scan_camera ::
  "bool \<Rightarrow> (int \<Rightarrow> bool) \<Rightarrow> (nat \<Rightarrow> int) \<Rightarrow> int \<Rightarrow> (nat \<Rightarrow> int \<Rightarrow> exn + bytes option) \<Rightarrow> int option \<Rightarrow> int \<Rightarrow>
    ((exn + pystr) \<times> int list) option" where
  "scan_camera installed opens clock deadline frame camera_index max_probe_index =
     (case require_camera_deps installed of Inl e \<Rightarrow> Some (Inl e, []) | Inr _ \<Rightarrow>
      let indices = probe_indices camera_index max_probe_index;
          captures = filter opens indices;
          closed = filter (\<lambda>i. \<not> opens i) indices
      in if captures = [] then Some (Inl (RuntimeError ''could not open camera''), closed)
         else map_option (\<lambda>r. (r, closed @ captures)) (scan_loop clock deadline frame captures 0))"

section \<open>render_qr_html and show_in_browser\<close>

definition replace_char :: "nat \<Rightarrow> pystr \<Rightarrow> pystr \<Rightarrow> pystr" where
  "replace_char c by s = concat (map (\<lambda>d. if d = c then by else [d]) s)"

definition html_escape :: "pystr \<Rightarrow> pystr" where
  "html_escape data = replace_char 62 (U ''&gt;'') (replace_char 60 (U ''&lt;'') (replace_char 38 (U ''&amp;'') data))"

definition html_lines :: "pystr list \<Rightarrow> pystr" where
  "html_lines ls = concat (map (\<lambda>l. l @ [10]) ls)"

definition render_qr_html :: "bool \<Rightarrow> (pystr \<Rightarrow> exn + bytes) \<Rightarrow> pystr \<Rightarrow> pystr \<Rightarrow> exn + pystr" where
  \<open>render_qr_html installed make_png data title =
     ebind (require_display_deps installed) (\<lambda>_.
      ebind (make_png data) (\<lambda>png.
      Inr (html_lines
        [U ''<!doctype html>'',
         U ''<html><head><meta charset="utf-8"><title>'' @ title @ U ''</title>'',
         U ''<style>'',
         U ''  body { display: flex; flex-direction: column; align-items: center; justify-content: center;'',
         U ''          min-height: 100vh; margin: 0; font-family: monospace; background: #fff; color: #111; }'',
         U ''  img { width: min(80vw, 480px); height: min(80vw, 480px); image-rendering: pixelated; }'',
         U ''  code { margin-top: 1em; max-width: 90vw; word-break: break-all; font-size: 0.8em; color: #555; }'',
         U ''</style></head>'',
         U ''<body>'',
         U ''  <img src="data:image/png;base64,'' @ b64encode False png @ U ''" alt="QR code">'',
         U ''  <code>'' @ html_escape data @ U ''</code>'',
         U ''</body></html>''])))\<close>

definition CHROME_CANDIDATES :: "string list" where
  "CHROME_CANDIDATES = [''chrome'', ''google-chrome'', ''chromium'', ''chromium-browser'']"

text \<open>
  Which browser opens the page: the first candidate that is registered and starts, else the
  default one (\<open>None\<close>).  \<open>start\<close> is the exception, if any, of getting and starting a candidate;
  \<open>is_browser_error\<close> recognises \<open>webbrowser.Error\<close>.
\<close>

fun open_page :: "(string \<Rightarrow> exn option) \<Rightarrow> (exn \<Rightarrow> bool) \<Rightarrow> string list \<Rightarrow> exn + string option" where
  "open_page start is_browser_error [] = Inr None"
| "open_page start is_browser_error (name # names) =
     (case start name of
        None \<Rightarrow> Inr (Some name)
      | Some e \<Rightarrow> if is_browser_error e then open_page start is_browser_error names else Inl e)"

definition show_in_browser ::
  "bool \<Rightarrow> (pystr \<Rightarrow> exn + bytes) \<Rightarrow> (string \<Rightarrow> exn option) \<Rightarrow> (exn \<Rightarrow> bool) \<Rightarrow> pystr \<Rightarrow> pystr \<Rightarrow>
    exn + (pystr \<times> string option)" where
  "show_in_browser installed make_png start is_browser_error data title =
     ebind (render_qr_html installed make_png data title) (\<lambda>html.
     ebind (utf8_encode html) (\<lambda>_.
     ebind (open_page start is_browser_error CHROME_CANDIDATES) (\<lambda>browser. Inr (html, browser))))"

section \<open>Lemmas\<close>

lemma scan_loop_stop: "\<not> clock n < deadline \<Longrightarrow> scan_loop clock deadline frame captures n = Some (Inl QrNotFoundError)"
  by (subst scan_loop.simps) simp

lemma scan_loop_found:
  "clock n < deadline \<Longrightarrow> poll_captures frame n captures = Some r \<Longrightarrow> scan_loop clock deadline frame captures n = Some r"
  by (subst scan_loop.simps) simp

lemma scan_loop_next:
  "clock n < deadline \<Longrightarrow> poll_captures frame n captures = None \<Longrightarrow>
    scan_loop clock deadline frame captures n = scan_loop clock deadline frame captures (Suc n)"
  by (subst scan_loop.simps) simp

text \<open>The loop as a search: the first round that ends it decides.\<close>

definition round_result :: "(nat \<Rightarrow> int) \<Rightarrow> int \<Rightarrow> (nat \<Rightarrow> int \<Rightarrow> exn + bytes option) \<Rightarrow> int list \<Rightarrow> nat \<Rightarrow> (exn + pystr) option" where
  "round_result clock deadline frame captures n =
     (if clock n < deadline then poll_captures frame n captures else Some (Inl QrNotFoundError))"

lemma scan_loop_first:
  "\<forall>i<k. round_result clock deadline frame captures (n + i) = None \<Longrightarrow>
    round_result clock deadline frame captures (n + k) = Some r \<Longrightarrow>
    scan_loop clock deadline frame captures n = Some r"
proof (induction k arbitrary: n)
  case 0
  then show ?case by (auto simp: round_result_def scan_loop_found scan_loop_stop split: if_splits)
next
  case (Suc k)
  from Suc.prems(1) have "round_result clock deadline frame captures n = None" by force
  then have "scan_loop clock deadline frame captures n = scan_loop clock deadline frame captures (Suc n)"
    by (auto simp: round_result_def scan_loop_next split: if_splits)
  moreover have "scan_loop clock deadline frame captures (Suc n) = Some r"
  proof (rule Suc.IH)
    show "\<forall>i<k. round_result clock deadline frame captures (Suc n + i) = None"
      using Suc.prems(1) by (metis Suc_mono add_Suc_shift)
    show "round_result clock deadline frame captures (Suc n + k) = Some r" using Suc.prems(2) by simp
  qed
  ultimately show ?case by simp
qed

lemma html_escape_char: "html_escape (c # s) =
    (if c = 38 then U ''&amp;'' else if c = 60 then U ''&lt;'' else if c = 62 then U ''&gt;'' else [c]) @ html_escape s"
  by (simp add: html_escape_def replace_char_def U_def)

lemma html_escape_Nil [simp]: "html_escape [] = []"
  by (simp add: html_escape_def replace_char_def)

lemma html_escape_inject: "html_escape s = html_escape t \<Longrightarrow> s = t"
proof (induction s arbitrary: t)
  case Nil
  then show ?case by (cases t) (auto simp: html_escape_char U_def split: if_splits)
next
  case (Cons c s)
  then show ?case
    by (cases t) (auto simp: html_escape_char U_def split: if_splits)
qed

section \<open>Properties\<close>

text \<open>
  C39: with a camera that opens, \<open>scan_camera\<close> returns as soon as the clock has reached the
  deadline: what it returns is the outcome of the first round in which some opened camera shows
  a QR code or fails, or "not found" at the deadline; and every camera that was tried has been
  released exactly once.
\<close>

theorem scan_camera_terminates_and_releases:
  assumes "installed" and "deadline \<le> clock N"
    and "captures = filter opens (probe_indices camera_index max_probe)" and "captures \<noteq> []"
  shows "\<exists>k r released. k \<le> N \<and> (\<forall>i<k. round_result clock deadline frame captures i = None) \<and>
    round_result clock deadline frame captures k = Some r \<and>
    scan_camera installed opens clock deadline frame camera_index max_probe = Some (r, released) \<and>
    distinct released \<and> set released = set (probe_indices camera_index max_probe)"
proof -
  have "round_result clock deadline frame captures N \<noteq> None" using assms(2) by (simp add: round_result_def)
  then obtain k r where k: "k \<le> N" "\<forall>i<k. round_result clock deadline frame captures i = None"
      "round_result clock deadline frame captures k = Some r"
    using ex_least_nat_le [of "\<lambda>k. round_result clock deadline frame captures k \<noteq> None" N] by auto
  then have "scan_loop clock deadline frame captures 0 = Some r"
    using scan_loop_first [of k clock deadline frame captures 0] by simp
  then have "scan_camera installed opens clock deadline frame camera_index max_probe =
      Some (r, filter (\<lambda>i. \<not> opens i) (probe_indices camera_index max_probe) @ captures)"
    using assms(1,3,4) by (simp add: scan_camera_def require_camera_deps_def Let_def)
  moreover have "distinct (probe_indices camera_index max_probe)"
    by (simp add: probe_indices_def split: option.split)
  then have "distinct (filter (\<lambda>i. \<not> opens i) (probe_indices camera_index max_probe) @ captures)"
    using assms(3) by auto
  moreover have "set (filter (\<lambda>i. \<not> opens i) (probe_indices camera_index max_probe) @ captures) =
      set (probe_indices camera_index max_probe)"
    using assms(3) by auto
  ultimately show ?thesis using k by blast
qed

theorem scan_camera_terminates_and_releases_witness:
  "\<exists>r released. scan_camera True (\<lambda>i. i = 1) (\<lambda>n. 10 * int n) 30 (\<lambda>n i. Inr (if n = 2 then Some [109] else None)) None 2 =
    Some (r, released) \<and> set released = {0, 1, 2}"
proof -
  let ?clock = "\<lambda>n. 10 * int n" and ?frame = "\<lambda>n i. Inr (if n = 2 then Some [109] else None)"
  have ids: "probe_indices None 2 = [0, 1, 2]" by code_simp
  have t: "(30 :: int) \<le> ?clock 3" by simp
  have c: "[1] = filter (\<lambda>i. i = 1) (probe_indices None 2)" by (simp add: ids)
  show ?thesis
    using scan_camera_terminates_and_releases [where N = 3 and clock = ?clock and frame = ?frame, OF TrueI t c]
    unfolding ids by auto
qed

text \<open>
  C40: the text shown beside the code cannot leave its element: escaping removes every angle
  bracket, and loses nothing, since different texts stay different.
\<close>

theorem html_escape_is_safe_and_injective:
  "60 \<notin> set (html_escape s) \<and> 62 \<notin> set (html_escape s) \<and> (html_escape s = html_escape t \<longleftrightarrow> s = t)"
proof (intro conjI iffI)
  show "60 \<notin> set (html_escape s)" by (induction s) (auto simp: html_escape_char U_def)
  show "62 \<notin> set (html_escape s)" by (induction s) (auto simp: html_escape_char U_def)
qed (auto intro: html_escape_inject)

end
