(* ===== verification/Cli_Main.thy ===== *)
theory Cli_Main
  imports Cli_Fuzz Qr
begin

text \<open>
  The remaining commands of \<open>cli.py\<close>, \<open>engagement decode\<close>, \<open>qr scan\<close> and \<open>qr show\<close>, and the
  dispatch of \<open>main\<close>.  A command line that parses is a \<open>command\<close> with its arguments, the values that
  were parsed; \<open>Cli_Parser\<close> says which they are.
\<close>

section \<open>engagement decode\<close>

text \<open>Reading the URI is outside the \<open>try\<close>; only an unsupported engagement is an error message.\<close>

definition cmd_engagement_decode :: "environment \<Rightarrow> cli_args \<Rightarrow> int io" where
  "cmd_engagement_decode R args =
     io_bind (pure (resolve_engagement_uri (env_scan_camera R) (env_read_qr_image R) args)) (\<lambda>uri.
     case parse_mdoc_uri (env_lib R) uri of
       Inl (UnsupportedEngagementError reason) \<Rightarrow> exit_with (CommandFailed (UnsupportedEngagementError reason)) 1
     | Inl e \<Rightarrow> pure (Inl e)
     | Inr de \<Rightarrow> io_bind (print_engagement (env_lib R) de) (\<lambda>_. pure (Inr 0)))"

section \<open>qr scan and qr show\<close>

text \<open>
  \<open>except (ImportError, RuntimeError, QrNotFoundError)\<close>: \<open>RecursionError\<close> and the scan errors of
  the other modules are kinds of \<open>RuntimeError\<close>.
\<close>

fun is_scan_error :: "exn \<Rightarrow> bool" where
  "is_scan_error (ImportError _) = True"
| "is_scan_error (RuntimeError _) = True"
| "is_scan_error QrNotFoundError = True"
| "is_scan_error DeviceNotFoundError = True"
| "is_scan_error RecursionError = True"
| "is_scan_error _ = False"

definition cmd_qr_scan :: "(exn + pystr) \<Rightarrow> int io" where
  "cmd_qr_scan scanned =
     (case scanned of
        Inl e \<Rightarrow> if is_scan_error e then exit_with (CommandFailed e) 1 else pure (Inl e)
      | Inr text \<Rightarrow> io_bind (emit (Printed (text @ [10]))) (\<lambda>_. pure (Inr 0)))"

text \<open>
  \<open>shown_text\<close> is where the text to show comes from: a file, which is decoded and stripped, the
  argument, or standard input, stripped.
\<close>

record show_args =
  show_file :: "pystr option"
  show_text :: "pystr option"
  show_title :: pystr

definition shown_text :: "(pystr \<Rightarrow> exn + pystr) \<Rightarrow> (exn + pystr) \<Rightarrow> show_args \<Rightarrow> exn + pystr" where
  "shown_text read_text stdin args =
     (if given (show_file args) then ebind (read_text (the (show_file args))) (\<lambda>t. Inr (strip t))
      else if given (show_text args) then Inr (the (show_text args))
      else ebind stdin (\<lambda>t. Inr (strip t)))"

record desktop =
  desk_read_text :: "pystr \<Rightarrow> exn + pystr"
    \<comment> \<open>\<open>Path(p).read_text(encoding="utf-8")\<close>\<close>
  desk_stdin :: "exn + pystr"
  desk_qr_installed :: bool
  desk_make_png :: "pystr \<Rightarrow> exn + bytes"
    \<comment> \<open>\<open>qrcode.make(data)\<close>, saved as PNG\<close>
  desk_start_browser :: "string \<Rightarrow> exn option"
    \<comment> \<open>what getting a browser by name and opening the page raises\<close>
  desk_is_browser_error :: "exn \<Rightarrow> bool"

fun is_import_error :: "exn \<Rightarrow> bool" where
  "is_import_error (ImportError _) = True"
| "is_import_error _ = False"

definition cmd_qr_show :: "desktop \<Rightarrow> show_args \<Rightarrow> int io" where
  "cmd_qr_show D args =
     io_bind (pure (shown_text (desk_read_text D) (desk_stdin D) args)) (\<lambda>text.
     case show_in_browser (desk_qr_installed D) (desk_make_png D) (desk_start_browser D) (desk_is_browser_error D)
         text (show_title args) of
       Inl e \<Rightarrow> if is_import_error e then exit_with (CommandFailed e) 1 else pure (Inl e)
     | Inr (html, browser) \<Rightarrow> io_bind (emit (Page html browser)) (\<lambda>_. exit_with PageOpened 0))"

section \<open>main\<close>

definition TRUST_BANNER :: string where
  \<open>TRUST_BANNER =
     ''This tool cryptographically verifies IssuerAuth/DeviceAuth signatures, MACs, and'' @ [CHR 0x0A] @
     ''digests against the key/certificate presented in the message itself. Without'' @ [CHR 0x0A] @
     ''--pdp-url it does NOT evaluate trust or check IACA chains/revocation: VALID means'' @ [CHR 0x0A] @
     ''"internally consistent", not "trustworthy". With --pdp-url, claims are released'' @ [CHR 0x0A] @
     ''only after an explicit go-trust permit for every document.''\<close>

datatype command =
    Read cli_args
  | Fuzz cli_args string
  | EngagementDecode cli_args
  | QrScan "exn + pystr"
  | QrShow show_args

text \<open>
  \<open>args.handler(args)\<close>; the argument of \<open>QrScan\<close> is what \<open>scan_camera\<close> gives.  The banner goes out
  before a command that talks to an mdoc, and \<open>sys.exit\<close> ends the process with the handler's
  value as its exit code.
\<close>

definition handler :: "environment \<Rightarrow> desktop \<Rightarrow> command \<Rightarrow> int io" where
  "handler R D command =
     (case command of
        Read args \<Rightarrow> run_read R args
      | Fuzz args name \<Rightarrow> io_bind (pure (scenario_of name)) (run_fuzz R args)
      | EngagementDecode args \<Rightarrow> cmd_engagement_decode R args
      | QrScan scanned \<Rightarrow> cmd_qr_scan scanned
      | QrShow args \<Rightarrow> cmd_qr_show D args)"

fun talks_to_mdoc :: "command \<Rightarrow> bool" where
  "talks_to_mdoc (Read _) = True"
| "talks_to_mdoc (Fuzz _ _) = True"
| "talks_to_mdoc _ = False"

definition main :: "environment \<Rightarrow> desktop \<Rightarrow> command \<Rightarrow> int io" where
  "main R D command =
     io_bind (if talks_to_mdoc command then emit (Diagnostic (TrustBanner TRUST_BANNER)) else pure (Inr ())) (\<lambda>_.
     handler R D command)"

section \<open>Exit codes and events\<close>

lemma exits_no_data: "code = 0 \<or> code = 1 \<Longrightarrow> exits (no_data L session_data code)"
  by (auto simp: no_data_def intro!: exits_bind)

lemma exits_release: "exits (authorize_and_release R args response)"
  by (auto simp: authorize_and_release_def release_claims_def intro!: exits_bind split: sum.split option.split)

lemma exits_handle: "exits (handle_session_data R args setup reqs sd)"
  by (auto simp: handle_session_data_def handle_plaintext_def intro!: exits_bind exits_no_data exits_release split: sum.split)

lemma exits_transact: "exits (transact R args setup reqs se b)"
proof (cases "exchange_messages R b (ss_de setup) se")
  case (Pair events r)
  then show ?thesis
    using exits_bind [of "(events, Inr ())" "\<lambda>_. handle_session_data R args setup reqs sd" for sd] exits_handle
    by (auto simp: transact_def exits_def split: sum.split)
qed

lemma exits_run_read: "exits (run_read R args)"
  by (auto simp: run_read_def intro!: exits_bind exits_transact split: prod.split)

lemma exits_handler: "exits (handler R D command)"
  by (auto simp: handler_def exits_run_read exits_run_fuzz cmd_engagement_decode_def cmd_qr_scan_def cmd_qr_show_def
      intro!: exits_bind split: command.split sum.split exn.split)

lemma quiet_handler: "\<nexists>args. command = Read args \<Longrightarrow> emits not_release (handler R D command)"
  by (cases command)
    (auto simp: handler_def cmd_engagement_decode_def cmd_qr_scan_def cmd_qr_show_def print_engagement_def
      intro!: emits_bind quiet_run_fuzz split: sum.split exn.split)

section \<open>Properties\<close>


text \<open>No browser, no QR encoder, nothing on standard input.\<close>

definition demo_desktop :: desktop where
  "demo_desktop = \<lparr>desk_read_text = (\<lambda>p. Inl (LibError 3 IsOtherError)), desk_stdin = Inr [], desk_qr_installed = False,
     desk_make_png = (\<lambda>d. Inr []), desk_start_browser = (\<lambda>n. None), desk_is_browser_error = (\<lambda>e. False)\<rparr>"


end
