(* ===== verification/Cli_Parser.thy ===== *)
theory Cli_Parser
  imports Cli_Main
begin

text \<open>
  \<open>build_parser\<close> of \<open>cli.py\<close> as the option tables it declares, and what \<open>argparse\<close> does with the
  options and positionals it recognises on a command line: the defaults, the type conversions, the
  choices and the actions \<open>store\<close>, \<open>store_true\<close> and \<open>append\<close>, up to the \<open>Namespace\<close> and from there to
  the arguments of each handler.

  A command line is the subcommand's path and its occurrences in order: an option's flag or a
  positional's name, with the text that goes with it.  Splitting \<open>sys.argv\<close> into occurrences
  (abbreviated flags, \<open>--flag=value\<close>, where positionals may stand) is \<open>argparse\<close>'s own and is not
  modelled, nor are the help texts and \<open>--help\<close>.  Every rejection is the exit with status 2.
\<close>

section \<open>Arguments and values\<close>

datatype action = Store | StoreTrue | Append
datatype arg_type = AsText | AsInt | AsFloat

text \<open>A float is kept as the text that \<open>float\<close> reads.\<close>

datatype arg_value = VNone | VBool bool | VText pystr | VInt int | VFloat pystr | VList "arg_value list"

record argument =
  opt_flags :: "string list"
  opt_dest :: string
  opt_action :: action
  opt_type :: arg_type
  opt_choices :: "string list"
  opt_default :: arg_value
  opt_required :: bool

text \<open>The attribute an option sets: its first long flag without the dashes, \<open>-\<close> replaced by \<open>_\<close>.\<close>

definition dest_of :: "string list \<Rightarrow> string" where
  "dest_of flags =
     (let f = (case find (\<lambda>f. take 2 f = ''--'') flags of Some f \<Rightarrow> f | None \<Rightarrow> hd flags)
      in map (\<lambda>c. if c = CHR ''-'' then CHR ''_'' else c) (dropWhile (\<lambda>c. c = CHR ''-'') f))"

definition opt :: "string list \<Rightarrow> argument" where
  "opt flags = \<lparr>opt_flags = flags, opt_dest = dest_of flags, opt_action = Store, opt_type = AsText,
     opt_choices = [], opt_default = VNone, opt_required = False\<rparr>"

text \<open>\<open>nargs="?"\<close> makes a positional optional.\<close>

definition positional :: "string \<Rightarrow> argument" where
  "positional name = \<lparr>opt_flags = [], opt_dest = name, opt_action = Store, opt_type = AsText,
     opt_choices = [], opt_default = VNone, opt_required = True\<rparr>"

definition optional_positional :: "string \<Rightarrow> argument" where
  "optional_positional name = (positional name)\<lparr>opt_required := False\<rparr>"

definition flag :: "string list \<Rightarrow> argument" where
  "flag flags = (opt flags)\<lparr>opt_action := StoreTrue, opt_default := VBool False\<rparr>"

definition float_opt :: "string \<Rightarrow> string \<Rightarrow> argument" where
  "float_opt name literal = (opt [name])\<lparr>opt_type := AsFloat, opt_default := VFloat (U literal)\<rparr>"

section \<open>The tables of build_parser\<close>

definition DEFAULT_MDOC_ISSUER_ROLE :: string where
  "DEFAULT_MDOC_ISSUER_ROLE = ''pid-provider''"

definition add_engagement_source_args :: "argument list" where
  "add_engagement_source_args =
     [optional_positional ''mdoc_uri'', opt [''--qr-image''], flag [''--qr-camera''],
      (opt [''--camera-index''])\<lparr>opt_type := AsInt\<rparr>, float_opt ''--qr-camera-timeout'' ''30.0'']"

definition read_arguments :: "argument list" where
  "read_arguments = add_engagement_source_args @
     [(opt [''--request''])\<lparr>opt_action := Append\<rparr>,
      (opt [''--mode''])\<lparr>opt_choices := [''auto'', ''peripheral'', ''central''], opt_default := VText (U ''auto'')\<rparr>,
      opt [''--nfc-handover-hex''], opt [''--nfc-handover-file''],
      float_opt ''--scan-timeout'' ''10.0'', float_opt ''--advertise-timeout'' ''30.0'',
      float_opt ''--response-timeout'' ''15.0'',
      opt [''--pdp-url''],
      (opt [''--mdoc-issuer-role''])\<lparr>opt_default := VText (U DEFAULT_MDOC_ISSUER_ROLE)\<rparr>,
      flag [''--json''], opt [''--dump-cbor''], flag [''-v'', ''--verbose'']]"

definition fuzz_arguments :: "argument list" where
  "fuzz_arguments = add_engagement_source_args @
     [(positional ''scenario'')\<lparr>opt_choices := map scenario_value all_scenarios\<rparr>,
      (opt [''--request''])\<lparr>opt_action := Append\<rparr>,
      (opt [''--mode''])\<lparr>opt_choices := [''auto'', ''peripheral''], opt_default := VText (U ''auto'')\<rparr>,
      opt [''--nfc-handover-hex''], opt [''--nfc-handover-file''],
      float_opt ''--scan-timeout'' ''10.0'', float_opt ''--response-timeout'' ''15.0'',
      float_opt ''--keep-fraction'' ''0.7'', flag [''--skip-state-start''],
      (opt [''--cycles''])\<lparr>opt_type := AsInt, opt_default := VInt 20\<rparr>, float_opt ''--delay'' ''0.0'',
      opt [''--dump-cbor''], flag [''-v'', ''--verbose'']]"

definition decode_arguments :: "argument list" where
  "decode_arguments = add_engagement_source_args"

definition scan_arguments :: "argument list" where
  "scan_arguments = [(opt [''--camera-index''])\<lparr>opt_type := AsInt\<rparr>, float_opt ''--timeout'' ''30.0'']"

definition show_arguments :: "argument list" where
  "show_arguments =
     [optional_positional ''text'', opt [''--file''], (opt [''--title''])\<lparr>opt_default := VText (U ''siros-verify'')\<rparr>]"

text \<open>The subcommands; the last part of each path names the handler that \<open>set_defaults\<close> installs.\<close>

definition build_parser :: "(string list \<times> argument list) list" where
  "build_parser =
     [([''read''], read_arguments), ([''fuzz''], fuzz_arguments), ([''engagement'', ''decode''], decode_arguments),
      ([''qr'', ''scan''], scan_arguments), ([''qr'', ''show''], show_arguments)]"

section \<open>parse_args\<close>

text \<open>\<open>int\<close> and \<open>float\<close> on text, and what the program computes with the floats it is given.\<close>

record numerals =
  num_int :: "pystr \<Rightarrow> int option"
  num_is_float :: "pystr \<Rightarrow> bool"
  num_inside :: "pystr \<Rightarrow> bool"
    \<comment> \<open>\<open>0 < f < 1\<close>\<close>
  num_scaled :: "pystr \<Rightarrow> nat \<Rightarrow> exn + int"
    \<comment> \<open>\<open>int(n * f)\<close>\<close>
  num_sign :: "pystr \<Rightarrow> int"

type_synonym namespace = "(string \<times> arg_value) list"
type_synonym occurrence = "string \<times> pystr option"

abbreviation usage_error :: exn where
  "usage_error \<equiv> SystemExit ''2''"

definition opt_names :: "argument \<Rightarrow> string list" where
  "opt_names a = (if opt_flags a = [] then [opt_dest a] else opt_flags a)"

definition find_argument :: "argument list \<Rightarrow> string \<Rightarrow> argument option" where
  "find_argument args name = find (\<lambda>a. name \<in> set (opt_names a)) args"

text \<open>\<open>type\<close> and then \<open>choices\<close>.\<close>

definition convert :: "numerals \<Rightarrow> argument \<Rightarrow> pystr \<Rightarrow> exn + arg_value" where
  "convert N a text =
     ebind (case opt_type a of
        AsText \<Rightarrow> Inr (VText text)
      | AsInt \<Rightarrow> (case num_int N text of Some i \<Rightarrow> Inr (VInt i) | None \<Rightarrow> Inl usage_error)
      | AsFloat \<Rightarrow> (if num_is_float N text then Inr (VFloat text) else Inl usage_error)) (\<lambda>v.
     if opt_choices a \<noteq> [] \<and> v \<notin> set (map (\<lambda>c. VText (U c)) (opt_choices a)) then Inl usage_error else Inr v)"

text \<open>The new value of the attribute, from its old one and the text of the occurrence.\<close>

definition action_value :: "numerals \<Rightarrow> argument \<Rightarrow> arg_value option \<Rightarrow> pystr option \<Rightarrow> exn + arg_value" where
  "action_value N a old text =
     (case (opt_action a, text) of
        (StoreTrue, None) \<Rightarrow> Inr (VBool True)
      | (Store, Some t) \<Rightarrow> convert N a t
      | (Append, Some t) \<Rightarrow>
          ebind (convert N a t) (\<lambda>v. Inr (VList ((case old of Some (VList vs) \<Rightarrow> vs | _ \<Rightarrow> []) @ [v])))
      | _ \<Rightarrow> Inl usage_error)"

fun parse_loop :: "numerals \<Rightarrow> argument list \<Rightarrow> occurrence list \<Rightarrow> namespace \<Rightarrow> exn + namespace" where
  "parse_loop N args [] ns = Inr ns"
| "parse_loop N args ((name, text) # occs) ns =
     (case find_argument args name of
        None \<Rightarrow> Inl usage_error
      | Some a \<Rightarrow>
          ebind (action_value N a (map_of ns (opt_dest a)) text) (\<lambda>v.
          parse_loop N args occs (AList.update (opt_dest a) v ns)))"

text \<open>A positional stands at most once, and exactly once if it is required.\<close>

definition positionals_fit :: "argument list \<Rightarrow> occurrence list \<Rightarrow> bool" where
  "positionals_fit args occs \<longleftrightarrow>
     (\<forall>a\<in>set args. opt_flags a = [] \<longrightarrow>
        (let n = length (filter (\<lambda>occ. fst occ = opt_dest a) occs) in n \<le> 1 \<and> (opt_required a \<longrightarrow> n = 1)))"

definition defaults :: "argument list \<Rightarrow> namespace" where
  "defaults args = map (\<lambda>a. (opt_dest a, opt_default a)) args"

definition parse_args :: "numerals \<Rightarrow> argument list \<Rightarrow> occurrence list \<Rightarrow> exn + namespace" where
  "parse_args N args occs =
     (if positionals_fit args occs then parse_loop N args occs (defaults args) else Inl usage_error)"

section \<open>From the namespace to the handlers\<close>

text \<open>\<open>args.d\<close>, at the type the handlers use it with.\<close>

definition attr :: "namespace \<Rightarrow> string \<Rightarrow> exn + arg_value" where
  "attr ns d = (case map_of ns d of None \<Rightarrow> Inl (AttributeError d) | Some v \<Rightarrow> Inr v)"

definition wrong_type :: "string \<Rightarrow> exn + 'a" where
  "wrong_type d = Inl (TypeError d)"

definition text_attr :: "namespace \<Rightarrow> string \<Rightarrow> exn + pystr option" where
  "text_attr ns d =
     ebind (attr ns d) (\<lambda>v. case v of VNone \<Rightarrow> Inr None | VText t \<Rightarrow> Inr (Some t) | _ \<Rightarrow> wrong_type d)"

definition string_attr :: "namespace \<Rightarrow> string \<Rightarrow> exn + pystr" where
  "string_attr ns d = ebind (attr ns d) (\<lambda>v. case v of VText t \<Rightarrow> Inr t | _ \<Rightarrow> wrong_type d)"

definition bool_attr :: "namespace \<Rightarrow> string \<Rightarrow> exn + bool" where
  "bool_attr ns d = ebind (attr ns d) (\<lambda>v. case v of VBool b \<Rightarrow> Inr b | _ \<Rightarrow> wrong_type d)"

definition int_attr :: "namespace \<Rightarrow> string \<Rightarrow> exn + int option" where
  "int_attr ns d =
     ebind (attr ns d) (\<lambda>v. case v of VNone \<Rightarrow> Inr None | VInt i \<Rightarrow> Inr (Some i) | _ \<Rightarrow> wrong_type d)"

definition float_attr :: "namespace \<Rightarrow> string \<Rightarrow> exn + pystr" where
  "float_attr ns d = ebind (attr ns d) (\<lambda>v. case v of VFloat f \<Rightarrow> Inr f | _ \<Rightarrow> wrong_type d)"

fun texts_of :: "arg_value list \<Rightarrow> pystr list option" where
  "texts_of [] = Some []"
| "texts_of (VText t # vs) = map_option (\<lambda>ts. t # ts) (texts_of vs)"
| "texts_of _ = None"

text \<open>\<open>args.request\<close>: \<open>None\<close> when the option was not given.\<close>

definition texts_attr :: "namespace \<Rightarrow> string \<Rightarrow> exn + pystr list" where
  "texts_attr ns d =
     ebind (attr ns d) (\<lambda>v. case v of
        VNone \<Rightarrow> Inr []
      | VList vs \<Rightarrow> (case texts_of vs of Some ts \<Rightarrow> Inr ts | None \<Rightarrow> wrong_type d)
      | _ \<Rightarrow> wrong_type d)"

text \<open>
  The attributes a handler reads, as the record the model's handlers take; a field that a handler never
  reads keeps its value in \<open>no_args\<close>.  The timeouts, the camera index and \<open>verbose\<close> only reach the
  transports and the progress log.
\<close>

definition no_args :: cli_args where
  "no_args = \<lparr>arg_mdoc_uri = None, arg_qr_image = None, arg_qr_camera = False, arg_request = [], arg_mode = [],
     arg_nfc_handover_hex = None, arg_nfc_handover_file = None, arg_pdp_url = None, arg_mdoc_issuer_role = [],
     arg_json = False, arg_dump_cbor = None, arg_keep_inside = False, arg_keep_scaled = (\<lambda>n. Inr 0),
     arg_skip_state_start = False, arg_cycles = 0, arg_delay = 0\<rparr>"

definition engagement_args :: "namespace \<Rightarrow> exn + cli_args" where
  "engagement_args ns =
     ebind (text_attr ns ''mdoc_uri'') (\<lambda>mdoc_uri.
     ebind (text_attr ns ''qr_image'') (\<lambda>qr_image.
     ebind (bool_attr ns ''qr_camera'') (\<lambda>qr_camera.
     ebind (int_attr ns ''camera_index'') (\<lambda>camera_index.
     ebind (float_attr ns ''qr_camera_timeout'') (\<lambda>qr_camera_timeout.
     Inr (no_args\<lparr>arg_mdoc_uri := mdoc_uri, arg_qr_image := qr_image, arg_qr_camera := qr_camera\<rparr>))))))"

definition session_args :: "namespace \<Rightarrow> exn + cli_args" where
  "session_args ns =
     ebind (engagement_args ns) (\<lambda>a.
     ebind (texts_attr ns ''request'') (\<lambda>request.
     ebind (string_attr ns ''mode'') (\<lambda>mode.
     ebind (text_attr ns ''nfc_handover_hex'') (\<lambda>nfc_handover_hex.
     ebind (text_attr ns ''nfc_handover_file'') (\<lambda>nfc_handover_file.
     ebind (float_attr ns ''scan_timeout'') (\<lambda>scan_timeout.
     ebind (float_attr ns ''response_timeout'') (\<lambda>response_timeout.
     ebind (text_attr ns ''dump_cbor'') (\<lambda>dump_cbor.
     ebind (bool_attr ns ''verbose'') (\<lambda>verbose.
     Inr (a\<lparr>arg_request := request, arg_mode := map char_of mode, arg_nfc_handover_hex := nfc_handover_hex,
       arg_nfc_handover_file := nfc_handover_file, arg_dump_cbor := dump_cbor\<rparr>))))))))))"

definition read_args :: "namespace \<Rightarrow> exn + cli_args" where
  "read_args ns =
     ebind (session_args ns) (\<lambda>a.
     ebind (float_attr ns ''advertise_timeout'') (\<lambda>advertise_timeout.
     ebind (text_attr ns ''pdp_url'') (\<lambda>pdp_url.
     ebind (string_attr ns ''mdoc_issuer_role'') (\<lambda>mdoc_issuer_role.
     ebind (bool_attr ns ''json'') (\<lambda>json.
     Inr (a\<lparr>arg_pdp_url := pdp_url, arg_mdoc_issuer_role := mdoc_issuer_role, arg_json := json\<rparr>))))))"

definition fuzz_args :: "numerals \<Rightarrow> namespace \<Rightarrow> exn + cli_args" where
  "fuzz_args N ns =
     ebind (session_args ns) (\<lambda>a.
     ebind (float_attr ns ''keep_fraction'') (\<lambda>keep_fraction.
     ebind (bool_attr ns ''skip_state_start'') (\<lambda>skip_state_start.
     ebind (int_attr ns ''cycles'') (\<lambda>cycles.
     ebind (float_attr ns ''delay'') (\<lambda>delay.
     Inr (a\<lparr>arg_keep_inside := num_inside N keep_fraction, arg_keep_scaled := num_scaled N keep_fraction,
       arg_skip_state_start := skip_state_start, arg_cycles := (case cycles of Some n \<Rightarrow> n | None \<Rightarrow> 0),
       arg_delay := num_sign N delay\<rparr>))))))"

definition show_args_of :: "namespace \<Rightarrow> exn + show_args" where
  "show_args_of ns =
     ebind (text_attr ns ''file'') (\<lambda>file.
     ebind (text_attr ns ''text'') (\<lambda>text.
     ebind (string_attr ns ''title'') (\<lambda>title.
     Inr \<lparr>show_file = file, show_text = text, show_title = title\<rparr>)))"

text \<open>\<open>camera index timeout\<close> is what \<open>scan_camera\<close> gives.\<close>

definition command_of ::
  "numerals \<Rightarrow> (int option \<Rightarrow> pystr \<Rightarrow> exn + pystr) \<Rightarrow> string list \<Rightarrow> namespace \<Rightarrow> exn + command" where
  "command_of N camera path ns =
     (if path = [''read''] then ebind (read_args ns) (\<lambda>a. Inr (Read a))
      else if path = [''fuzz''] then
        ebind (fuzz_args N ns) (\<lambda>a. ebind (string_attr ns ''scenario'') (\<lambda>s. Inr (Fuzz a (map char_of s))))
      else if path = [''engagement'', ''decode''] then ebind (engagement_args ns) (\<lambda>a. Inr (EngagementDecode a))
      else if path = [''qr'', ''scan''] then
        ebind (float_attr ns ''timeout'') (\<lambda>timeout. ebind (int_attr ns ''camera_index'') (\<lambda>i. Inr (QrScan (camera i timeout))))
      else ebind (show_args_of ns) (\<lambda>a. Inr (QrShow a)))"

definition command_line ::
  "numerals \<Rightarrow> (int option \<Rightarrow> pystr \<Rightarrow> exn + pystr) \<Rightarrow> string list \<Rightarrow> occurrence list \<Rightarrow> exn + command" where
  "command_line N camera path occs =
     (case map_of build_parser path of
        None \<Rightarrow> Inl usage_error
      | Some args \<Rightarrow> ebind (parse_args N args occs) (command_of N camera path))"

section \<open>What ends up in the namespace\<close>

definition well_formed :: "argument list \<Rightarrow> bool" where
  "well_formed args \<longleftrightarrow> distinct (concat (map opt_names args)) \<and> distinct (map opt_dest args)"

lemma tables_well_formed: "(path, args) \<in> set build_parser \<Longrightarrow> well_formed args"
proof -
  have "list_all (\<lambda>p. well_formed (snd p)) build_parser" by code_simp
  then show "(path, args) \<in> set build_parser \<Longrightarrow> well_formed args" by (force simp: list_all_iff)
qed

definition occurrences_of :: "argument \<Rightarrow> occurrence list \<Rightarrow> pystr option list" where
  "occurrences_of a occs = map snd (filter (\<lambda>occ. fst occ \<in> set (opt_names a)) occs)"

fun replay :: "numerals \<Rightarrow> argument \<Rightarrow> arg_value option \<Rightarrow> pystr option list \<Rightarrow> exn + arg_value option" where
  "replay N a old [] = Inr old"
| "replay N a old (tx # txs) = ebind (action_value N a old tx) (\<lambda>v. replay N a (Some v) txs)"

lemma find_argument_member: "find_argument args name = Some b \<Longrightarrow> b \<in> set args \<and> name \<in> set (opt_names b)"
  unfolding find_argument_def by (induction args) (auto split: if_splits)

lemma names_disjoint:
  assumes "distinct (concat (map opt_names args))" "a \<in> set args" "b \<in> set args"
    and "name \<in> set (opt_names a)" "name \<in> set (opt_names b)"
  shows "a = b"
  using assms by (induction args) auto

lemma find_argument_occurrence:
  assumes "find_argument args name = Some b" and "well_formed args" and "a \<in> set args"
  shows "occurrences_of a ((name, tx) # occs) = (if a = b then [tx] else []) @ occurrences_of a occs"
    and "a \<noteq> b \<Longrightarrow> opt_dest a \<noteq> opt_dest b"
proof -
  have b: "b \<in> set args" "name \<in> set (opt_names b)" using find_argument_member [OF assms(1)] by simp_all
  then have "name \<in> set (opt_names a) \<longleftrightarrow> a = b"
    using names_disjoint [OF _ assms(3) b(1)] assms(2) by (auto simp: well_formed_def)
  then show "occurrences_of a ((name, tx) # occs) = (if a = b then [tx] else []) @ occurrences_of a occs"
    by (simp add: occurrences_of_def)
  show "opt_dest a \<noteq> opt_dest b" if "a \<noteq> b"
    using that assms(2,3) b(1) by (auto simp: well_formed_def distinct_map inj_on_def)
qed

lemma parse_loop_replay:
  assumes "parse_loop N args occs ns = Inr ns'" and "well_formed args" and "a \<in> set args"
  shows "replay N a (map_of ns (opt_dest a)) (occurrences_of a occs) = Inr (map_of ns' (opt_dest a))"
  using assms
proof (induction N args occs ns rule: parse_loop.induct)
  case (1 N args ns)
  then show ?case by (simp add: occurrences_of_def)
next
  case (2 N args name tx occs ns)
  from "2.prems"(1) obtain b v where b: "find_argument args name = Some b"
    and v: "action_value N b (map_of ns (opt_dest b)) tx = Inr v"
    and rest: "parse_loop N args occs (AList.update (opt_dest b) v ns) = Inr ns'"
    by (auto simp: ebind_inv)
  from "2.IH" [OF b v rest "2.prems"(2,3)] find_argument_occurrence [OF b "2.prems"(2,3)] v show ?case
    by (cases "a = b") (auto simp: update_conv')
qed

lemma map_of_defaults:
  "distinct (map opt_dest args) \<Longrightarrow> a \<in> set args \<Longrightarrow> map_of (defaults args) (opt_dest a) = Some (opt_default a)"
  unfolding defaults_def by (induction args) (auto simp: image_iff)

lemma parse_args_replay:
  assumes "parse_args N args occs = Inr ns" and "well_formed args" and "a \<in> set args"
  shows "replay N a (Some (opt_default a)) (occurrences_of a occs) = Inr (map_of ns (opt_dest a))"
  using parse_loop_replay [OF _ assms(2,3), of N occs "defaults args" ns] map_of_defaults [OF _ assms(3)] assms
  by (auto simp: parse_args_def well_formed_def split: if_splits)

text \<open>
  The value an action leaves behind: the last occurrence for \<open>store\<close>, whether there was one for
  \<open>store_true\<close>, all of them for \<open>append\<close>.
\<close>

lemma replay_store:
  "opt_action a = Store \<Longrightarrow> replay N a old texts = Inr r \<Longrightarrow>
    (texts = [] \<longrightarrow> r = old) \<and>
    (texts \<noteq> [] \<longrightarrow> (\<exists>t v. last texts = Some t \<and> convert N a t = Inr v \<and> r = Some v))"
  by (induction texts arbitrary: old) (auto simp: ebind_inv action_value_def split: option.splits)

lemma replay_store_true:
  "opt_action a = StoreTrue \<Longrightarrow> replay N a old texts = Inr r \<Longrightarrow> r = (if texts = [] then old else Some (VBool True))"
proof (induction texts arbitrary: old)
  case (Cons tx txs)
  then have "replay N a (Some (VBool True)) txs = Inr r"
    by (auto simp: ebind_inv action_value_def split: option.splits)
  from Cons.IH [OF Cons.prems(1) this] show ?case by simp
qed simp

lemma convert_text: "opt_type a = AsText \<Longrightarrow> convert N a t = Inr v \<Longrightarrow>
    v = VText t \<and> (opt_choices a \<noteq> [] \<longrightarrow> t \<in> set (map U (opt_choices a)))"
  by (auto simp: convert_def split: if_splits)

lemma texts_of_map [simp]: "texts_of (map VText ts) = Some ts"
  by (induction ts) auto

lemma replay_append:
  "opt_action a = Append \<Longrightarrow> opt_type a = AsText \<Longrightarrow> replay N a (Some (VList (map VText ts))) texts = Inr r \<Longrightarrow>
    (\<forall>t\<in>set texts. t \<noteq> None) \<and> r = Some (VList (map VText (ts @ map the texts)))"
proof (induction texts arbitrary: ts)
  case (Cons tx txs)
  then obtain t where t: "tx = Some t" "replay N a (Some (VList (map VText (ts @ [t])))) txs = Inr r"
    by (auto simp: ebind_inv action_value_def dest!: convert_text split: option.splits)
  from Cons.IH [OF Cons.prems(1,2) t(2)] t(1) show ?case by simp
qed simp

lemma replay_append_None:
  assumes "opt_action a = Append" "opt_type a = AsText" "replay N a (Some VNone) texts = Inr r"
  shows "(texts = [] \<longrightarrow> r = Some VNone) \<and> (texts \<noteq> [] \<longrightarrow> r = Some (VList (map VText (map the texts))))"
proof (cases texts)
  case (Cons tx rest)
  with assms obtain t where t: "tx = Some t" "replay N a (Some (VList (map VText [t]))) rest = Inr r"
    by (auto simp: ebind_inv action_value_def dest!: convert_text split: option.splits)
  from replay_append [OF assms(1,2) t(2)] t(1) Cons show ?thesis by simp
qed (use assms(3) in simp)

section \<open>What the handlers get\<close>

text \<open>The attribute \<open>d\<close> of a parsed namespace, for an argument of a given shape and names.\<close>

definition shape :: "argument list \<Rightarrow> string \<Rightarrow> (action \<times> arg_type \<times> string list \<times> arg_value \<times> string list) option" where
  "shape args d = map_option (\<lambda>a. (opt_action a, opt_type a, opt_choices a, opt_default a, opt_names a))
     (find (\<lambda>a. opt_dest a = d) args)"

definition given_for :: "string list \<Rightarrow> occurrence list \<Rightarrow> pystr option list" where
  "given_for names occs = map snd (filter (\<lambda>occ. fst occ \<in> set names) occs)"

definition last_given :: "pystr option \<Rightarrow> string \<Rightarrow> occurrence list \<Rightarrow> pystr option" where
  "last_given d name occs = (let vs = given_for [name] occs in if vs = [] then d else last vs)"

fun text_default :: "pystr option \<Rightarrow> arg_value" where
  "text_default None = VNone"
| "text_default (Some t) = VText t"

lemma shapeE:
  assumes "shape args d = Some (act, ty, choices, dflt, names)"
  obtains a where "a \<in> set args" "opt_dest a = d" "opt_action a = act" "opt_type a = ty" "opt_choices a = choices"
    "opt_default a = dflt" "opt_names a = names"
  using assms unfolding shape_def by (auto simp: find_Some_iff) (metis nth_mem)

lemma shape_replay:
  assumes "parse_args N args occs = Inr ns" and "well_formed args" and "shape args d = Some (act, ty, choices, dflt, names)"
  obtains a where "opt_action a = act" "opt_type a = ty" "opt_choices a = choices"
    "replay N a (Some dflt) (given_for names occs) = Inr (map_of ns d)"
proof -
  from assms(3) obtain a where a: "a \<in> set args" "opt_dest a = d" "opt_action a = act" "opt_type a = ty"
    "opt_choices a = choices" "opt_default a = dflt" "opt_names a = names"
    by (rule shapeE)
  with parse_args_replay [OF assms(1,2) a(1)] that show ?thesis
    by (simp add: given_for_def occurrences_of_def)
qed

lemma text_attr_parsed:
  assumes "parse_args N args occs = Inr ns" and "well_formed args"
    and "shape args d = Some (Store, AsText, [], text_default dflt, [name])"
  shows "text_attr ns d = Inr (last_given dflt name occs)"
proof -
  from assms obtain a where a: "opt_action a = Store" "opt_type a = AsText"
    and r: "replay N a (Some (text_default dflt)) (given_for [name] occs) = Inr (map_of ns d)"
    by (rule shape_replay)
  show ?thesis
  proof (cases "given_for [name] occs = []")
    case True
    with r have "map_of ns d = Some (text_default dflt)" by simp
    with True show ?thesis by (cases dflt) (simp_all add: text_attr_def attr_def last_given_def)
  next
    case False
    with replay_store [OF a(1) r] obtain t v where "last (given_for [name] occs) = Some t" "convert N a t = Inr v" "map_of ns d = Some v"
      by auto
    moreover from this(2) have "v = VText t" using convert_text [OF a(2)] by blast
    ultimately show ?thesis using False by (simp add: text_attr_def attr_def last_given_def)
  qed
qed

lemma string_attr_parsed:
  assumes "parse_args N args occs = Inr ns" and "well_formed args"
    and "shape args d = Some (Store, AsText, choices, dflt, [name])"
    and "dflt = VText t0 \<or> given_for [name] occs \<noteq> []"
  shows "\<exists>t. string_attr ns d = Inr t \<and> (given_for [name] occs \<noteq> [] \<longrightarrow> last (given_for [name] occs) = Some t) \<and>
    (given_for [name] occs = [] \<longrightarrow> t = t0) \<and> (choices \<noteq> [] \<longrightarrow> given_for [name] occs \<noteq> [] \<longrightarrow> t \<in> set (map U choices))"
proof -
  from assms(1-3) obtain a where a: "opt_action a = Store" "opt_type a = AsText" "opt_choices a = choices"
    and r: "replay N a (Some dflt) (given_for [name] occs) = Inr (map_of ns d)"
    by (rule shape_replay)
  show ?thesis
  proof (cases "given_for [name] occs = []")
    case True
    with r have "map_of ns d = Some dflt" by simp
    with True assms(4) show ?thesis by (simp add: string_attr_def attr_def)
  next
    case False
    with replay_store [OF a(1) r] obtain t v where "last (given_for [name] occs) = Some t" "convert N a t = Inr v" "map_of ns d = Some v"
      by auto
    moreover from this(2) have "v = VText t \<and> (opt_choices a \<noteq> [] \<longrightarrow> t \<in> set (map U (opt_choices a)))"
      using convert_text [OF a(2)] by blast
    ultimately show ?thesis using False a(3) by (simp add: string_attr_def attr_def)
  qed
qed

lemma bool_attr_parsed:
  assumes "parse_args N args occs = Inr ns" and "well_formed args"
    and "shape args d = Some (StoreTrue, ty, choices, VBool False, names)"
  shows "bool_attr ns d = Inr (given_for names occs \<noteq> [])"
proof -
  from assms obtain a where "opt_action a = StoreTrue"
    "replay N a (Some (VBool False)) (given_for names occs) = Inr (map_of ns d)"
    by (rule shape_replay)
  from replay_store_true [OF this] show ?thesis by (cases "given_for names occs = []") (simp_all add: bool_attr_def attr_def)
qed

lemma texts_attr_parsed:
  assumes "parse_args N args occs = Inr ns" and "well_formed args"
    and "shape args d = Some (Append, AsText, choices, VNone, names)"
  shows "texts_attr ns d = Inr (map the (given_for names occs))"
proof -
  from assms obtain a where "opt_action a = Append" "opt_type a = AsText"
    "replay N a (Some VNone) (given_for names occs) = Inr (map_of ns d)"
    by (rule shape_replay)
  from replay_append_None [OF this] show ?thesis
    by (cases "given_for names occs = []") (auto simp: texts_attr_def attr_def simp del: map_map)
qed

lemma number_attr_parsed:
  assumes "parse_args N args occs = Inr ns" and "well_formed args"
    and "shape args d = Some (Store, ty, [], dflt, names)"
  shows "(ty = AsInt \<and> (dflt = VNone \<or> dflt = VInt i) \<longrightarrow> (\<exists>j. int_attr ns d = Inr j)) \<and>
    (ty = AsFloat \<and> dflt = VFloat f \<longrightarrow> (\<exists>g. float_attr ns d = Inr g))"
proof -
  from assms obtain a where a: "opt_action a = Store" "opt_type a = ty" "opt_choices a = []"
    and r: "replay N a (Some dflt) (given_for names occs) = Inr (map_of ns d)"
    by (rule shape_replay)
  from replay_store [OF a(1) r] have "map_of ns d = Some dflt \<or> (\<exists>t v. convert N a t = Inr v \<and> map_of ns d = Some v)"
    by auto
  with a show ?thesis
    by (auto simp: int_attr_def float_attr_def attr_def convert_def ebind_inv split: option.splits if_splits)
qed

text \<open>The arguments that several subcommands declare, by their shapes.\<close>

definition engagement_table :: "argument list \<Rightarrow> bool" where
  "engagement_table args \<longleftrightarrow> well_formed args \<and>
     shape args ''mdoc_uri'' = Some (Store, AsText, [], text_default None, [''mdoc_uri'']) \<and>
     shape args ''qr_image'' = Some (Store, AsText, [], text_default None, [''--qr-image'']) \<and>
     shape args ''qr_camera'' = Some (StoreTrue, AsText, [], VBool False, [''--qr-camera'']) \<and>
     shape args ''camera_index'' = Some (Store, AsInt, [], VNone, [''--camera-index'']) \<and>
     shape args ''qr_camera_timeout'' = Some (Store, AsFloat, [], VFloat (U ''30.0''), [''--qr-camera-timeout''])"

definition session_table :: "string list \<Rightarrow> argument list \<Rightarrow> bool" where
  "session_table modes args \<longleftrightarrow> engagement_table args \<and> ''auto'' \<in> set modes \<and>
     shape args ''request'' = Some (Append, AsText, [], VNone, [''--request'']) \<and>
     shape args ''mode'' = Some (Store, AsText, modes, VText (U ''auto''), [''--mode'']) \<and>
     shape args ''nfc_handover_hex'' = Some (Store, AsText, [], text_default None, [''--nfc-handover-hex'']) \<and>
     shape args ''nfc_handover_file'' = Some (Store, AsText, [], text_default None, [''--nfc-handover-file'']) \<and>
     shape args ''scan_timeout'' = Some (Store, AsFloat, [], VFloat (U ''10.0''), [''--scan-timeout'']) \<and>
     shape args ''response_timeout'' = Some (Store, AsFloat, [], VFloat (U ''15.0''), [''--response-timeout'']) \<and>
     shape args ''dump_cbor'' = Some (Store, AsText, [], text_default None, [''--dump-cbor'']) \<and>
     shape args ''verbose'' = Some (StoreTrue, AsText, [], VBool False, [''-v'', ''--verbose''])"

lemma tables:
  "engagement_table decode_arguments"
  "session_table [''auto'', ''peripheral'', ''central''] read_arguments"
  "session_table [''auto'', ''peripheral''] fuzz_arguments"
  by code_simp+

definition engagement_given :: "occurrence list \<Rightarrow> cli_args \<Rightarrow> bool" where
  "engagement_given occs a \<longleftrightarrow> arg_mdoc_uri a = last_given None ''mdoc_uri'' occs \<and>
     arg_qr_image a = last_given None ''--qr-image'' occs \<and> arg_qr_camera a = (given_for [''--qr-camera''] occs \<noteq> [])"

definition session_given :: "string list \<Rightarrow> occurrence list \<Rightarrow> cli_args \<Rightarrow> bool" where
  "session_given modes occs a \<longleftrightarrow> engagement_given occs a \<and> arg_mode a \<in> set modes \<and>
     Some (U (arg_mode a)) = last_given (Some (U ''auto'')) ''--mode'' occs \<and>
     arg_request a = map the (given_for [''--request''] occs) \<and>
     arg_nfc_handover_hex a = last_given None ''--nfc-handover-hex'' occs \<and>
     arg_nfc_handover_file a = last_given None ''--nfc-handover-file'' occs \<and>
     arg_dump_cbor a = last_given None ''--dump-cbor'' occs"

lemma map_char_of_U [simp]: "map char_of (U s) = s"
  by (simp add: U_def o_def)

lemma engagement_args_parsed:
  assumes "parse_args N args occs = Inr ns" and "engagement_table args"
  shows "\<exists>a. engagement_args ns = Inr a \<and> engagement_given occs a"
proof -
  from assms(2) have wf: "well_formed args"
    and s: "shape args ''mdoc_uri'' = Some (Store, AsText, [], text_default None, [''mdoc_uri''])"
      "shape args ''qr_image'' = Some (Store, AsText, [], text_default None, [''--qr-image''])"
      "shape args ''qr_camera'' = Some (StoreTrue, AsText, [], VBool False, [''--qr-camera''])"
      "shape args ''camera_index'' = Some (Store, AsInt, [], VNone, [''--camera-index''])"
      "shape args ''qr_camera_timeout'' = Some (Store, AsFloat, [], VFloat (U ''30.0''), [''--qr-camera-timeout''])"
    unfolding engagement_table_def by blast+
  note p = assms(1) wf
  obtain i where "int_attr ns ''camera_index'' = Inr i" using number_attr_parsed [OF p s(4)] by blast
  moreover obtain f where "float_attr ns ''qr_camera_timeout'' = Inr f" using number_attr_parsed [OF p s(5)] by blast
  ultimately show ?thesis
    by (simp add: engagement_args_def text_attr_parsed [OF p s(1)] text_attr_parsed [OF p s(2)]
        bool_attr_parsed [OF p s(3)] engagement_given_def)
qed

lemma session_args_parsed:
  assumes "parse_args N args occs = Inr ns" and "session_table modes args"
  shows "\<exists>a. session_args ns = Inr a \<and> session_given modes occs a"
proof -
  from assms(2) have wf: "well_formed args" and auto: "''auto'' \<in> set modes" and e: "engagement_table args"
    and s: "shape args ''request'' = Some (Append, AsText, [], VNone, [''--request''])"
      "shape args ''mode'' = Some (Store, AsText, modes, VText (U ''auto''), [''--mode''])"
      "shape args ''nfc_handover_hex'' = Some (Store, AsText, [], text_default None, [''--nfc-handover-hex''])"
      "shape args ''nfc_handover_file'' = Some (Store, AsText, [], text_default None, [''--nfc-handover-file''])"
      "shape args ''scan_timeout'' = Some (Store, AsFloat, [], VFloat (U ''10.0''), [''--scan-timeout''])"
      "shape args ''response_timeout'' = Some (Store, AsFloat, [], VFloat (U ''15.0''), [''--response-timeout''])"
      "shape args ''dump_cbor'' = Some (Store, AsText, [], text_default None, [''--dump-cbor''])"
      "shape args ''verbose'' = Some (StoreTrue, AsText, [], VBool False, [''-v'', ''--verbose''])"
    unfolding session_table_def engagement_table_def by blast+
  note p = assms(1) wf
  obtain a where a: "engagement_args ns = Inr a" "engagement_given occs a"
    using engagement_args_parsed [OF assms(1) e] by blast
  obtain f where f: "float_attr ns ''scan_timeout'' = Inr f" using number_attr_parsed [OF p s(5)] by blast
  obtain g where g: "float_attr ns ''response_timeout'' = Inr g" using number_attr_parsed [OF p s(6)] by blast
  let ?vs = "given_for [''--mode''] occs"
  obtain t where t: "string_attr ns ''mode'' = Inr t" "?vs \<noteq> [] \<longrightarrow> last ?vs = Some t" "?vs = [] \<longrightarrow> t = U ''auto''"
      "?vs \<noteq> [] \<longrightarrow> t \<in> set (map U modes)"
    using string_attr_parsed [OF p s(2), of "U ''auto''"] auto by (cases "modes = []") auto
  then obtain m where m: "t = U m" "m \<in> set modes" using auto by (cases "?vs = []") auto
  with t have "Some (U m) = last_given (Some (U ''auto'')) ''--mode'' occs" by (cases "?vs = []") (auto simp: last_given_def Let_def)
  with a f g t(1) m show ?thesis
    by (simp add: session_args_def text_attr_parsed [OF p s(3)] text_attr_parsed [OF p s(4)] text_attr_parsed [OF p s(7)]
        bool_attr_parsed [OF p s(8)] texts_attr_parsed [OF p s(1)] session_given_def engagement_given_def)
qed

lemma read_args_parsed:
  assumes "parse_args N read_arguments occs = Inr ns"
  shows "\<exists>a. read_args ns = Inr a \<and> session_given [''auto'', ''peripheral'', ''central''] occs a \<and>
    arg_pdp_url a = last_given None ''--pdp-url'' occs \<and>
    Some (arg_mdoc_issuer_role a) = last_given (Some (U DEFAULT_MDOC_ISSUER_ROLE)) ''--mdoc-issuer-role'' occs \<and>
    arg_json a = (given_for [''--json''] occs \<noteq> [])"
proof -
  have wf: "well_formed read_arguments" using tables(2) by (simp add: session_table_def engagement_table_def)
  have s: "shape read_arguments ''advertise_timeout'' = Some (Store, AsFloat, [], VFloat (U ''30.0''), [''--advertise-timeout''])"
    "shape read_arguments ''pdp_url'' = Some (Store, AsText, [], text_default None, [''--pdp-url''])"
    "shape read_arguments ''mdoc_issuer_role'' =
      Some (Store, AsText, [], VText (U DEFAULT_MDOC_ISSUER_ROLE), [''--mdoc-issuer-role''])"
    "shape read_arguments ''json'' = Some (StoreTrue, AsText, [], VBool False, [''--json''])"
    by code_simp+
  note p = assms wf
  obtain a where a: "session_args ns = Inr a" "session_given [''auto'', ''peripheral'', ''central''] occs a"
    using session_args_parsed [OF assms tables(2)] by blast
  obtain f where f: "float_attr ns ''advertise_timeout'' = Inr f" using number_attr_parsed [OF p s(1)] by blast
  let ?vs = "given_for [''--mdoc-issuer-role''] occs"
  obtain t where t: "string_attr ns ''mdoc_issuer_role'' = Inr t" "?vs \<noteq> [] \<longrightarrow> last ?vs = Some t"
      "?vs = [] \<longrightarrow> t = U DEFAULT_MDOC_ISSUER_ROLE"
    using string_attr_parsed [OF p s(3), of "U DEFAULT_MDOC_ISSUER_ROLE"] by auto
  then have "Some t = last_given (Some (U DEFAULT_MDOC_ISSUER_ROLE)) ''--mdoc-issuer-role'' occs"
    by (cases "?vs = []") (auto simp: last_given_def Let_def)
  with a f t(1) show ?thesis
    by (simp add: read_args_def text_attr_parsed [OF p s(2)] bool_attr_parsed [OF p s(4)] session_given_def engagement_given_def)
qed

lemma fuzz_args_parsed:
  assumes "parse_args N fuzz_arguments occs = Inr ns"
  shows "\<exists>a s. fuzz_args N ns = Inr a \<and> session_given [''auto'', ''peripheral''] occs a \<and>
    string_attr ns ''scenario'' = Inr (U (scenario_value s))"
proof -
  have wf: "well_formed fuzz_arguments" using tables(3) by (simp add: session_table_def engagement_table_def)
  have s: "shape fuzz_arguments ''keep_fraction'' = Some (Store, AsFloat, [], VFloat (U ''0.7''), [''--keep-fraction''])"
    "shape fuzz_arguments ''delay'' = Some (Store, AsFloat, [], VFloat (U ''0.0''), [''--delay''])"
    "shape fuzz_arguments ''cycles'' = Some (Store, AsInt, [], VInt 20, [''--cycles''])"
    "shape fuzz_arguments ''skip_state_start'' = Some (StoreTrue, AsText, [], VBool False, [''--skip-state-start''])"
    "shape fuzz_arguments ''scenario'' = Some (Store, AsText, map scenario_value all_scenarios, VNone, [''scenario''])"
    by code_simp+
  note p = assms wf
  obtain a where a: "session_args ns = Inr a" "session_given [''auto'', ''peripheral''] occs a"
    using session_args_parsed [OF assms tables(3)] by blast
  obtain f where f: "float_attr ns ''keep_fraction'' = Inr f" using number_attr_parsed [OF p s(1)] by blast
  obtain g where g: "float_attr ns ''delay'' = Inr g" using number_attr_parsed [OF p s(2)] by blast
  obtain i where i: "int_attr ns ''cycles'' = Inr i" using number_attr_parsed [OF p s(3)] by blast
  have "\<exists>a\<in>set fuzz_arguments. opt_dest a = ''scenario'' \<and> opt_flags a = [] \<and> opt_required a"
    by (simp add: fuzz_arguments_def positional_def)
  with assms have "length (filter (\<lambda>occ. fst occ = ''scenario'') occs) = 1"
    by (fastforce simp: parse_args_def positionals_fit_def Let_def split: if_splits)
  then have "given_for [''scenario''] occs \<noteq> []" by (auto simp: given_for_def)
  moreover have "all_scenarios \<noteq> []" by (simp add: all_scenarios_def)
  ultimately obtain t where t: "string_attr ns ''scenario'' = Inr t" "t \<in> set (map U (map scenario_value all_scenarios))"
    using string_attr_parsed [OF p s(5)] by auto
  then obtain sc where "t = U (scenario_value sc)" by auto
  with a f g i t(1) show ?thesis
    by (simp add: fuzz_args_def bool_attr_parsed [OF p s(4)] session_given_def engagement_given_def) blast
qed

lemma scan_parsed:
  assumes "parse_args N scan_arguments occs = Inr ns"
  shows "\<exists>f i. float_attr ns ''timeout'' = Inr f \<and> int_attr ns ''camera_index'' = Inr i"
proof -
  have wf: "well_formed scan_arguments" by code_simp
  have s: "shape scan_arguments ''timeout'' = Some (Store, AsFloat, [], VFloat (U ''30.0''), [''--timeout''])"
    "shape scan_arguments ''camera_index'' = Some (Store, AsInt, [], VNone, [''--camera-index''])"
    by code_simp+
  from number_attr_parsed [OF assms wf s(1)] number_attr_parsed [OF assms wf s(2)] show ?thesis by blast
qed

lemma show_parsed:
  assumes "parse_args N show_arguments occs = Inr ns"
  shows "\<exists>a. show_args_of ns = Inr a \<and> show_file a = last_given None ''--file'' occs \<and>
    show_text a = last_given None ''text'' occs"
proof -
  have wf: "well_formed show_arguments" by code_simp
  have s: "shape show_arguments ''file'' = Some (Store, AsText, [], text_default None, [''--file''])"
    "shape show_arguments ''text'' = Some (Store, AsText, [], text_default None, [''text''])"
    "shape show_arguments ''title'' = Some (Store, AsText, [], VText (U ''siros-verify''), [''--title''])"
    by code_simp+
  note p = assms wf
  obtain t where "string_attr ns ''title'' = Inr t"
    using string_attr_parsed [OF p s(3), of "U ''siros-verify''"] by blast
  then show ?thesis
    by (simp add: show_args_of_def text_attr_parsed [OF p s(1)] text_attr_parsed [OF p s(2)])
qed

section \<open>Errors of the command line\<close>

lemma convert_error: "convert N a t = Inl e \<Longrightarrow> e = usage_error"
  by (auto simp: convert_def ebind_inv split: arg_type.splits option.splits if_splits)

lemma action_error: "action_value N a old tx = Inl e \<Longrightarrow> e = usage_error"
  by (auto simp: action_value_def ebind_inv split: action.splits option.splits dest: convert_error)

lemma parse_loop_error: "parse_loop N args occs ns = Inl e \<Longrightarrow> e = usage_error"
proof (induction N args occs ns rule: parse_loop.induct)
  case (2 N args name tx occs ns)
  then show ?case by (cases "find_argument args name") (auto simp: ebind_inv dest: action_error)
qed simp

lemma parse_args_error: "parse_args N args occs = Inl e \<Longrightarrow> e = usage_error"
  by (auto simp: parse_args_def split: if_splits dest: parse_loop_error)

section \<open>Properties\<close>


end
