(* ===== verification/Cli_Diagnostics.thy ===== *)
theory Cli_Diagnostics
  imports Cli_Read
begin

text \<open>
  What \<open>read\<close> writes on standard error: the text of each of its diagnostics.  \<open>X\<close> is \<open>str\<close> of an
  exception.  Everything that can hold text of the mdoc goes through \<open>_safe_diagnostic\<close>; only the
  exceptions of the transports, which the program and the BLE libraries word themselves, do not.
\<close>

definition safe_diagnostic :: "lib \<Rightarrow> pyobj \<Rightarrow> printed" where
  "safe_diagnostic L v = safe_text L v"

text \<open>\<open>_safe_diagnostic(exc)\<close>: an exception is no tag and no container, so its \<open>str\<close> is escaped.\<close>

definition safe_exception :: "(exn \<Rightarrow> pystr) \<Rightarrow> exn \<Rightarrow> printed" where
  "safe_exception X e = Inr (unicode_escape (X e))"

definition ENGAGEMENT_NOTE :: string where
  "ENGAGEMENT_NOTE = [CHR 0x0A] @
     ''NOTE: this engagement only offers mdoc central client mode - this tool '' @
     ''will advertise as a BLE peripheral and wait for the mdoc to connect '' @
     ''(requires the '' @ [CHR 0x27] @ ''peripheral'' @ [CHR 0x27] @
     '' extra; UNVERIFIED ON REAL HARDWARE - see README).''"

text \<open>\<open>None\<close> for the diagnostics of other commands.\<close>

fun read_diagnostic :: "lib \<Rightarrow> (exn \<Rightarrow> pystr) \<Rightarrow> diagnostic \<Rightarrow> printed option" where
  "read_diagnostic L X EngagementNote = Some (line [lit ENGAGEMENT_NOTE])"
| "read_diagnostic L X DumpNote = Some (line
     [lit ''note: SessionData/DeviceResponse dumps are disabled because requests use intentToRetain=false.''])"
| "read_diagnostic L X (TransportFailed e) = Some (line [lit ''error: '', Inr (X e)])"
| "read_diagnostic L X (NoData status name) = Some (line
     [lit ''error: mdoc returned SessionData with no data, status='', safe_diagnostic L status, lit '' ('',
      safe_diagnostic L (PStr name), lit '')''])"
| "read_diagnostic L X (MalformedResponse e) = Some (line
     [lit ''error: malformed DeviceResponse; no claims released: '', safe_exception X e])"
| "read_diagnostic L X (VerificationFailed errors) = Some (pieces
     [line [lit ''error: DeviceResponse verification failed; no claims released:''],
      for_each (\<lambda>error. line [lit ''  - '', safe_diagnostic L (PStr (error_text error))]) errors])"
| "read_diagnostic L X (TrustFailed e) = Some (line
     [lit ''error: go-trust authorization failed; no claims released: '', safe_exception X e])"
| "read_diagnostic L X (PermitCount n) = Some (line
     [lit ''go-trust: explicit permit for '', Inr (dec_nat n), lit '' document(s)''])"
| "read_diagnostic L X (RenderFailed e) = Some (line
     [lit ''error: unable to render DeviceResponse; no claims released: '', safe_exception X e])"
| "read_diagnostic L X _ = None"

text \<open>Every diagnostic \<open>read\<close> emits has its text here.\<close>

definition has_text :: "event \<Rightarrow> bool" where
  "has_text ev \<longleftrightarrow> (\<forall>d. ev = Diagnostic d \<longrightarrow> (\<forall>L X. read_diagnostic L X d \<noteq> None))"

lemma has_text_simps [simp]:
  "has_text (Printed t)" "has_text (Dumped x y z)" "has_text (Exchanged b u m)" "has_text (Released out)"
  "has_text (Diagnostic d) \<longleftrightarrow> (\<forall>L X. read_diagnostic L X d \<noteq> None)"
  by (auto simp: has_text_def)

lemma has_text_setup: "emits has_text (setup_session R args)"
  by (auto simp: setup_session_def print_engagement_def intro!: emits_intros emits_dump)

lemma has_text_release: "emits has_text (authorize_and_release R args response)"
  by (auto simp: authorize_and_release_def release_claims_def split: sum.split option.split intro!: emits_intros)

lemma has_text_handle: "emits has_text (handle_session_data R args ss reqs sd)"
  by (auto simp: handle_session_data_def handle_plaintext_def no_data_def has_text_release split: sum.split intro!: emits_intros)

lemma has_text_transact: "emits has_text (transact R args ss reqs se b)"
  using emits_exchange [of has_text R b "ss_de ss" se] has_text_handle [of R args ss reqs]
  by (auto simp: transact_def emits_def set_io_bind split: prod.split sum.split)

lemma read_diagnostics_have_text: "emits has_text (run_read R args)"
  unfolding run_read_def
  by (intro emits_bind has_text_setup) (auto intro!: emits_bind emits_prepare has_text_transact split: prod.split)

end
