(* ===== verification/Display_Safe.thy ===== *)
theory Display_Safe
  imports Display Py_Json
begin

text \<open>
  What \<open>safe_text\<close> and \<open>to_jsonable\<close> guarantee: escaped text is printable ASCII, whatever the
  message held, so no terminal control sequence gets through, and it can be read back; and the
  JSON of a mapping keeps every entry.
\<close>

section \<open>Printable text\<close>

definition printable :: "pystr \<Rightarrow> bool" where
  "printable s \<longleftrightarrow> (\<forall>c\<in>set s. 32 \<le> c \<and> c \<le> 126)"

lemma printable_simps [simp]:
  "printable []" "printable (c # s) \<longleftrightarrow> 32 \<le> c \<and> c \<le> 126 \<and> printable s"
  "printable (s @ t) \<longleftrightarrow> printable s \<and> printable t"
  by (auto simp: printable_def)

lemma printable_concat [simp]: "printable (concat ss) \<longleftrightarrow> (\<forall>s\<in>set ss. printable s)"
  by (induction ss) auto

lemma printable_join: "printable sep \<Longrightarrow> \<forall>s\<in>set ss. printable s \<Longrightarrow> printable (join sep ss)"
  by (induction sep ss rule: join.induct) auto

lemma hex_digit_printable [simp]: "d < 16 \<Longrightarrow> 32 \<le> hex_digit d \<and> hex_digit d \<le> 126"
  by (simp add: hex_digit_def)

lemma hex_fixed_printable [simp]: "printable (hex_fixed k n)"
  by (induction k arbitrary: n) (auto simp: hex_digit_def)

lemma escape_char_printable [simp]: "printable (escape_char c)"
  by (simp add: escape_char_def)

lemma unicode_escape_printable [simp]: "printable (unicode_escape s)"
  by (simp add: unicode_escape_def)

lemma dec_int_printable [simp]: "printable (dec_int i)"
  by (auto simp: dec_int_def printable_def dest: dec_nat_digits)

lemma safe_text_atom_printable: "safe_text_atom L v = Inr s \<Longrightarrow> printable s"
  by (cases "(L, v)" rule: safe_text_atom.cases) (auto simp: ebind_inv)

lemma emap_printable: "emap f xs = Inr ss \<Longrightarrow> (\<And>x s. x \<in> set xs \<Longrightarrow> f x = Inr s \<Longrightarrow> printable s) \<Longrightarrow> \<forall>s\<in>set ss. printable s"
  by (meson emap_memberE)

lemma U_printable [simp]: "printable (U s) \<longleftrightarrow> (\<forall>c\<in>set s. 32 \<le> (of_char c :: nat) \<and> of_char c \<le> (126 :: nat))"
  by (auto simp: printable_def U_def)

lemma safe_text_printable: "safe_text L v = Inr s \<Longrightarrow> printable s"
proof (induction L v arbitrary: s rule: safe_text.induct)
  case (1 L tag v)
  then show ?case by (auto simp: ebind_inv)
next
  case (2 L xs)
  then show ?case by (auto simp: ebind_inv intro!: printable_join dest!: emap_printable)
next
  case (3 L xs)
  then show ?case by (auto simp: ebind_inv intro!: printable_join dest!: emap_printable)
next
  case (4 L m)
  from "4.prems" obtain ss where ss: "emap (\<lambda>(k, v). ebind (safe_text L k) (\<lambda>s. ebind (safe_text L v) (\<lambda>t. Inr (s @ U '': '' @ t)))) m = Inr ss"
    and s: "s = U ''{'' @ join (U '', '') ss @ U ''}''" by (auto simp: ebind_inv)
  have "\<forall>s\<in>set ss. printable s"
  proof (rule emap_printable [OF ss])
    fix p t assume "p \<in> set m" "(case p of (k, v) \<Rightarrow> ebind (safe_text L k) (\<lambda>s. ebind (safe_text L v) (\<lambda>t. Inr (s @ U '': '' @ t)))) = Inr t"
    with "4.IH" show "printable t" by (cases p) (fastforce simp: ebind_inv)
  qed
  with s show ?case by (simp add: printable_join)
qed (auto dest: safe_text_atom_printable simp del: safe_text_atom.simps)

section \<open>Reading escaped text back\<close>

definition hex_value_of :: "nat \<Rightarrow> nat" where
  "hex_value_of c = (if c < 58 then c - 48 else c - 87)"

definition from_hex :: "pystr \<Rightarrow> nat" where
  "from_hex ds = foldl (\<lambda>a d. a * 16 + hex_value_of d) 0 ds"

lemma from_hex_fixed: "from_hex (hex_fixed k n) = n mod 16 ^ k"
proof (induction k arbitrary: n)
  case (Suc k)
  have "hex_value_of (hex_digit (n mod 16)) = n mod 16" by (auto simp: hex_value_of_def hex_digit_def)
  with Suc [of "n div 16"] show ?case
    by (simp add: from_hex_def mod_mult2_eq mult.commute)
qed (simp add: from_hex_def)

lemma length_hex_fixed [simp]: "length (hex_fixed k n) = k"
  by (induction k arbitrary: n) auto

text \<open>One code point, and the rest.\<close>

definition read_char :: "pystr \<Rightarrow> nat \<times> pystr" where
  "read_char s =
     (if hd s \<noteq> 92 then (hd s, tl s)
      else let k = s ! 1; r = drop 2 s in
        if k = 120 then (from_hex (take 2 r), drop 2 r)
        else if k = 117 then (from_hex (take 4 r), drop 4 r)
        else if k = 85 then (from_hex (take 8 r), drop 8 r)
        else (if k = 116 then 9 else if k = 110 then 10 else if k = 114 then 13 else 92, r))"

lemma read_escape_char: "c < 1114112 \<Longrightarrow> read_char (escape_char c @ s) = (c, s)"
proof -
  assume "c < 1114112"
  then consider "c = 92" | "c = 9" | "c = 10" | "c = 13" | "32 \<le> c" "c < 127" "c \<noteq> 92"
    | "\<not> (32 \<le> c \<and> c < 127)" "c \<noteq> 9" "c \<noteq> 10" "c \<noteq> 13" "c < 256" | "256 \<le> c" "c < 65536" | "65536 \<le> c" "c < 16 ^ 8"
    by fastforce
  then show ?thesis
  proof cases
    case 6
    then have "escape_char c = [92, 120] @ hex_fixed 2 c" by (auto simp: escape_char_def)
    with 6 show ?thesis by (simp add: read_char_def from_hex_fixed)
  next
    case 7
    then have "escape_char c = [92, 117] @ hex_fixed 4 c" by (simp add: escape_char_def)
    with 7 show ?thesis by (simp add: read_char_def from_hex_fixed)
  next
    case 8
    then have "escape_char c = [92, 85] @ hex_fixed 8 c" by (simp add: escape_char_def)
    with 8 show ?thesis by (simp add: read_char_def from_hex_fixed)
  qed (simp_all add: escape_char_def read_char_def)
qed

lemma escape_char_nonempty [simp]: "escape_char c \<noteq> []"
  by (simp add: escape_char_def)

lemma unicode_escape_inject:
  "\<forall>c\<in>set s. c < 1114112 \<Longrightarrow> \<forall>c\<in>set t. c < 1114112 \<Longrightarrow> unicode_escape s = unicode_escape t \<Longrightarrow> s = t"
proof (induction s arbitrary: t)
  case Nil
  then show ?case by (cases t) (auto simp: unicode_escape_def)
next
  case (Cons c s)
  show ?case
  proof (cases t)
    case Nil
    with Cons.prems show ?thesis by (simp add: unicode_escape_def)
  next
    case (Cons d t')
    with Cons.prems have "(c, unicode_escape s) = (d, unicode_escape t')"
      using read_escape_char [of c "unicode_escape s"] read_escape_char [of d "unicode_escape t'"]
      by (simp add: unicode_escape_def)
    with Cons.IH [of t'] Cons.prems Cons show ?thesis by simp
  qed
qed

section \<open>JSON of mappings\<close>

lemma convert_items_keeps:
  "convert_items entries converted items = Inr j \<Longrightarrow> distinct (map fst converted) \<Longrightarrow>
    (\<exists>members. j = JObj members \<and> distinct (map fst members) \<and> length members = length converted + length items) \<or>
    (\<exists>es. entries = Inr es \<and> j = JObj [(U ''entries'', JList es)])"
proof (induction entries converted items rule: convert_items.induct)
  case (2 entries converted key item rest)
  from "2.prems"(1) obtain k where k: "key = Inr k" by (auto simp: ebind_inv)
  show ?case
  proof (cases "k \<in> fst ` set converted")
    case True
    with "2.prems" k show ?thesis by (auto simp: ebind_inv)
  next
    case False
    with "2.prems" k obtain i where "item = Inr i" by (auto simp: ebind_inv)
    with "2.IH" [OF k False this] "2.prems" k False show ?thesis by simp
  qed
qed auto

section \<open>JSON that reads back\<close>

lemma length_dec_nat: "n < 10 ^ k \<Longrightarrow> 0 < k \<Longrightarrow> length (dec_nat n) \<le> k"
proof (induction k arbitrary: n)
  case (Suc k)
  show ?case
  proof (cases "n < 10")
    case True
    then show ?thesis by (subst dec_nat.simps) simp
  next
    case False
    with Suc.prems(1) have "n div 10 < 10 ^ k" "0 < k" by (auto simp: div_less_iff_less_mult intro: gr0I)
    with Suc.IH False show ?thesis by (subst dec_nat.simps) simp
  qed
qed simp

lemma plain_small_int: "small_int i \<Longrightarrow> plain_json (JInt i)"
proof -
  assume "small_int i"
  then have "nat \<bar>i\<bar> < 10 ^ 20" by (simp add: small_int_def nat_less_iff abs_if)
  from length_dec_nat [OF this] show ?thesis by (simp add: MAX_INT_DIGITS_def)
qed

text \<open>The objects whose conversion consists of JSON types only, with tags that fit a CBOR head.\<close>

fun json_safe :: "pyobj \<Rightarrow> bool" where
  "json_safe (PTag tag v) \<longleftrightarrow> small_int tag \<and> json_safe v"
| "json_safe (PList xs) \<longleftrightarrow> (\<forall>x\<in>set xs. json_safe x)"
| "json_safe (PTuple xs) \<longleftrightarrow> (\<forall>x\<in>set xs. json_safe x)"
| "json_safe (PMap m) \<longleftrightarrow> (\<forall>(k, v)\<in>set m. json_safe k \<and> json_safe v)"
| "json_safe (POther k t n) \<longleftrightarrow> False"
| "json_safe _ \<longleftrightarrow> True"

lemma convert_items_plain:
  "convert_items entries converted items = Inr j \<Longrightarrow> distinct (map fst converted) \<Longrightarrow>
    \<forall>(k, v)\<in>set converted. plain_json v \<Longrightarrow> \<forall>(k, i)\<in>set items. \<forall>v. i = Inr v \<longrightarrow> plain_json v \<Longrightarrow>
    \<forall>es. entries = Inr es \<longrightarrow> (\<forall>e\<in>set es. plain_json e) \<Longrightarrow> plain_json j"
proof (induction entries converted items rule: convert_items.induct)
  case (2 entries converted key item rest)
  from "2.prems"(1) obtain k where k: "key = Inr k" by (auto simp: ebind_inv)
  show ?case
  proof (cases "k \<in> fst ` set converted")
    case True
    with "2.prems"(1,5) k show ?thesis by (auto simp: ebind_inv)
  next
    case False
    with "2.prems"(1) k obtain i where i: "item = Inr i" by (auto simp: ebind_inv)
    with "2.prems" k False have "convert_items entries (converted @ [(k, i)]) rest = Inr j"
      "distinct (map fst (converted @ [(k, i)]))" "\<forall>(k, v)\<in>set (converted @ [(k, i)]). plain_json v" by auto
    with "2.IH" [OF k False i] "2.prems"(4,5) show ?thesis by simp
  qed
qed auto

lemma to_jsonable_plain: "to_jsonable L v = Inr j \<Longrightarrow> json_safe v \<Longrightarrow> plain_json j"
proof (induction L v arbitrary: j rule: to_jsonable.induct)
  case (4 L tag v)
  then show ?case by (auto simp: ebind_inv plain_small_int U_def simp del: plain_json.simps(1))
next
  case (5 L m)
  have sub: "plain_json j'" if "(k, v) \<in> set m" "to_jsonable L k = Inr j' \<or> to_jsonable L v = Inr j'" for k v j'
    using that "5.IH" "5.prems"(2) by fastforce
  have entries: "\<forall>e\<in>set es. plain_json e"
    if "emap (\<lambda>(k, v). ebind (to_jsonable L k) (\<lambda>j. ebind (to_jsonable L v) (\<lambda>j'.
          Inr (JObj [(U ''key'', j), (U ''value'', j')])))) m = Inr es" for es
  proof
    fix e assume "e \<in> set es"
    with that obtain k v a b where kv: "(k, v) \<in> set m" "to_jsonable L k = Inr a" "to_jsonable L v = Inr b"
        "e = JObj [(U ''key'', a), (U ''value'', b)]"
      by (auto elim!: emap_memberE simp: ebind_inv)
    then show "plain_json e" using sub [OF kv(1)] by (simp add: U_def)
  qed
  show ?case
    by (rule convert_items_plain [OF "5.prems"(1) [unfolded to_jsonable.simps]]) (use sub entries in auto)
next
  case (6 L xs)
  then obtain js where "emap (\<lambda>x. to_jsonable L x) xs = Inr js" "j = JList js" by (auto simp: ebind_inv)
  with "6.IH" "6.prems"(2) show ?case by (auto elim: emap_memberE)
next
  case (7 L xs)
  then obtain js where "emap (\<lambda>x. to_jsonable L x) xs = Inr js" "j = JList js" by (auto simp: ebind_inv)
  with "7.IH" "7.prems"(2) show ?case by (auto elim: emap_memberE)
next
  case (8 L i)
  then show ?case by (auto simp: json_big_int_def plain_small_int simp del: plain_json.simps(1) split: if_splits)
qed auto

section \<open>Properties\<close>

text \<open>
  C23: \<open>safe_text\<close> returns printable ASCII only, whatever object it is given and whatever
  \<open>str\<close> of it says, so untrusted text cannot carry a newline or a terminal control sequence.
\<close>

theorem safe_text_is_printable_ascii:
  assumes "safe_text L v = Inr s"
  shows "list_all (\<lambda>c. 32 \<le> c \<and> c \<le> 126) s"
  using safe_text_printable [OF assms] by (simp add: printable_def list_all_iff)

theorem safe_text_is_printable_ascii_witness:
  "list_all (\<lambda>c. 32 \<le> c \<and> c \<le> (126 :: nat)) [91, 97, 92, 120, 49, 98, 92, 110, 93]"
proof -
  have s: "safe_text (demo_lib []) (PList [PStr [97, 27, 10]]) = Inr [91, 97, 92, 120, 49, 98, 92, 110, 93]" by code_simp
  show ?thesis by (rule safe_text_is_printable_ascii [OF s])
qed

text \<open>
  C24: escaping loses nothing: two texts of Unicode code points that \<open>safe_text\<close> renders alike are
  equal, so different identifiers are displayed differently.
\<close>

theorem safe_text_injective_on_text:
  assumes "\<forall>c\<in>set s. c < 0x110000" and "\<forall>c\<in>set t. c < 0x110000"
    and "safe_text L (PStr s) = safe_text L (PStr t)"
  shows "s = t"
  using assms by (auto intro: unicode_escape_inject)

theorem safe_text_injective_on_text_witness:
  "safe_text (demo_lib []) (PStr [92, 110]) \<noteq> safe_text (demo_lib []) (PStr [10])"
proof
  assume eq: "safe_text (demo_lib []) (PStr [92, 110]) = safe_text (demo_lib []) (PStr [10])"
  have "\<forall>c\<in>set [92, 110]. c < (0x110000 :: nat)" "\<forall>c\<in>set [10]. c < (0x110000 :: nat)" by simp_all
  from safe_text_injective_on_text [OF this eq] show False by simp
qed

text \<open>
  C25: the JSON of a mapping has one member per entry with distinct names, or, when two keys would
  get the same name, an array with one element per entry: no entry overwrites another.
\<close>

theorem json_mapping_keeps_entries:
  assumes "to_jsonable L (PMap m) = Inr j"
  shows "(\<exists>members. j = JObj members \<and> distinct (map fst members) \<and> length members = length m) \<or>
    (\<exists>es. j = JObj [(U ''entries'', JList es)] \<and> length es = length m)"
proof -
  from assms have "convert_items
       (emap (\<lambda>(k, v). ebind (to_jsonable L k) (\<lambda>j. ebind (to_jsonable L v) (\<lambda>j'.
          Inr (JObj [(U ''key'', j), (U ''value'', j')])))) m)
       [] (map (\<lambda>(k, v). (json_key L k, to_jsonable L v)) m) = Inr j" by simp
  from convert_items_keeps [OF this] show ?thesis by (auto dest: emap_length)
qed

theorem json_mapping_keeps_entries_witness:
  "\<exists>j. to_jsonable (demo_lib []) (PMap [(PInt 1, PNone), (S ''1'', PBool True)]) = Inr j \<and>
    (\<exists>es. j = JObj [(U ''entries'', JList es)] \<and> length es = 2)"
proof -
  let ?m = "[(PInt 1, PNone), (S ''1'', PBool True)]"
  have "(case to_jsonable (demo_lib []) (PMap ?m) of Inr (JObj [_]) \<Rightarrow> True | _ \<Rightarrow> False)" by code_simp
  then obtain p where j: "to_jsonable (demo_lib []) (PMap ?m) = Inr (JObj [p])"
    by (auto split: sum.splits json.splits list.splits)
  from json_mapping_keeps_entries [OF j] j show ?thesis by auto
qed


definition demo_hooks :: json_hooks where
  "demo_hooks = \<lparr>hook_pairs = (\<lambda>ms. Inr (PMap (map (\<lambda>(k, v). (PStr k, v)) ms))),
     hook_constant = (\<lambda>w. Inl (ValueError ''constant'')), hook_float = (\<lambda>t. PNone)\<rparr>"

definition demo_value :: pyobj where
  "demo_value = PMap [(S ''a'', PList [PInt (-12), PBool True, PNone, PList []]), (PInt 7, PBytes [1, 254]),
     (PStr [34, 10, 233, 55357], PStr [1, 92, 47])]"


end
