(* ===== verification/Terminal_Safety.thy ===== *)
theory Terminal_Safety
  imports Cli_Diagnostics Cli_Fuzz Display_Safe "HOL-Library.Sublist"
begin

text \<open>
  Whether text of the mdoc can control the terminal.  What \<open>read\<close> prints in text mode cannot: the
  names go through \<open>safe_text\<close>, the values through \<open>format_value\<close>, and the few objects that are
  printed with plain \<open>str\<close> are dates and integers by then, because the disclosure policy has
  looked at them.  \<open>fuzz\<close> prints a response without that policy, and there the validity dates of
  the MSO, which need not be dates, reach the terminal as they are.
\<close>

section \<open>Tame text\<close>

definition tame :: "pystr \<Rightarrow> bool" where
  "tame s \<longleftrightarrow> (\<forall>c\<in>set s. c = 10 \<or> \<not> is_control c)"

lemma tame_simps [simp]:
  "tame []" "tame (c # s) \<longleftrightarrow> (c = 10 \<or> \<not> is_control c) \<and> tame s" "tame (s @ t) \<longleftrightarrow> tame s \<and> tame t"
  by (auto simp: tame_def)

lemma tame_U [simp]: "tame (U s) \<longleftrightarrow> (\<forall>c\<in>set s. of_char c = (10 :: nat) \<or> \<not> is_control (of_char c))"
  by (auto simp: tame_def U_def)

lemma printable_tame: "printable s \<Longrightarrow> tame s"
  by (auto simp: printable_def tame_def is_control_def)

text \<open>A rendering that is tame if it succeeds.\<close>

definition clean :: "printed \<Rightarrow> bool" where
  "clean p \<longleftrightarrow> (\<forall>s. p = Inr s \<longrightarrow> tame s)"

named_theorems clean_intros \<open>renderings without control characters\<close>

lemma clean_Inr [simp]: "clean (Inr s) \<longleftrightarrow> tame s"
  by (simp add: clean_def)

lemma clean_Inl [simp]: "clean (Inl e)"
  by (simp add: clean_def)

lemma clean_lit [simp]: "clean (lit s) \<longleftrightarrow> tame (U s)"
  by (simp add: lit_def)

lemma clean_bind [clean_intros]: "(\<And>x. m = Inr x \<Longrightarrow> clean (f x)) \<Longrightarrow> clean (ebind m f)"
  by (auto simp: clean_def ebind_eq_Inr)

lemma clean_pieces [clean_intros]: "\<forall>p\<in>set ps. clean p \<Longrightarrow> clean (pieces ps)"
  by (induction ps) (auto simp: clean_def ebind_eq_Inr)

lemma clean_line [clean_intros]: "\<forall>p\<in>set ps. clean p \<Longrightarrow> clean (line ps)"
  using clean_pieces [of ps] by (auto simp: line_def clean_def ebind_eq_Inr)

declare pieces.simps [simp del]

lemma clean_for_each [clean_intros]: "(\<And>x. x \<in> set xs \<Longrightarrow> clean (f x)) \<Longrightarrow> clean (for_each f xs)"
  by (auto simp: for_each_def intro!: clean_pieces)

lemma clean_safe_text [simp]: "clean (safe_text L v)"
  by (auto simp: clean_def dest: safe_text_printable printable_tame)

lemma tame_dec_int [simp]: "tame (dec_int i)"
  by (rule printable_tame) simp

lemma tame_hex_nat [simp]: "tame (hex_nat n)"
proof (induction n rule: hex_nat.induct)
  case (1 n)
  have "hex_digit (m mod 16) = 10 \<or> \<not> is_control (hex_digit (m mod 16))" for m
    by (auto simp: hex_digit_def is_control_def)
  moreover have "n < 16 \<Longrightarrow> \<not> is_control (hex_digit n)" by (auto simp: hex_digit_def is_control_def)
  ultimately show ?case using 1 by (subst hex_nat.simps) auto
qed

section \<open>What is assumed of the libraries\<close>

text \<open>
  \<open>repr\<close> escapes what is not printable, and the validity bounds of a loaded certificate are dates.
\<close>

definition is_date :: "pyobj \<Rightarrow> bool" where
  "is_date v \<longleftrightarrow> (\<exists>tz w. v = PDateTime tz w)"

definition library_text_ok :: "lib \<Rightarrow> bool" where
  "library_text_ok L \<longleftrightarrow>
     (\<forall>v. clean (py_repr L v)) \<and>
     (\<forall>der cert. load_certificate L der = Inr cert \<longrightarrow> is_date (cert_not_before cert) \<and> is_date (cert_not_after cert))"

lemma tame_isoformat [simp]: "tame (isoformat v)"
  using isoformat_range [of v] by (auto simp: tame_def is_control_def subset_iff)

lemma tame_dates [simp]: "tame (datetime_text 84 tz w)" "tame (date_text (nat n))"
  using tame_isoformat [of "PDateTime tz w"] tame_isoformat [of "PDate n"] by simp_all

lemma clean_date: "is_date v \<Longrightarrow> clean (atom_str L v)"
  using date_str_range [of v] by (auto simp: is_date_def clean_def tame_def is_control_def subset_iff simp del: date_str.simps)

lemma tame_unicode_escape [simp]: "tame (unicode_escape s)"
  by (rule printable_tame) simp

lemma tame_join: "tame sep \<Longrightarrow> \<forall>s\<in>set ss. tame s \<Longrightarrow> tame (join sep ss)"
  by (induction sep ss rule: join.induct) auto

lemma tame_hex: "tame (bytes_hex bs)"
  by (rule printable_tame) (simp add: bytes_hex_def)

lemma tame_dec_nat [simp]: "tame (dec_nat n)"
  by (auto simp: tame_def is_control_def dest!: dec_nat_digits)

lemma clean_emap: "emap f xs = Inr ss \<Longrightarrow> (\<And>x. x \<in> set xs \<Longrightarrow> clean (f x)) \<Longrightarrow> \<forall>s\<in>set ss. tame s"
  by (metis clean_def emap_memberE)

lemma clean_format_value:
  assumes "library_text_ok L"
  shows "clean (format_value L v)"
  using assms
proof (induction L v rule: format_value.induct)
  case (1 L b)
  then show ?case
    by (auto simp: detect_image_kind_def Let_def is_control_def tame_hex split: option.split if_splits)
next
  case (5 L m)
  show ?case
    unfolding format_value.simps
  proof (rule clean_bind)
    fix ss assume "emap (\<lambda>(k, v). ebind (safe_text L k) (\<lambda>s. ebind (format_value L v) (\<lambda>t. Inr (s @ U '': '' @ t)))) m = Inr ss"
    then have "\<forall>s\<in>set ss. tame s"
    proof (rule clean_emap)
      fix p assume "p \<in> set m"
      then obtain k v where p: "p = (k, v)" "(k, v) \<in> set m" by (metis surj_pair)
      have "clean (ebind (safe_text L k) (\<lambda>s. ebind (format_value L v) (\<lambda>t. Inr (s @ U '': '' @ t))))"
      proof (rule clean_bind)
        fix s assume s: "safe_text L k = Inr s"
        then have "tame s" by (metis clean_def clean_safe_text)
        moreover have "clean (format_value L v)" using 5 p(2) s by blast
        ultimately show "clean (ebind (format_value L v) (\<lambda>t. Inr (s @ U '': '' @ t)))"
          by (auto simp: clean_def ebind_eq_Inr is_control_def)
      qed
      with p(1) show "clean (case p of (k, v) \<Rightarrow> ebind (safe_text L k) (\<lambda>s. ebind (format_value L v) (\<lambda>t. Inr (s @ U '': '' @ t))))"
        by simp
    qed
    then show "clean (Inr (U ''{'' @ join (U '', '') ss @ U ''}''))" by (simp add: is_control_def tame_join)
  qed
next
  case (6 L xs)
  then show ?case using clean_emap [of "format_value L" xs]
    by (fastforce simp: is_control_def intro!: clean_bind tame_join)
next
  case (7 L xs)
  then show ?case using clean_emap [of "format_value L" xs]
    by (fastforce simp: is_control_def intro!: clean_bind tame_join)
next
  case (4 L tag v)
  then show ?case by (auto simp: clean_def ebind_eq_Inr is_control_def)
qed (auto simp: library_text_ok_def big_int_text_def is_control_def)

section \<open>The text of a response\<close>

lemma clean_verdict: "tame (U a) \<Longrightarrow> tame (U b) \<Longrightarrow> clean (verdict v a b)"
  by (auto simp: verdict_def is_control_def split: option.split)

lemma clean_error_code_name: "clean (error_code_name code)"
  by (auto simp: error_code_name_def is_control_def split: option.split)

lemma tame_alg_name: "tame (alg_name a)"
  by (auto simp: alg_name_def COSE_ALG_NAMES_def is_control_def split: option.split if_splits)

lemma clean_pieces_Nil: "clean (pieces [])"
  by (rule clean_pieces) simp

lemma clean_pieces_Cons: "clean p \<Longrightarrow> clean (pieces ps) \<Longrightarrow> clean (pieces (p # ps))"
  by (auto simp: clean_def pieces.simps ebind_eq_Inr)

lemma clean_line_pieces: "clean (pieces ps) \<Longrightarrow> clean (line ps)"
  by (auto simp: line_def clean_def ebind_eq_Inr)

lemmas clean_rules = clean_pieces_Nil clean_pieces_Cons clean_line_pieces clean_for_each clean_verdict

lemma clean_certificate:
  assumes "library_text_ok L" "is_date (ci_not_before c)" "is_date (ci_not_after c)"
  shows "clean (write_certificate L c)"
  using clean_date [OF assms(2)] clean_date [OF assms(3)]
  by (auto simp: write_certificate_def is_control_def intro!: clean_rules)

lemma aware_is_date: "aware_datetime v = Some t \<Longrightarrow> is_date v"
  by (cases v rule: aware_datetime.cases) (auto simp: is_date_def)

lemma clean_mso:
  assumes "library_text_ok L" "valid_at t mso"
  shows "clean (write_mso L mso)"
proof -
  from assms(2) obtain v where v: "mso_validity_info mso = PMap v"
      "is_date (get v (S ''signed''))" "is_date (get v (S ''validFrom''))" "is_date (get v (S ''validUntil''))"
    unfolding valid_at_def using aware_is_date by metis
  with clean_date show ?thesis
    by (auto simp: write_mso_def get_def is_control_def intro!: clean_rules)
qed

text \<open>The certificates of an issuer were read from certificates.\<close>

definition dated :: "issuer_auth_info \<Rightarrow> bool" where
  "dated ia \<longleftrightarrow> (\<exists>a. ia_alg_name ia = alg_name a) \<and>
     (\<forall>c\<in>set (ia_certificates ia). is_date (ci_not_before c) \<and> is_date (ci_not_after c))"

lemma clean_issuer_auth:
  assumes "library_text_ok L" "dated ia" "ia_mso ia = Some mso" "valid_at t mso"
  shows "clean (write_issuer_auth L ia)"
proof -
  have "tame (ia_alg_name ia)" using assms(2) tame_alg_name by (auto simp: dated_def)
  moreover have "\<And>c. c \<in> set (ia_certificates ia) \<Longrightarrow> clean (write_certificate L c)"
    using assms(1,2) clean_certificate by (simp add: dated_def)
  ultimately show ?thesis using assms(3) clean_mso [OF assms(1,4)]
    by (auto simp: write_issuer_auth_def is_control_def intro!: clean_rules)
qed

lemma clean_element: "library_text_ok L \<Longrightarrow> clean (write_element L e)"
  using clean_format_value [of L "pe_value e"]
  by (auto simp: write_element_def is_control_def intro!: clean_rules)

lemma clean_namespace: "library_text_ok L \<Longrightarrow> clean (write_namespace L p)"
  by (cases p) (auto simp: write_namespace_def is_control_def intro!: clean_rules clean_element)

lemma clean_items_of: "(\<And>m. x = PMap m \<Longrightarrow> clean (for_each f m)) \<Longrightarrow> clean (items_of x f)"
  by (cases x) (auto simp: items_of_def)

lemma clean_code: "valid_error_code code \<Longrightarrow> clean (atom_str L code)"
  by (cases code) auto

lemma tame_error_code_name: "error_code_name code = Inr name \<Longrightarrow> tame name"
  using clean_error_code_name by (metis clean_def)

lemma clean_errors: "valid_element_errors errors \<Longrightarrow> clean (write_errors L errors)"
  unfolding write_errors_def
proof (intro clean_items_of clean_for_each, clarify, intro clean_items_of clean_for_each, clarify)
  fix m ns items el code
  assume "valid_element_errors (PMap m)" "(ns, PMap items) \<in> set m" "(el, code) \<in> set items"
  then have "valid_error_code code" by fastforce
  then show "clean (ebind (error_code_name code) (\<lambda>name.
       line [lit ''  error: '', safe_text L ns, lit ''.'', safe_text L el, lit '' -> '', atom_str L code,
         lit '' ('', Inr name, lit '')'']))"
    by (auto simp: is_control_def intro!: clean_bind clean_rules clean_code dest: tame_error_code_name)
qed

lemma clean_document_errors:
  assumes "valid_document_errors errors"
  shows "clean (write_document_errors L errors)"
proof -
  from assms obtain errs where errs: "errors = PList errs" "\<forall>err\<in>set errs. valid_error_items err"
    by (cases errors) auto
  show ?thesis
    unfolding write_document_errors_def errs(1)
  proof (intro clean_bind clean_for_each clean_items_of, clarsimp)
    fix m doc_type code
    assume "PMap m \<in> set errs" "(doc_type, code) \<in> set m"
    with errs(2) have "valid_error_code code" by fastforce
    then show "clean (ebind (error_code_name code) (\<lambda>name.
        line [lit ''document error: '', safe_text L doc_type, lit '' -> '', atom_str L code, lit '' ('', Inr name, lit '')'']))"
      by (auto simp: is_control_def intro!: clean_bind clean_rules clean_code dest: tame_error_code_name)
  qed
qed

lemma clean_document:
  assumes "library_text_ok L" "document_disclosable reqs t d" "\<forall>ia. pd_issuer_auth d = Some ia \<longrightarrow> dated ia"
  shows "clean (write_document L d)"
proof -
  from assms(2) obtain ia mso where ia: "pd_issuer_auth d = Some ia" "ia_mso ia = Some mso" "valid_at t mso"
    and errors: "valid_element_errors (pd_errors d)" and empty: "pd_device_namespaces d = PMap []"
    by (auto simp: document_disclosable_def)
  have "clean (write_issuer_auth L ia)"
    using clean_issuer_auth [OF assms(1)] ia assms(3) by blast
  moreover have "clean (write_device_namespaces L (pd_device_namespaces d))"
    by (simp add: write_device_namespaces_def empty)
  ultimately show ?thesis using ia(1) clean_errors [OF errors] clean_namespace [OF assms(1)]
    by (auto simp: write_document_def is_control_def intro!: clean_rules)
qed

lemma clean_response:
  assumes "library_text_ok L" "disclosable r reqs t"
    and "\<And>d ia. d \<in> set (resp_documents r) \<Longrightarrow> pd_issuer_auth d = Some ia \<Longrightarrow> dated ia"
  shows "clean (write_device_response L r)"
proof -
  have "clean (write_document_errors L (resp_document_errors r))"
    using assms(2) by (simp add: disclosable_def clean_document_errors)
  moreover have "clean (write_document L d)" if "d \<in> set (resp_documents r)" for d
    using clean_document [OF assms(1)] assms(2,3) that unfolding disclosable_def by metis
  ultimately show ?thesis
    by (auto simp: write_device_response_def is_control_def simp del: safe_text.simps intro!: clean_rules)
qed

section \<open>Parsed documents\<close>

lemma certificate_dates:
  "library_text_ok L \<Longrightarrow> certificate_from_der L der = Inr c \<Longrightarrow> is_date (ci_not_before c) \<and> is_date (ci_not_after c)"
  by (auto simp: certificate_from_der_def ebind_inv library_text_ok_def)

lemma issuer_auth_dated:
  assumes "library_text_ok L" "issuer_auth_from_cose_sign1 L c = Inr ia"
  shows "dated ia"
proof -
  from assms(2) obtain ders alg where "emap (certificate_from_der L) ders = Inr (ia_certificates ia)" "ia_alg_name ia = alg_name alg"
    by (auto simp: issuer_auth_from_cose_sign1_def case_four_Inr ebind_inv)
  with certificate_dates [OF assms(1)] show ?thesis
    unfolding dated_def by (meson emap_memberE)
qed

lemma parse_document_dated:
  assumes "library_text_ok L" "parse_document L raw = Inr d" "pd_issuer_auth d = Some ia"
  shows "dated ia"
proof -
  from assms(2) obtain m where "parse_issuer_signed L m = Inr (pd_issuer_auth d, pd_namespaces d)"
    by (auto simp: parse_document_def ebind_inv Let_def)
  then obtain ia' c where "pd_issuer_auth d = Some ia'" "issuer_auth_from_cose_sign1 L c = Inr ia'"
    by (rule parse_issuer_signed_mso)
  with assms(1,3) show ?thesis by (simp add: issuer_auth_dated)
qed

section \<open>Properties\<close>

text \<open>What an event prints, on standard output or standard error.\<close>

fun terminal_text :: "lib \<Rightarrow> (exn \<Rightarrow> pystr) \<Rightarrow> event \<Rightarrow> pystr option" where
  "terminal_text L X (Printed out) = Some out"
| "terminal_text L X (Released out) = Some out"
| "terminal_text L X (Diagnostic d) = (case read_diagnostic L X d of Some (Inr out) \<Rightarrow> Some out | _ \<Rightarrow> None)"
| "terminal_text L X _ = None"

lemma clean_diagnostic:
  assumes "read_diagnostic L X d = Some p" and "expected_diagnostic d" and "\<And>e. is_exchange_failure e \<Longrightarrow> tame (X e)"
  shows "clean p"
  using assms
  by (cases d) (auto simp: safe_exception_def safe_diagnostic_def ENGAGEMENT_NOTE_def is_control_def
      simp del: safe_text.simps intro!: clean_rules)

definition prints_tame :: "event \<Rightarrow> bool" where
  "prints_tame ev \<longleftrightarrow> (\<forall>out. ev = Printed out \<longrightarrow> tame out) \<and> (\<forall>d. ev = Diagnostic d \<longrightarrow> expected_diagnostic d)"

lemma prints_tame_simps [simp]:
  "prints_tame (Printed out) \<longleftrightarrow> tame out" "prints_tame (Diagnostic d) \<longleftrightarrow> expected_diagnostic d" "prints_tame (Dumped x y z)"
  "prints_tame (Exchanged b u m)" "prints_tame (Released out)"
  by (auto simp: prints_tame_def)

lemma tame_replicate [simp]: "tame (replicate n c) \<longleftrightarrow> n = 0 \<or> c = 10 \<or> \<not> is_control c"
  by (auto simp: tame_def)

lemma tame_offered [simp]: "tame (offered u)"
  by (auto simp: offered_def uuid_text_def tame_hex is_control_def split: option.split)

lemma tame_hex_064 [simp]: "tame (hex_064 n)"
  by (simp add: hex_064_def Let_def is_control_def)

lemma clean_engagement: "clean (engagement_text L de)"
  by (auto simp: engagement_text_def is_control_def simp del: safe_text.simps intro!: clean_rules split: prod.split)

lemma engagement_prints_tame: "emits prints_tame (print_engagement L de)"
  using clean_engagement [of L de]
  by (auto simp: print_engagement_def clean_def intro!: emits_bind)

lemma setup_prints_tame: "emits prints_tame (setup_session R args)"
  by (auto simp: setup_session_def intro!: emits_bind emits_dump engagement_prints_tame)

lemma read_prints_tame: "emits prints_tame (run_read R args)"
  unfolding run_read_def
  by (intro emits_bind setup_prints_tame)
    (auto simp: is_control_def intro!: emits_bind emits_prepare emits_transact split: prod.split)

lemma read_releases_tame:
  assumes "library_text_ok (env_lib R)" and "\<not> arg_json args" and "Released out \<in> set (fst (run_read R args))"
  shows "tame out"
proof -
  from assms(3) obtain ss reqs sd where "Released out \<in> set (fst (handle_session_data R args ss reqs sd))"
    by (rule run_read_Released)
  then obtain plaintext r where r: "check_response R ss reqs plaintext = Inr (r, [])" "shown R args r out"
    by (rule handle_session_data_Released)
  have "clean (write_device_response (env_lib R) r)"
  proof (rule clean_response [OF assms(1) check_response_disclosable [OF r(1)]])
    fix d ia assume "d \<in> set (resp_documents r)" "pd_issuer_auth d = Some ia"
    with r(1) show "dated ia" by (auto elim!: check_response_document dest: parse_document_dated [OF assms(1)])
  qed
  with r(2) assms(2) show ?thesis by (simp add: shown_def render_def clean_def)
qed




definition hostile_mso :: mobile_security_object where
  "hostile_mso = \<lparr>mso_version = S ''1.0'', mso_digest_algorithm = S ''SHA-256'', mso_doc_type = S ''mdl'',
     mso_value_digests = [], mso_device_key = PNone,
     mso_validity_info = PMap [(S ''signed'', PStr [27, 91, 50, 74])]\<rparr>"


end
