(* ===== verification/Mdoc_Types.thy ===== *)
theory Mdoc_Types
  imports Mdoc_Sound
begin

text \<open>
  The dataclasses of \<open>mdoc.py\<close> annotate their fields, but the parser checks only some of the
  annotations: the other fields hold whatever CBOR value the mdoc sent.  \<open>parse_typed\<close> is what every
  parsed document satisfies, \<open>annotated\<close> the remaining annotations, which hold once the document has
  also passed \<open>verify_device_auth\<close> and the disclosure policy.
\<close>

section \<open>What parsing establishes\<close>

definition digests_typed :: "dict \<Rightarrow> bool" where
  "digests_typed value_digests \<longleftrightarrow>
     (\<forall>(ns, entries)\<in>set value_digests. is_str ns \<and>
        (\<exists>m. entries = PMap m \<and> (\<forall>(i, h)\<in>set m. is_uint64 i \<and> is_bytes h)))"

definition chain_typed :: "lib \<Rightarrow> issuer_auth_info \<Rightarrow> bool" where
  "chain_typed L ia \<longleftrightarrow>
     list_all2 (\<lambda>der c. certificate_from_der L der = Inr c) (ia_x5chain_der ia) (ia_certificates ia)"

definition element_typed :: "parsed_element \<Rightarrow> bool" where
  "element_typed e \<longleftrightarrow> (\<exists>i. pe_digest_id e = Some i \<and> 0 \<le> i \<and> i < 2 ^ 64)"

definition device_typed :: "lib \<Rightarrow> parsed_document \<Rightarrow> bool" where
  "device_typed L d \<longleftrightarrow>
     (\<exists>device_auth item raw. pd_device_auth_cbor d = PMap device_auth \<and>
        pd_device_auth_type d = first_key device_auth \<and> pd_device_namespaces_raw d = Some raw \<and>
        cbor_dumps L item = Inr raw \<and> unwrap_tagged24 L item = Inr (pd_device_namespaces d))"

definition parse_typed :: "lib \<Rightarrow> parsed_document \<Rightarrow> bool" where
  "parse_typed L d \<longleftrightarrow>
     (\<exists>ia mso. pd_issuer_auth d = Some ia \<and> ia_mso ia = Some mso \<and>
        digests_typed (mso_value_digests mso) \<and> chain_typed L ia) \<and>
     (\<forall>(ns, elements)\<in>set (pd_namespaces d). \<forall>e\<in>set elements. element_typed e) \<and> device_typed L d"

lemma check_digest_entries_Inr:
  "check_digest_entries m = Inr u \<longleftrightarrow> (\<forall>(i, h)\<in>set m. is_uint64 i \<and> is_bytes h)"
  by (induction m rule: check_digest_entries.induct) auto

lemma check_value_digests_Inr: "check_value_digests m = Inr u \<Longrightarrow> digests_typed m"
proof (induction m rule: check_value_digests.induct)
  case (2 ns digests rest)
  then obtain n entries where e: "ns = PStr n" "digests = PMap entries" and c: "check_digest_entries entries = Inr ()"
    and rest: "check_value_digests rest = Inr u"
    by (auto simp: ebind_inv split: pyobj.splits)
  with "2.IH" [OF refl e c rest] show ?case by (simp add: digests_typed_def check_digest_entries_Inr)
qed (simp add: digests_typed_def)

lemma mso_from_cbor_typed: "mso_from_cbor x = Inr mso \<Longrightarrow> digests_typed (mso_value_digests mso)"
  by (cases x) (auto simp: ebind_inv dest!: check_value_digests_Inr)

lemma issuer_auth_typed:
  assumes "issuer_auth_from_cose_sign1 L c = Inr ia"
  shows "chain_typed L ia \<and> (\<forall>mso. ia_mso ia = Some mso \<longrightarrow> digests_typed (mso_value_digests mso))"
proof -
  from assms obtain pb un payload sig
    where "seq_items c = Some [PBytes pb, PMap un, PBytes payload, PBytes sig]"
    by (auto simp: issuer_auth_from_cose_sign1_def case_four_Inr ebind_inv)
  with assms have "emap (certificate_from_der L) (ia_x5chain_der ia) = Inr (ia_certificates ia)"
    and "issuer_mso L payload = Inr (ia_mso ia)"
    by (auto simp: issuer_auth_from_cose_sign1_def ebind_inv)
  then show ?thesis
    by (auto simp: chain_typed_def emap_eq_Inr issuer_mso_def ebind_inv split: if_splits dest: mso_from_cbor_typed)
qed

lemma well_parsed_elements_typed:
  assumes "well_parsed L d" and "(ns, elements) \<in> set (pd_namespaces d)" and "e \<in> set elements"
  shows "element_typed e"
proof -
  from assms(1) obtain mso source where "list_all2 (namespace_read_from L mso) source (pd_namespaces d)"
    unfolding well_parsed_def by blast
  with assms(2) obtain p where "namespace_read_from L mso p (ns, elements)"
    by (metis list_all2_conv_all_nth in_set_conv_nth)
  then obtain items digests where "list_all2 (read_from L mso digests) items elements"
    unfolding namespace_read_from_def by (metis snd_conv)
  with assms(3) obtain item where "read_from L mso digests item e"
    by (auto simp: list_all2_conv_all_nth in_set_conv_nth)
  then show ?thesis unfolding read_from_def element_typed_def by blast
qed

lemma parse_document_device_typed: "parse_document L doc = Inr d \<Longrightarrow> device_typed L d"
  unfolding device_typed_def
  by (auto simp: parse_document_def ebind_inv Let_def simp del: unwrap_tagged24.simps)

lemma parse_document_typed:
  assumes "parse_document L doc = Inr d"
  shows "parse_typed L d"
proof -
  from assms obtain m where "parse_issuer_signed L m = Inr (pd_issuer_auth d, pd_namespaces d)"
    by (auto simp: parse_document_def ebind_inv Let_def)
  then obtain ia mso where "pd_issuer_auth d = Some ia" "ia_mso ia = Some mso"
    "issuer_auth_from_cose_sign1 L (get m (S ''issuerAuth'')) = Inr ia"
    by (rule parse_issuer_signed_mso)
  with issuer_auth_typed parse_document_device_typed [OF assms] parse_document_well_parsed [OF assms] show ?thesis
    unfolding parse_typed_def using well_parsed_elements_typed by blast
qed

section \<open>What verification adds\<close>

text \<open>
  The annotations the parser leaves unchecked: texts and maps of the MSO, the device namespaces, the
  DeviceAuth type and the element errors.
\<close>

definition mso_annotated :: "mobile_security_object \<Rightarrow> bool" where
  "mso_annotated mso \<longleftrightarrow> is_str (mso_version mso) \<and> is_str (mso_doc_type mso) \<and>
     is_mapping (mso_device_key mso) \<and> is_mapping (mso_validity_info mso)"

definition annotated :: "parsed_document \<Rightarrow> bool" where
  "annotated d \<longleftrightarrow>
     (\<exists>mso. document_mso (pd_issuer_auth d) = Some mso \<and> mso_annotated mso \<and>
        ((\<exists>(ns, elements)\<in>set (pd_namespaces d). elements \<noteq> []) \<longrightarrow> is_str (mso_digest_algorithm mso))) \<and>
     is_mapping (pd_device_namespaces d) \<and> is_mapping (pd_errors d) \<and>
     pd_device_auth_type d \<in> {S ''deviceSignature'', S ''deviceMac''} \<and> pd_device_auth_valid d = Some True"

lemma cose_key_mapping: "cose_key_to_public_key L k = Inr key \<Longrightarrow> is_mapping k"
  by (auto simp: cose_key_to_public_key_def ebind_inv is_mapping_iff)

lemma authenticated_types:
  assumes "authenticated_by_device L d st priv"
  shows "pd_device_auth_type d \<in> {S ''deviceSignature'', S ''deviceMac''} \<and>
    (\<exists>mso. document_mso (pd_issuer_auth d) = Some mso \<and> is_mapping (mso_device_key mso))"
  using assms cose_key_mapping unfolding authenticated_by_device_def by blast

lemma genuine_digest_algorithm:
  assumes "genuine L st priv d" and "(ns, elements) \<in> set (pd_namespaces d)" and "elements \<noteq> []"
    and "document_mso (pd_issuer_auth d) = Some mso"
  shows "is_str (mso_digest_algorithm mso)"
proof -
  from assms(3) obtain e where "e \<in> set elements" by (cases elements) auto
  with assms(1,2,4) have "element_backed L mso ns e"
    unfolding genuine_def document_mso_def by fastforce
  then show ?thesis unfolding element_backed_def digest_matches_def by auto
qed

lemma valid_at_mapping: "valid_at t mso \<Longrightarrow> is_mapping (mso_validity_info mso)"
  by (auto simp: valid_at_def)

lemma genuine_disclosable_annotated:
  assumes "genuine L st priv d" and "authenticated_by_device L d st priv" and "document_disclosable doc_requests t d"
  shows "annotated d"
proof -
  from assms(3) obtain mso where mso: "document_mso (pd_issuer_auth d) = Some mso"
      "mso_version mso = S ''1.0''" "mso_doc_type mso = PStr (pd_doc_type d)" "valid_at t mso"
    and d: "pd_device_namespaces d = PMap []" "valid_element_errors (pd_errors d)" "pd_device_auth_valid d = Some True"
    unfolding document_disclosable_def document_mso_def by fastforce
  from mso authenticated_types [OF assms(2)] valid_at_mapping have "mso_annotated mso"
    by (auto simp: mso_annotated_def)
  moreover have "is_mapping (pd_errors d)" using d(2) by (cases "pd_errors d") auto
  ultimately show ?thesis
    using mso(1) d(1,3) authenticated_types [OF assms(2)] genuine_digest_algorithm [OF assms(1) _ _ mso(1)]
    unfolding annotated_def by auto
qed



end
