(* ===== verification/Ble_Peripheral.thy ===== *)
theory Ble_Peripheral
  imports Ble_Framing
begin

text \<open>
  The GATT peripheral role of \<open>ble_peripheral.py\<close>: the service table the reader offers, the
  single write callback that dispatches on the characteristic, and \<open>exchange\<close> as a step
  relation in which the mdoc's writes arrive at any time while the server runs.  The state keeps the
  calls made to the \<open>bless\<close> server, so the order of configuring, starting, pushing and stopping is
  part of the invariant.
\<close>

section \<open>The reader service (Table 6)\<close>

definition READER_STATE_UUID :: string where "READER_STATE_UUID = ''00000005-a123-48ce-896b-4c76973373e6''"
definition READER_CLIENT2SERVER_UUID :: string where "READER_CLIENT2SERVER_UUID = ''00000006-a123-48ce-896b-4c76973373e6''"
definition READER_SERVER2CLIENT_UUID :: string where "READER_SERVER2CLIENT_UUID = ''00000007-a123-48ce-896b-4c76973373e6''"
definition IDENT_UUID :: string where "IDENT_UUID = ''00000008-a123-48ce-896b-4c76973373e6''"
definition CCCD_UUID :: string where "CCCD_UUID = ''00002902-0000-1000-8000-00805f9b34fb''"

definition PERIPHERAL_CHUNK_SIZE :: int where "PERIPHERAL_CHUNK_SIZE = MIN_CHUNK_SIZE"

datatype property = PropRead | PropNotify | PropWrite | PropWriteWithoutResponse
datatype permission = Readable | Writeable

record characteristic =
  char_uuid :: string
  char_properties :: "property set"
  char_value :: "bytes option"
  char_permissions :: "permission set"

record descriptor =
  desc_characteristic :: string
  desc_uuid :: string
  desc_properties :: "property set"
  desc_value :: bytes
  desc_permissions :: "permission set"

text \<open>The characteristics and descriptors \<open>exchange\<close> registers, in order; \<open>ident\<close> is \<open>compute_ident\<close> of the EDeviceKeyBytes.\<close>

definition reader_characteristics :: "bytes \<Rightarrow> characteristic list" where
  "reader_characteristics ident =
    [\<lparr>char_uuid = IDENT_UUID, char_properties = {PropRead}, char_value = Some ident, char_permissions = {Readable}\<rparr>,
     \<lparr>char_uuid = READER_STATE_UUID, char_properties = {PropNotify, PropWriteWithoutResponse},
       char_value = None, char_permissions = {Writeable}\<rparr>,
     \<lparr>char_uuid = READER_CLIENT2SERVER_UUID, char_properties = {PropWriteWithoutResponse},
       char_value = None, char_permissions = {Writeable}\<rparr>,
     \<lparr>char_uuid = READER_SERVER2CLIENT_UUID, char_properties = {PropNotify}, char_value = None,
       char_permissions = {Readable}\<rparr>]"

definition reader_descriptors :: "descriptor list" where
  "reader_descriptors =
    [\<lparr>desc_characteristic = READER_STATE_UUID, desc_uuid = CCCD_UUID, desc_properties = {PropRead, PropWrite},
       desc_value = [0, 0], desc_permissions = {Readable, Writeable}\<rparr>,
     \<lparr>desc_characteristic = READER_SERVER2CLIENT_UUID, desc_uuid = CCCD_UUID, desc_properties = {PropRead, PropWrite},
       desc_value = [0, 0], desc_permissions = {Readable, Writeable}\<rparr>]"

text \<open>
  The calls to the \<open>bless\<close> server that \<open>exchange\<close> makes, and those of its configuring phase in order.
  \<open>UpdateValue\<close> carries the value the characteristic has at that moment: what the mdoc is notified of.
\<close>

datatype server_call =
    AddService pystr
  | AddCharacteristic pystr characteristic
  | AddDescriptor pystr descriptor
  | StartServer
  | UpdateValue pystr string bytes
  | StopServer

definition setup_calls :: "pystr \<Rightarrow> bytes \<Rightarrow> server_call list" where
  "setup_calls service_uuid ident =
     AddService service_uuid # map (AddCharacteristic service_uuid) (reader_characteristics ident) @
     map (AddDescriptor service_uuid) reader_descriptors"

definition update_calls :: "pystr \<Rightarrow> bytes list \<Rightarrow> server_call list" where
  "update_calls service_uuid chunks = map (UpdateValue service_uuid READER_SERVER2CLIENT_UUID) chunks"

lemma notify_characteristics_have_cccd:
  "AddCharacteristic service_uuid c \<in> set (setup_calls service_uuid ident) \<Longrightarrow> PropNotify \<in> char_properties c \<Longrightarrow>
    \<exists>d. AddDescriptor service_uuid d \<in> set (setup_calls service_uuid ident) \<and>
      desc_characteristic d = char_uuid c \<and> desc_uuid d = CCCD_UUID \<and>
      {PropRead, PropWrite} \<subseteq> desc_properties d \<and> {Readable, Writeable} \<subseteq> desc_permissions d"
  by (fastforce simp: setup_calls_def reader_characteristics_def reader_descriptors_def)

lemma no_start_in_setup [simp]:
  "StartServer \<notin> set (setup_calls u ident)" "StopServer \<notin> set (setup_calls u ident)"
  "StartServer \<notin> set (update_calls u chunks)" "StopServer \<notin> set (update_calls u chunks)"
  by (auto simp: setup_calls_def update_calls_def)

lemma setup_calls_service: "AddCharacteristic u' c \<in> set (setup_calls u ident) \<Longrightarrow> u' = u"
  by (auto simp: setup_calls_def)

section \<open>State and callbacks\<close>

datatype server_phase =
    Importing
  | Configuring "server_call list"
  | Advertising
  | Responding
  | Stopping "exn + bytes"
  | Stopped "exn + exchange_result"

text \<open>\<open>server_calls\<close> are the calls that have returned, and \<open>server.stop()\<close> also when it raises.\<close>

record peripheral =
  server_phase :: server_phase
  char_values :: "string \<Rightarrow> bytes option"
  start_future :: "unit future"
  reply_future :: "bytes future"
  reply_reassembler :: reassembler
  mdoc_writes :: "(string \<times> bytes) list"
  server_calls :: "server_call list"

definition peripheral_init :: peripheral where
  "peripheral_init = \<lparr>server_phase = Importing, char_values = (\<lambda>_. None),
     start_future = Pending, reply_future = Pending, reply_reassembler = Reassembler,
     mdoc_writes = [], server_calls = []\<rparr>"

fun notified :: "server_call \<Rightarrow> bytes list" where
  "notified (UpdateValue service_uuid uuid v) = [v]"
| "notified _ = []"

definition notifications :: "peripheral \<Rightarrow> bytes list" where
  "notifications p = concat (map notified (server_calls p))"

text \<open>A characteristic starts with the value it is registered with.\<close>

fun call_server :: "server_call \<Rightarrow> peripheral \<Rightarrow> peripheral" where
  "call_server (AddCharacteristic service_uuid c) p =
     p\<lparr>server_calls := server_calls p @ [AddCharacteristic service_uuid c],
       char_values := (char_values p)(char_uuid c := char_value c)\<rparr>"
| "call_server c p = p\<lparr>server_calls := server_calls p @ [c]\<rparr>"

text \<open>The loop that pushes the chunks: \<open>server2client.value = bytearray(chunk)\<close>, then \<open>update_value\<close>.\<close>

definition set_server2client :: "bytes \<Rightarrow> peripheral \<Rightarrow> peripheral" where
  "set_server2client chunk p = p\<lparr>char_values := (char_values p)(READER_SERVER2CLIENT_UUID := Some chunk)\<rparr>"

fun push_chunks :: "pystr \<Rightarrow> bytes list \<Rightarrow> peripheral \<Rightarrow> peripheral" where
  "push_chunks service_uuid [] p = p"
| "push_chunks service_uuid (chunk # chunks) p =
     push_chunks service_uuid chunks
       (call_server (UpdateValue service_uuid READER_SERVER2CLIENT_UUID chunk) (set_server2client chunk p))"

definition on_read :: "peripheral \<Rightarrow> string \<Rightarrow> bytes option" where
  "on_read p uuid = char_values p uuid"

definition on_write :: "peripheral \<Rightarrow> string \<Rightarrow> bytes \<Rightarrow> peripheral" where
  "on_write p uuid value =
     (let p = p\<lparr>char_values := (char_values p)(uuid := Some value)\<rparr> in
      if uuid = READER_STATE_UUID then
        (if value = STATE_START then p\<lparr>start_future := resolve (start_future p) (Some ())\<rparr> else p)
      else if uuid = READER_CLIENT2SERVER_UUID then
        (case feed (reply_reassembler p) value of
           Inl e \<Rightarrow> p
         | Inr (message, r) \<Rightarrow>
             p\<lparr>reply_reassembler := r, reply_future := resolve (reply_future p) message\<rparr>)
      else p)"

fun serving :: "server_phase \<Rightarrow> bool" where
  "serving Importing = False"
| "serving (Configuring _) = False"
| "serving (Stopped _) = False"
| "serving _ = True"

section \<open>exchange\<close>

text \<open>\<open>_require_bless\<close>.\<close>

definition require_bless :: "bool \<Rightarrow> exn + unit" where
  "require_bless installed = (if installed then Inr () else Inl (ImportError (
     ''mdoc central client mode requires the 'peripheral' extra: '' @
     ''pip install 'siros-verifier-cli[peripheral]' (Linux/BlueZ is the tested backend)'')))"

text \<open>
  The chunks are pushed by a loop without an await, so no write of the mdoc comes between
  them: \<open>started\<close> is one step.  The loop fails before its first push in \<open>lookup_fails\<close>, and in the
  call of \<open>update_value\<close> for the \<open>k\<close>th chunk in \<open>push_fails\<close>.
  \<open>server.stop()\<close> is in a \<open>finally\<close> that covers everything after \<open>server.start()\<close>.
\<close>

inductive serve_step :: "pystr \<Rightarrow> bytes \<Rightarrow> bytes \<Rightarrow> peripheral \<Rightarrow> peripheral \<Rightarrow> bool"
  for service_uuid :: pystr and ident :: bytes and se :: bytes
where
  bless_missing: "server_phase p = Importing \<Longrightarrow> require_bless False = Inl e \<Longrightarrow>
    serve_step service_uuid ident se p (p\<lparr>server_phase := Stopped (Inl e)\<rparr>)"
| bless_imported: "server_phase p = Importing \<Longrightarrow> require_bless True = Inr () \<Longrightarrow>
    serve_step service_uuid ident se p (p\<lparr>server_phase := Configuring (setup_calls service_uuid ident)\<rparr>)"
| configure: "server_phase p = Configuring (c # calls) \<Longrightarrow>
    serve_step service_uuid ident se p ((call_server c p)\<lparr>server_phase := Configuring calls\<rparr>)"
| setup_fails: "server_phase p = Configuring calls \<Longrightarrow>
    serve_step service_uuid ident se p (p\<lparr>server_phase := Stopped (Inl e)\<rparr>)"
| server_start: "server_phase p = Configuring [] \<Longrightarrow>
    serve_step service_uuid ident se p ((call_server StartServer p)\<lparr>server_phase := Advertising\<rparr>)"
| write_request: "serving (server_phase p) \<Longrightarrow>
    serve_step service_uuid ident se p ((on_write p uuid value)\<lparr>mdoc_writes := mdoc_writes p @ [(uuid, value)]\<rparr>)"
| started: "server_phase p = Advertising \<Longrightarrow> start_future p = Resolved () \<Longrightarrow>
    chunk_message se PERIPHERAL_CHUNK_SIZE = Inr chunks \<Longrightarrow>
    serve_step service_uuid ident se p ((push_chunks service_uuid chunks p)\<lparr>server_phase := Responding\<rparr>)"
| lookup_fails: "server_phase p = Advertising \<Longrightarrow> start_future p = Resolved () \<Longrightarrow>
    serve_step service_uuid ident se p (p\<lparr>server_phase := Stopping (Inl e)\<rparr>)"
| push_fails: "server_phase p = Advertising \<Longrightarrow> start_future p = Resolved () \<Longrightarrow>
    chunk_message se PERIPHERAL_CHUNK_SIZE = Inr chunks \<Longrightarrow> k < length chunks \<Longrightarrow>
    serve_step service_uuid ident se p
      ((set_server2client (chunks ! k) (push_chunks service_uuid (take k chunks) p))\<lparr>server_phase := Stopping (Inl e)\<rparr>)"
| start_timeout: "server_phase p = Advertising \<Longrightarrow> start_future p = Pending \<Longrightarrow>
    serve_step service_uuid ident se p
      (p\<lparr>server_phase := Stopping (Inl DeviceNotFoundError), start_future := Cancelled\<rparr>)"
| reply: "server_phase p = Responding \<Longrightarrow> reply_future p = Resolved m \<Longrightarrow>
    serve_step service_uuid ident se p (p\<lparr>server_phase := Stopping (Inr m)\<rparr>)"
| reply_timeout: "server_phase p = Responding \<Longrightarrow> reply_future p = Pending \<Longrightarrow>
    serve_step service_uuid ident se p
      (p\<lparr>server_phase := Stopping (Inl TimeoutError), reply_future := Cancelled\<rparr>)"
| server_stop: "server_phase p = Stopping r \<Longrightarrow>
    serve_step service_uuid ident se p ((call_server StopServer p)\<lparr>server_phase := Stopped
      (ebind r (\<lambda>m. Inr \<lparr>session_data_bytes = m, negotiated_mtu = PERIPHERAL_CHUNK_SIZE + 3,
         chunk_size = PERIPHERAL_CHUNK_SIZE,
         device_address = ''(not exposed by bless in peripheral mode)''\<rparr>))\<rparr>)"
| server_stop_fails: "server_phase p = Stopping r \<Longrightarrow>
    serve_step service_uuid ident se p ((call_server StopServer p)\<lparr>server_phase := Stopped (Inl e)\<rparr>)"

inductive serve_run :: "pystr \<Rightarrow> bytes \<Rightarrow> bytes \<Rightarrow> peripheral \<Rightarrow> bool"
  for service_uuid :: pystr and ident :: bytes and se :: bytes
where
  init: "serve_run service_uuid ident se peripheral_init"
| step: "serve_run service_uuid ident se p \<Longrightarrow> serve_step service_uuid ident se p p' \<Longrightarrow>
    serve_run service_uuid ident se p'"

inductive_cases serve_stepE: "serve_step service_uuid ident se p p'"

lemma serve_stopped_final: "server_phase p = Stopped r \<Longrightarrow> \<not> serve_step service_uuid ident se p p'"
  by (auto elim!: serve_stepE)

lemma server_call_frame [simp]:
  "server_calls (call_server c p) = server_calls p @ [c]"
  "start_future (call_server c p) = start_future p" "reply_future (call_server c p) = reply_future p"
  "reply_reassembler (call_server c p) = reply_reassembler p" "mdoc_writes (call_server c p) = mdoc_writes p"
  by (cases c; simp)+

lemma set_server2client_frame [simp]:
  "server_calls (set_server2client v p) = server_calls p" "start_future (set_server2client v p) = start_future p"
  "reply_future (set_server2client v p) = reply_future p"
  "reply_reassembler (set_server2client v p) = reply_reassembler p"
  "mdoc_writes (set_server2client v p) = mdoc_writes p"
  by (simp_all add: set_server2client_def)

lemma push_chunks_frame [simp]:
  "server_calls (push_chunks u chunks p) = server_calls p @ update_calls u chunks"
  "start_future (push_chunks u chunks p) = start_future p"
  "reply_future (push_chunks u chunks p) = reply_future p"
  "reply_reassembler (push_chunks u chunks p) = reply_reassembler p"
  "mdoc_writes (push_chunks u chunks p) = mdoc_writes p"
  by (induction chunks arbitrary: p) (simp_all add: update_calls_def)

section \<open>The write callback is a collector on Client2Server\<close>

definition on_reply_chunk :: "peripheral \<Rightarrow> bytes \<Rightarrow> peripheral" where
  "on_reply_chunk p value = on_write p READER_CLIENT2SERVER_UUID value"

lemma reader_uuids_distinct [simp]:
  "READER_CLIENT2SERVER_UUID \<noteq> READER_STATE_UUID" "READER_STATE_UUID \<noteq> READER_CLIENT2SERVER_UUID"
  by (simp_all add: READER_CLIENT2SERVER_UUID_def READER_STATE_UUID_def)

lemma on_reply_chunk_collector:
  "1 < sz \<Longrightarrow> gatt_collector (\<lambda>m. chunk_message m sz) on_reply_chunk reply_reassembler reply_future"
  by (auto intro!: gatt_collector.intro collector.intro chunk_message_framing
    simp: collector_axioms_def on_reply_chunk_def on_write_def Let_def)

interpretation peripheral_collector: gatt_collector "\<lambda>m. chunk_message m MIN_CHUNK_SIZE"
  on_reply_chunk reply_reassembler reply_future
  by (rule on_reply_chunk_collector) simp

definition reply_chunks :: "(string \<times> bytes) list \<Rightarrow> bytes list" where
  "reply_chunks w = map snd (filter (\<lambda>(uuid, _). uuid = READER_CLIENT2SERVER_UUID) w)"

lemma reply_chunks_snoc [frame_simps]:
  "reply_chunks [] = []"
  "reply_chunks (w @ [(uuid, d)]) = (if uuid = READER_CLIENT2SERVER_UUID then reply_chunks w @ [d] else reply_chunks w)"
  by (simp_all add: reply_chunks_def)

lemma on_write_frame [simp]:
  "server_phase (on_write p u v) = server_phase p" "mdoc_writes (on_write p u v) = mdoc_writes p"
  "server_calls (on_write p u v) = server_calls p"
  by (simp_all add: on_write_def Let_def split: sum.split prod.split)

lemma on_write_other:
  "u \<noteq> READER_CLIENT2SERVER_UUID \<Longrightarrow>
    reply_future (on_write p u v) = reply_future p \<and> reply_reassembler (on_write p u v) = reply_reassembler p"
  by (simp add: on_write_def Let_def)

lemma on_write_value: "char_values (on_write p u v) = (char_values p)(u := Some v)"
  by (simp add: on_write_def Let_def split: sum.split prod.split)

lemma on_write_start:
  "start_future (on_write p u v) = Resolved () \<Longrightarrow>
    start_future p = Resolved () \<or> (u = READER_STATE_UUID \<and> v = STATE_START)"
  by (auto simp: on_write_def Let_def split: sum.splits prod.splits if_splits)

lemma on_reply_chunk_local:
  "reply_future p = reply_future q \<Longrightarrow> reply_reassembler p = reply_reassembler q \<Longrightarrow>
    reply_future (on_reply_chunk p x) = reply_future (on_reply_chunk q x) \<and>
    reply_reassembler (on_reply_chunk p x) = reply_reassembler (on_reply_chunk q x)"
  by (simp add: on_reply_chunk_def on_write_def Let_def split: sum.split prod.split)

section \<open>Invariant\<close>

definition reply_ok :: "peripheral \<Rightarrow> bool" where
  "reply_ok p \<longleftrightarrow>
     (reply_future p \<noteq> Cancelled \<longrightarrow>
        reply_future p = reply_future (foldl on_reply_chunk (peripheral_init) (reply_chunks (mdoc_writes p))) \<and>
        reply_reassembler p = reply_reassembler (foldl on_reply_chunk (peripheral_init) (reply_chunks (mdoc_writes p))))"

definition start_ok :: "peripheral \<Rightarrow> bool" where
  "start_ok p \<longleftrightarrow> (start_future p = Resolved () \<longrightarrow> (READER_STATE_UUID, STATE_START) \<in> set (mdoc_writes p))"

text \<open>What the mdoc reads before it has written anything there: the registered value.\<close>

definition registered_ok :: "pystr \<Rightarrow> peripheral \<Rightarrow> bool" where
  "registered_ok u p \<longleftrightarrow>
     (\<forall>c. AddCharacteristic u c \<in> set (server_calls p) \<longrightarrow> char_uuid c \<noteq> READER_SERVER2CLIENT_UUID \<longrightarrow>
        char_uuid c \<notin> fst ` set (mdoc_writes p) \<longrightarrow> char_values p (char_uuid c) = char_value c)"

text \<open>The calls of a server that has started, and of one that has pushed the whole message.\<close>

definition started_calls :: "pystr \<Rightarrow> bytes \<Rightarrow> bytes \<Rightarrow> server_call list \<Rightarrow> bool" where
  "started_calls u ident se calls \<longleftrightarrow>
     (\<exists>k. \<forall>chunks. chunk_message se PERIPHERAL_CHUNK_SIZE = Inr chunks \<longrightarrow>
        calls = setup_calls u ident @ StartServer # update_calls u (take k chunks))"

definition pushed :: "pystr \<Rightarrow> bytes \<Rightarrow> bytes \<Rightarrow> peripheral \<Rightarrow> server_call list \<Rightarrow> bool" where
  "pushed u ident se p calls \<longleftrightarrow> start_future p = Resolved () \<and>
     (\<forall>chunks. chunk_message se PERIPHERAL_CHUNK_SIZE = Inr chunks \<longrightarrow>
        calls = setup_calls u ident @ StartServer # update_calls u chunks)"

fun serve_phase_ok :: "pystr \<Rightarrow> bytes \<Rightarrow> bytes \<Rightarrow> peripheral \<Rightarrow> server_phase \<Rightarrow> bool" where
  "serve_phase_ok u ident se p Importing \<longleftrightarrow> server_calls p = []"
| "serve_phase_ok u ident se p (Configuring calls) \<longleftrightarrow> server_calls p @ calls = setup_calls u ident"
| "serve_phase_ok u ident se p Advertising \<longleftrightarrow> server_calls p = setup_calls u ident @ [StartServer]"
| "serve_phase_ok u ident se p Responding \<longleftrightarrow> pushed u ident se p (server_calls p)"
| "serve_phase_ok u ident se p (Stopping r) \<longleftrightarrow> started_calls u ident se (server_calls p) \<and>
     (\<forall>m. r = Inr m \<longrightarrow> pushed u ident se p (server_calls p) \<and> reply_future p = Resolved m)"
| "serve_phase_ok u ident se p (Stopped r) \<longleftrightarrow>
     (\<exists>rest. isl r \<and> server_calls p @ rest = setup_calls u ident) \<or>
     (\<exists>calls. server_calls p = calls @ [StopServer] \<and> started_calls u ident se calls \<and>
        (\<forall>x. r = Inr x \<longrightarrow> pushed u ident se p calls \<and> reply_future p = Resolved (session_data_bytes x)))"

definition serve_inv :: "pystr \<Rightarrow> bytes \<Rightarrow> bytes \<Rightarrow> peripheral \<Rightarrow> bool" where
  "serve_inv u ident se p \<longleftrightarrow>
     reply_ok p \<and> start_ok p \<and> registered_ok u p \<and> serve_phase_ok u ident se p (server_phase p)"

lemma serve_inv_init: "serve_inv u ident se peripheral_init"
  by (simp add: serve_inv_def reply_ok_def start_ok_def registered_ok_def peripheral_init_def frame_simps)

lemma reader_chunks: "\<exists>chunks. chunk_message se PERIPHERAL_CHUNK_SIZE = Inr chunks"
  by (simp add: chunk_message_def PERIPHERAL_CHUNK_SIZE_def MIN_CHUNK_SIZE_def Let_def)

text \<open>Pushing everything is pushing some of it.\<close>

lemma started_callsI:
  "chunk_message se PERIPHERAL_CHUNK_SIZE = Inr chunks \<Longrightarrow>
    started_calls u ident se (setup_calls u ident @ StartServer # update_calls u (take k chunks))"
  "started_calls u ident se (setup_calls u ident @ [StartServer])"
  "pushed u ident se p calls \<Longrightarrow> started_calls u ident se calls"
proof -
  assume "chunk_message se PERIPHERAL_CHUNK_SIZE = Inr chunks"
  then show "started_calls u ident se (setup_calls u ident @ StartServer # update_calls u (take k chunks))"
    by (auto simp: started_calls_def)
next
  show "started_calls u ident se (setup_calls u ident @ [StartServer])"
    by (auto simp: started_calls_def update_calls_def intro: exI [of _ 0])
next
  assume "pushed u ident se p calls"
  then show "started_calls u ident se calls"
    using reader_chunks [of se] by (auto simp: started_calls_def pushed_def intro: exI [of _ "length (projr (chunk_message se PERIPHERAL_CHUNK_SIZE))"])
qed

lemma reader_characteristics_by_uuid:
  "c \<in> set (reader_characteristics ident) \<Longrightarrow> c' \<in> set (reader_characteristics ident) \<Longrightarrow>
    char_uuid c = char_uuid c' \<Longrightarrow> c = c'"
  by (auto simp: reader_characteristics_def IDENT_UUID_def READER_STATE_UUID_def READER_CLIENT2SERVER_UUID_def
    READER_SERVER2CLIENT_UUID_def)

lemma setup_characteristic:
  "AddCharacteristic u c \<in> set (setup_calls u ident) \<Longrightarrow> c \<in> set (reader_characteristics ident)"
  by (auto simp: setup_calls_def)

lemma registered_ok_same:
  "registered_ok u p \<Longrightarrow> server_calls q = server_calls p \<or> (\<exists>c. server_calls q = server_calls p @ [c] \<and> (\<forall>u' x. c \<noteq> AddCharacteristic u' x)) \<Longrightarrow>
    char_values q = char_values p \<Longrightarrow> mdoc_writes q = mdoc_writes p \<Longrightarrow> registered_ok u q"
  by (auto simp: registered_ok_def)

lemma registered_ok_write:
  "registered_ok u p \<Longrightarrow> registered_ok u ((on_write p uuid v)\<lparr>mdoc_writes := mdoc_writes p @ [(uuid, v)]\<rparr>)"
  by (auto simp: registered_ok_def on_write_value)

lemma registered_ok_configure:
  assumes "registered_ok u p" "server_calls p @ c # calls = setup_calls u ident"
  shows "registered_ok u (call_server c p)"
proof -
  have old: "x \<in> set (reader_characteristics ident)"
    if "AddCharacteristic u x \<in> set (server_calls p) \<or> c = AddCharacteristic u x" for x
    using that assms(2) by (intro setup_characteristic [of u]) (auto simp flip: assms(2))
  show ?thesis
  proof (cases c)
    case (AddCharacteristic u' x)
    then have "u' = u"
      using assms(2) by (metis (no_types, lifting) in_set_conv_decomp setup_calls_service)
    have "y = x" if "AddCharacteristic u y \<in> set (server_calls p)" "char_uuid y = char_uuid x" for y
      using that old [of y] old [of x] AddCharacteristic \<open>u' = u\<close> by (auto intro: reader_characteristics_by_uuid)
    with assms(1) AddCharacteristic \<open>u' = u\<close> show ?thesis by (auto simp: registered_ok_def)
  qed (use assms(1) in \<open>auto simp: registered_ok_def\<close>)
qed

lemma registered_ok_push:
  "registered_ok u p \<Longrightarrow> registered_ok u (push_chunks u chunks p)"
  "registered_ok u p \<Longrightarrow> registered_ok u (set_server2client v p)"
proof -
  have set: "registered_ok u (set_server2client v p)" if "registered_ok u p" for v p
    using that by (auto simp: registered_ok_def set_server2client_def)
  then show "registered_ok u p \<Longrightarrow> registered_ok u (set_server2client v p)" .
  show "registered_ok u p \<Longrightarrow> registered_ok u (push_chunks u chunks p)"
  proof (induction chunks arbitrary: p)
    case (Cons chunk chunks)
    have "registered_ok u (call_server (UpdateValue u READER_SERVER2CLIENT_UUID chunk) (set_server2client chunk p))"
      using set [OF Cons.prems, of chunk] by (simp add: registered_ok_def)
    then show ?case by (simp add: Cons.IH)
  qed simp
qed

lemma reply_ok_write: "reply_ok p \<Longrightarrow> reply_ok ((on_write p u v)\<lparr>mdoc_writes := mdoc_writes p @ [(u, v)]\<rparr>)"
proof (cases "u = READER_CLIENT2SERVER_UUID")
  case False
  assume "reply_ok p"
  with False show ?thesis by (simp add: reply_ok_def frame_simps on_write_other)
next
  case True
  assume ok: "reply_ok p"
  show ?thesis
  proof (cases "reply_future p = Cancelled")
    case c: True
    then have "reply_future (on_write p u v) = Cancelled"
      using peripheral_collector.deliver_done [of p v] True by (simp add: on_reply_chunk_def)
    then show ?thesis by (simp add: reply_ok_def)
  next
    case False
    with ok True show ?thesis
      using on_reply_chunk_local [of p "foldl on_reply_chunk peripheral_init (reply_chunks (mdoc_writes p))" v]
      by (simp add: reply_ok_def frame_simps on_reply_chunk_def)
  qed
qed

lemma on_write_resolved:
  "reply_future p = Resolved m \<Longrightarrow> reply_future (on_write p u v) = Resolved m"
  "start_future p = Resolved () \<Longrightarrow> start_future (on_write p u v) = Resolved ()"
  by (auto simp: on_write_def Let_def split: sum.split prod.split)

lemma serve_phase_ok_write:
  "serve_phase_ok u ident se p (server_phase p) \<Longrightarrow> serving (server_phase p) \<Longrightarrow>
    serve_phase_ok u ident se ((on_write p uuid v)\<lparr>mdoc_writes := w\<rparr>) (server_phase p)"
  by (cases "server_phase p") (auto simp: pushed_def on_write_resolved)

lemmas serve_inv_defs = serve_inv_def reply_ok_def start_ok_def

lemma serve_step_inv: "serve_step u ident se p p' \<Longrightarrow> serve_inv u ident se p \<Longrightarrow> serve_inv u ident se p'"
proof (induction rule: serve_step.induct)
  case (configure p c calls)
  then have "registered_ok u (call_server c p)"
    by (intro registered_ok_configure) (auto simp: serve_inv_def)
  with configure show ?case by (auto simp: serve_inv_defs registered_ok_def)
next
  case (write_request p uuid v)
  moreover have "start_ok ((on_write p uuid v)\<lparr>mdoc_writes := mdoc_writes p @ [(uuid, v)]\<rparr>)"
    using write_request on_write_start [of p uuid v] by (auto simp: serve_inv_def start_ok_def)
  ultimately show ?case
    using serve_phase_ok_write [where se = se and p = p and uuid = uuid and v = v]
    by (simp add: serve_inv_def reply_ok_write registered_ok_write)
next
  case (started p chunks)
  then have "registered_ok u (push_chunks u chunks p)" by (intro registered_ok_push) (simp add: serve_inv_def)
  with started show ?case by (auto simp: serve_inv_defs registered_ok_def pushed_def)
next
  case (push_fails p chunks k e)
  then have "registered_ok u (set_server2client (chunks ! k) (push_chunks u (take k chunks) p))"
    by (intro registered_ok_push) (simp add: serve_inv_def)
  with push_fails show ?case
    by (auto simp: serve_inv_defs registered_ok_def started_callsI(1))
next
  case (server_stop p r)
  then show ?case
    by (cases r) (auto simp: serve_inv_defs registered_ok_def pushed_def)
qed (auto simp: serve_inv_defs registered_ok_def pushed_def started_callsI)

lemma serve_run_inv: "serve_run u ident se p \<Longrightarrow> serve_inv u ident se p"
  by (induction rule: serve_run.induct) (auto intro: serve_inv_init serve_step_inv)

section \<open>Properties\<close>

text \<open>How often \<open>server.start()\<close> has succeeded and \<open>server.stop()\<close> has been called.\<close>

definition starts :: "peripheral \<Rightarrow> nat" where "starts p = count_list (server_calls p) StartServer"
definition stops :: "peripheral \<Rightarrow> nat" where "stops p = count_list (server_calls p) StopServer"

lemma notified_calls [simp]:
  "concat (map notified (setup_calls u ident)) = []" "concat (map notified (update_calls u chunks)) = chunks"
  by (simp_all add: setup_calls_def update_calls_def reader_characteristics_def reader_descriptors_def comp_def)

lemma finished_serve:
  assumes "serve_run u ident se p" "server_phase p = Stopped (Inr r)"
  shows "(READER_STATE_UUID, STATE_START) \<in> set (mdoc_writes p) \<and>
    receive feed Reassembler (notifications p) = Inr ([se], Reassembler) \<and>
    first_message [] (reply_chunks (mdoc_writes p)) = Some (session_data_bytes r) \<and>
    starts p = 1 \<and> stops p = 1"
proof -
  have inv: "serve_inv u ident se p" using assms(1) by (rule serve_run_inv)
  obtain chunks where cs: "chunk_message se PERIPHERAL_CHUNK_SIZE = Inr chunks" using reader_chunks by blast
  from inv assms(2) cs have fut: "reply_future p = Resolved (session_data_bytes r)"
    and st: "start_future p = Resolved ()"
    and calls: "server_calls p = setup_calls u ident @ StartServer # update_calls u chunks @ [StopServer]"
    by (auto simp: serve_inv_def pushed_def)
  have "resolve Pending (first_message [] (reply_chunks (mdoc_writes p))) = Resolved (session_data_bytes r)"
    using inv fut peripheral_collector.deliver_all_first [of "peripheral_init" "reply_chunks (mdoc_writes p)"]
    by (simp add: serve_inv_def reply_ok_def peripheral_init_def Reassembler_def)
  then have "first_message [] (reply_chunks (mdoc_writes p)) = Some (session_data_bytes r)"
    by (cases "first_message [] (reply_chunks (mdoc_writes p))") auto
  moreover have "receive feed Reassembler (notifications p) = Inr ([se], Reassembler)"
    using cs peripheral_link.receive_split by (simp add: notifications_def calls PERIPHERAL_CHUNK_SIZE_def)
  ultimately show ?thesis
    using inv st by (simp add: serve_inv_def start_ok_def starts_def stops_def calls)
qed

text \<open>
  C14: when the peripheral-role exchange returns, the mdoc had written STATE_START, the
  notifications it was sent reassemble to exactly the SessionEstablishment, the returned bytes
  are the first message its Client2Server writes complete (whatever else it wrote, to whatever
  characteristic and in whatever order), and the server was started and stopped exactly once.
\<close>

theorem serve_result_sound:
  assumes "serve_run u ident se p" "server_phase p = Stopped (Inr r)"
  shows "(READER_STATE_UUID, STATE_START) \<in> set (mdoc_writes p) \<and>
    receive feed Reassembler (notifications p) = Inr ([se], Reassembler) \<and>
    first_message [] (reply_chunks (mdoc_writes p)) = Some (session_data_bytes r) \<and>
    starts p = 1 \<and> stops p = 1"
  using assms by (rule finished_serve)

text \<open>A complete run: the mdoc subscribes, starts, and answers in two chunks.\<close>

lemma configure_run:
  "serve_run u ident se p \<Longrightarrow> server_phase p = Configuring calls \<Longrightarrow>
    \<exists>q. serve_run u ident se q \<and> server_phase q = Configuring [] \<and> start_future q = start_future p \<and>
      reply_future q = reply_future p \<and> reply_reassembler q = reply_reassembler p \<and> mdoc_writes q = mdoc_writes p"
proof (induction calls arbitrary: p)
  case (Cons c calls)
  from serve_run.step [OF Cons.prems(1) serve_step.configure [OF Cons.prems(2)]] Cons.IH
  show ?case by fastforce
qed blast

lemma advertising_run:
  "\<exists>p. serve_run u ident se p \<and> server_phase p = Advertising \<and> start_future p = Pending \<and>
    reply_future p = Pending \<and> reply_reassembler p = Reassembler \<and> mdoc_writes p = []"
proof -
  let ?p = "peripheral_init\<lparr>server_phase := Configuring (setup_calls u ident)\<rparr>"
  have "serve_run u ident se ?p"
    by (rule serve_run.step [OF serve_run.init serve_step.bless_imported]) (simp_all add: peripheral_init_def require_bless_def)
  then obtain q where q: "serve_run u ident se q" "server_phase q = Configuring []" "start_future q = Pending"
      "reply_future q = Pending" "reply_reassembler q = Reassembler" "mdoc_writes q = []"
    using configure_run [of u ident se ?p "setup_calls u ident"] by (auto simp: peripheral_init_def)
  from serve_run.step [OF q(1) serve_step.server_start [OF q(2)]] q(3-6) show ?thesis
    by (intro exI conjI) (assumption | simp)+
qed

lemma serve_run_example:
  "\<exists>p r. serve_run [117] [1] [7] p \<and> server_phase p = Stopped (Inr r) \<and> session_data_bytes r = [9, 5] \<and>
    mdoc_writes p = [(READER_STATE_UUID, [1]), (READER_CLIENT2SERVER_UUID, [1, 9]), (READER_CLIENT2SERVER_UUID, [0, 5])]"
proof -
  let ?run = "serve_run [117] [1] [7]"
  obtain p1 where p1: "?run p1" "server_phase p1 = Advertising" "start_future p1 = Pending"
      "reply_future p1 = Pending" "reply_reassembler p1 = Reassembler" "mdoc_writes p1 = []"
    using advertising_run by blast
  define p2 where "p2 = (on_write p1 READER_STATE_UUID [1])\<lparr>mdoc_writes := [(READER_STATE_UUID, [1])]\<rparr>"
  define p3 where "p3 = (push_chunks [117] [[0, 7]] p2)\<lparr>server_phase := Responding\<rparr>"
  define p4 where "p4 = (on_write p3 READER_CLIENT2SERVER_UUID [1, 9])\<lparr>mdoc_writes :=
    mdoc_writes p3 @ [(READER_CLIENT2SERVER_UUID, [1, 9])]\<rparr>"
  define p5 where "p5 = (on_write p4 READER_CLIENT2SERVER_UUID [0, 5])\<lparr>mdoc_writes :=
    mdoc_writes p4 @ [(READER_CLIENT2SERVER_UUID, [0, 5])]\<rparr>"
  have cs: "chunk_message [7] PERIPHERAL_CHUNK_SIZE = Inr [[0, 7]]"
    by (simp add: chunk_message_def PERIPHERAL_CHUNK_SIZE_def MIN_CHUNK_SIZE_def frame_simps)
  from serve_run.step [OF p1(1) serve_step.write_request [of p1 _ _ _ READER_STATE_UUID "[1]"]] p1 have run2: "?run p2"
    by (simp add: p2_def)
  have f2: "server_phase p2 = Advertising" "start_future p2 = Resolved ()" "reply_future p2 = Pending"
    "reply_reassembler p2 = Reassembler" "mdoc_writes p2 = [(READER_STATE_UUID, [1])]"
    using p1 by (simp_all add: p2_def on_write_def STATE_START_def)
  from serve_run.step [OF run2 serve_step.started [OF f2(1,2) cs]] have run3: "?run p3" by (simp add: p3_def)
  have f3: "server_phase p3 = Responding" "reply_future p3 = Pending" "reply_reassembler p3 = Reassembler"
    "mdoc_writes p3 = [(READER_STATE_UUID, [1])]"
    using f2 by (simp_all add: p3_def del: push_chunks.simps)
  from serve_run.step [OF run3 serve_step.write_request [of p3 _ _ _ READER_CLIENT2SERVER_UUID "[1, 9]"]] f3
  have run4: "?run p4" by (simp add: p4_def)
  have f4: "server_phase p4 = Responding" "reply_future p4 = Pending"
    "reply_reassembler p4 = Reassembler\<lparr>buffer := [9]\<rparr>"
    "mdoc_writes p4 = [(READER_STATE_UUID, [1]), (READER_CLIENT2SERVER_UUID, [1, 9])]"
    using f3 by (simp_all add: p4_def on_write_def Let_def Reassembler_def)
  from serve_run.step [OF run4 serve_step.write_request [of p4 _ _ _ READER_CLIENT2SERVER_UUID "[0, 5]"]] f4
  have run5: "?run p5" by (simp add: p5_def)
  have f5: "server_phase p5 = Responding" "reply_future p5 = Resolved [9, 5]"
    "mdoc_writes p5 = [(READER_STATE_UUID, [1]), (READER_CLIENT2SERVER_UUID, [1, 9]), (READER_CLIENT2SERVER_UUID, [0, 5])]"
    using f4 by (simp_all add: p5_def on_write_def Let_def Reassembler_def)
  from serve_run.step [OF run5 serve_step.reply [OF f5(1,2)]]
  have "?run (p5\<lparr>server_phase := Stopping (Inr [9, 5])\<rparr>)" .
  from serve_run.step [OF this serve_step.server_stop [of _ "Inr [9, 5]"]] f5 show ?thesis
    by (intro exI conjI) (assumption | simp)+
qed

theorem serve_result_sound_witness:
  "\<exists>p r. serve_run [117] [1] [7] p \<and> server_phase p = Stopped (Inr r) \<and>
    receive feed Reassembler (notifications p) = Inr ([[7]], Reassembler) \<and> stops p = 1"
  using serve_run_example serve_result_sound by metis

text \<open>
  C15: the GATT server is never left running: however the exchange ends, with a result or with
  any exception, \<open>server.stop()\<close> has been called as often as \<open>server.start()\<close> succeeded.
\<close>

theorem serve_always_stops:
  assumes "serve_run u ident se p" "server_phase p = Stopped r"
  shows "stops p = starts p"
proof -
  obtain chunks where cs: "chunk_message se PERIPHERAL_CHUNK_SIZE = Inr chunks" using reader_chunks by blast
  have "serve_phase_ok u ident se p (Stopped r)"
    using serve_run_inv [OF assms(1)] assms(2) by (simp add: serve_inv_def)
  then consider rest where "server_calls p @ rest = setup_calls u ident"
    | k where "server_calls p = setup_calls u ident @ StartServer # update_calls u (take k chunks) @ [StopServer]"
    using cs by (auto simp: started_calls_def)
  then show ?thesis
  proof cases
    case 1
    then have "StartServer \<notin> set (server_calls p)" "StopServer \<notin> set (server_calls p)"
      using no_start_in_setup(1,2) [of u ident] by (auto simp flip: 1)
    then show ?thesis by (simp add: starts_def stops_def)
  qed (simp add: starts_def stops_def)
qed

theorem serve_always_stops_witness:
  "\<exists>p r. serve_run [117] [1] [7] p \<and> server_phase p = Stopped r \<and> stops p = starts p"
  using serve_run_example serve_always_stops by metis

text \<open>
  C16: the mdoc never meets an incomplete service.  Whenever it can reach the server, every
  characteristic of Table 6 and every descriptor has been registered under the UUID of the engagement
  before \<open>server.start()\<close>, each notifying characteristic has its readable and writeable CCCD, nothing
  but chunks of the SessionEstablishment in their order has been pushed since, \<open>server.stop()\<close> has not
  been called, and reading Ident gives the value computed from the EDeviceKey unless the mdoc itself
  wrote there.
\<close>

theorem mdoc_meets_complete_service:
  assumes "serve_run u ident se p" "serving (server_phase p)"
  shows "(\<exists>k. \<forall>chunks. chunk_message se PERIPHERAL_CHUNK_SIZE = Inr chunks \<longrightarrow>
      server_calls p = setup_calls u ident @ StartServer # update_calls u (take k chunks)) \<and>
    (\<forall>c. PropNotify \<in> char_properties c \<longrightarrow> AddCharacteristic u c \<in> set (server_calls p) \<longrightarrow>
      (\<exists>d. AddDescriptor u d \<in> set (server_calls p) \<and> desc_characteristic d = char_uuid c \<and> desc_uuid d = CCCD_UUID \<and>
        {PropRead, PropWrite} \<subseteq> desc_properties d \<and> {Readable, Writeable} \<subseteq> desc_permissions d)) \<and>
    StopServer \<notin> set (server_calls p) \<and>
    (IDENT_UUID \<notin> fst ` set (mdoc_writes p) \<longrightarrow> on_read p IDENT_UUID = Some ident)"
proof -
  have inv: "serve_inv u ident se p" using assms(1) by (rule serve_run_inv)
  with assms(2) have sc: "started_calls u ident se (server_calls p)"
    by (cases "server_phase p") (auto simp: serve_inv_def started_callsI)
  then obtain k chunks where calls: "server_calls p = setup_calls u ident @ StartServer # update_calls u (take k chunks)"
    using reader_chunks [of se] by (auto simp: started_calls_def)
  have "\<exists>d. AddDescriptor u d \<in> set (server_calls p) \<and> desc_characteristic d = char_uuid c \<and> desc_uuid d = CCCD_UUID \<and>
        {PropRead, PropWrite} \<subseteq> desc_properties d \<and> {Readable, Writeable} \<subseteq> desc_permissions d"
    if "PropNotify \<in> char_properties c" "AddCharacteristic u c \<in> set (server_calls p)" for c
  proof -
    from that(2) have "AddCharacteristic u c \<in> set (setup_calls u ident)" by (auto simp: calls update_calls_def)
    from notify_characteristics_have_cccd [OF this that(1)] show ?thesis by (auto simp: calls)
  qed
  moreover have "on_read p IDENT_UUID = Some ident" if "IDENT_UUID \<notin> fst ` set (mdoc_writes p)"
  proof -
    let ?c = "hd (reader_characteristics ident)"
    have "AddCharacteristic u ?c \<in> set (server_calls p)" "char_uuid ?c = IDENT_UUID" "char_value ?c = Some ident"
      by (simp_all add: calls setup_calls_def reader_characteristics_def)
    moreover have "IDENT_UUID \<noteq> READER_SERVER2CLIENT_UUID" by (simp add: IDENT_UUID_def READER_SERVER2CLIENT_UUID_def)
    ultimately show ?thesis using inv that unfolding serve_inv_def registered_ok_def on_read_def by metis
  qed
  ultimately show ?thesis using sc by (auto simp: calls started_calls_def)
qed

theorem mdoc_meets_complete_service_witness:
  "\<exists>p. serve_run [117] [1] [7] p \<and> serving (server_phase p) \<and> on_read p IDENT_UUID = Some [1]"
proof -
  obtain p where "serve_run [117] [1] [7] p" "server_phase p = Advertising" "mdoc_writes p = []"
    using advertising_run by blast
  with mdoc_meets_complete_service [of "[117]" "[1]" "[7]" p] show ?thesis by auto
qed

end
