(* ===== verification/Spec2Isabelle.thy ===== *)
theory Spec2Isabelle
  imports Cli_Parser Terminal_Safety Mdoc_Types Ble_Peripheral
begin

text \<open>
  siros-verifier-cli is a command-line ISO/IEC 18013-5 reader: it takes a device engagement from a QR
  code, opens an encrypted session with an mdoc over Bluetooth Low Energy, asks for claims, verifies what
  comes back and prints the claims only if everything it checks holds.  Its source is the Python package
  under \<open>src/src/siros_verifier/\<close>; the file names below are relative to it.

  \<^bold>\<open>The parts and how they interact.\<close>  \<open>cli.py\<close> parses the arguments (\<open>Cli_Parser\<close>), obtains the engagement
  (\<open>engagement.py\<close>, \<open>qr.py\<close>), derives session keys (\<open>crypto.py\<close>), builds the DeviceRequest (\<open>mdoc.py\<close>),
  exchanges one message for one message in one of two roles (\<open>ble.py\<close> as a GATT central,
  \<open>ble_peripheral.py\<close> as a GATT server), decrypts and parses the answer, verifies it (\<open>mdoc.py\<close>,
  \<open>verify.py\<close>), asks a policy decision point about each document (\<open>trust.py\<close>) and renders it
  (\<open>display.py\<close>).  \<open>fuzz.py\<close> and the fuzz half of \<open>cli.py\<close> drive deliberately broken exchanges instead.

  \<^bold>\<open>Which theory models what.\<close>
  \<^item> Foundations: \<open>Prelude\<close> (bytes, text literals, exception passing, the collections of rules),
    \<open>Py_Object\<close> (the objects a CBOR decoder returns, Python's truth, equality, dicts, exceptions),
    \<open>Externals\<close> (the record \<open>lib\<close> of third-party functions, and a small instance of it for concrete runs).
  \<^item> Standard library: \<open>Py_Text\<close> (\<open>base64\<close>, UTF-8), \<open>Py_Json\<close> (\<open>json.dumps\<close>, \<open>json.loads\<close> with hooks),
    \<open>Py_Url\<close> (\<open>urlsplit\<close>), \<open>Py_Datetime\<close> (\<open>isoformat\<close>, \<open>str\<close> of dates), \<open>Py_Sha256\<close> (\<open>hashlib.sha256\<close>).
  \<^item> \<open>crypto.py\<close>: \<open>Session_Crypto\<close> (COSE keys, SessionTranscript, session keys, nonces).
  \<^item> \<open>verify.py\<close>: \<open>Cose_Verify\<close>, with the locale \<open>cose_check\<close> that the signature and the MAC check share.
  \<^item> \<open>mdoc.py\<close>: \<open>Mdoc_Parse\<close> (MSO, IssuerAuth, IssuerSigned items), \<open>Mdoc_Document\<close> (requests, documents,
    \<open>verify_device_auth\<close>), \<open>Mdoc_Validate\<close> (\<open>validate_device_response\<close> against the declarative policy
    \<open>disclosable\<close>), \<open>Mdoc_Sound\<close> (what a verified document is evidence of) and \<open>Mdoc_Types\<close> (the types of
    the dataclasses' fields).
  \<^item> \<open>trust.py\<close>: \<open>Trust_Der\<close> (the strict DER walk against an inductive grammar) and \<open>Trust\<close>.
  \<^item> \<open>engagement.py\<close>: \<open>Engagement\<close>.  \<open>qr.py\<close>: \<open>Qr\<close>.  \<open>fuzz.py\<close>: \<open>Fuzz\<close>.
  \<^item> \<open>display.py\<close>: \<open>Display\<close>, with its guarantees in \<open>Display_Safe\<close>; \<open>Cli_Output\<close> is the text and the JSON of a
    response (\<open>_write_device_response\<close>, \<open>to_json\<close>), and \<open>Terminal_Safety\<close> what reaches the terminal.
  \<^item> \<open>ble.py\<close>: \<open>Ble_Framing\<close> (chunks and reassembly, the locales \<open>framing\<close>, \<open>collector\<close>, \<open>gatt_collector\<close>) and
    \<open>Ble_Central\<close>; \<open>ble_peripheral.py\<close>: \<open>Ble_Peripheral\<close>.
  \<^item> \<open>cli.py\<close>: \<open>Cli_Requests\<close> and \<open>Cli_Session\<close> (arguments, handover, mode, session setup), \<open>Cli_Read\<close>
    (\<open>run_read\<close>), \<open>Cli_Diagnostics\<close> (the texts \<open>run_read\<close> writes to standard error), \<open>Cli_Fuzz\<close> (\<open>run_fuzz\<close>), \<open>Cli_Main\<close> (the other commands, \<open>main\<close>), \<open>Cli_Parser\<close>
    (\<open>build_parser\<close>).

  \<^bold>\<open>State and effects.\<close>  Dataclasses are records, and a call that may raise returns \<open>exn + 'a\<close>, so every
  \<open>raise\<close> and every \<open>except\<close> is a branch.  The two BLE exchanges are coroutines that callbacks interrupt:
  \<open>exchange_step\<close> and \<open>serve_step\<close> are inductive step relations with one rule per await, per way it can
  fail and per callback, so a theorem about a finished run holds for every interleaving.  The GATT server
  also keeps the calls made to it, in order (\<open>server_calls\<close>), from which the pushed notifications are read
  off.  The commands
  are functions to a list of events (\<open>Printed\<close>, \<open>Diagnostic\<close>, \<open>Dumped\<close>, \<open>Exchanged\<close>, \<open>Written\<close>, \<open>Page\<close>,
  \<open>Released\<close>) and a result: \<open>Released\<close> is the one \<open>print\<close> that shows claims, which is what the
  disclosure properties are about.

  \<^bold>\<open>What is proved.\<close>  Disclosure: \<open>read\<close> releases claims only of a response that was decrypted in this
  session, answers the request, is genuine (issuer signature, digests, device authentication over this
  session) and is explicitly permitted by the decision point for every document; the exit code says
  whether it did, no other command releases anything, and over the modelled transports the exchange
  delivered exactly one request and decrypted the first complete answer.  Refinement and equivalence:
  validation against the policy, the DER walk against the grammar, \<open>parse_requests\<close> against grouping, a
  command line against its occurrences.  Invariants and liveness of the transports; round trips of
  framing, COSE keys, URIs, escaping and JSON; bounds of nonces and chunks; termination of the camera loop
  and of the GATT server; absence of control characters in text output.

  \<^bold>\<open>Bounds and fuel.\<close>  The recursion limit of the interpreter is an argument where the source recurses over
  untrusted input: \<open>depth\<close> of the DER walk and \<open>json_recursion_limit\<close> of the JSON scanner, and running
  out of it is the value \<open>RecursionError\<close>; the equivalence with the grammar holds for every depth at
  least that of the input.  \<open>scan_loop\<close> is a \<open>partial_function (option)\<close>: a result \<open>None\<close> is a loop that
  never ends, and it is proved to end when the clock reaches the deadline.  All other recursions are
  structural or have a measure; the length tests that make
  \<open>scan_elements\<close> and \<open>scan_members\<close> terminate never fail (\<open>scan_once_consumes\<close>).

  \<^bold>\<open>Not modelled.\<close>  \<open>cbor2\<close>, \<open>cryptography\<close>, \<open>asn1crypto\<close>, \<open>aiohttp\<close>, \<open>bleak\<close>, \<open>bless\<close>, \<open>cv2\<close>, \<open>pyzbar\<close>, \<open>PIL\<close>,
  \<open>qrcode\<close> and \<open>webbrowser\<close> are not part of the repository: they are arguments of the definitions, about
  which a theorem assumes only what its statement says.  Of the standard library, \<open>repr\<close>, \<open>str\<close> of
  containers and bytes, floats, and the NFKC and bracketed-host checks of \<open>urlsplit\<close> are
  arguments too, and \<open>argparse\<close>'s splitting of \<open>sys.argv\<close> into option occurrences is left out.  Progress
  logs, help texts and the interpreter's recursion limit in \<open>display.py\<close> and in the parsing of CBOR
  values have no part in the properties.
\<close>

section \<open>The transports behind read\<close>

text \<open>
  \<open>run_read\<close> takes the two exchanges as functions of its environment.  They are realised by the
  transports of \<open>ble.py\<close> and \<open>ble_peripheral.py\<close> when whatever they return is what a finished run of
  the step relation returns.  \<open>conversation L key se sent replies sd\<close> is such a run: the tool sent
  the packets \<open>sent\<close> for the message \<open>se\<close>, the mdoc answered with the packets \<open>replies\<close>, and the
  exchange returned \<open>sd\<close>.
\<close>

definition central_conversation :: "bytes \<Rightarrow> bytes list \<Rightarrow> bytes list \<Rightarrow> bytes \<Rightarrow> bool" where
  "central_conversation se sent replies sd \<longleftrightarrow>
     (\<exists>mtu addr c r. exchange_run se mtu addr c \<and> phase c = Finished (Inr r) \<and> session_data_bytes r = sd \<and>
        sent = sent_to_mdoc (writes c) \<and> replies = seen c)"

definition peripheral_conversation :: "lib \<Rightarrow> bytes \<Rightarrow> bytes \<Rightarrow> bytes \<Rightarrow> bytes list \<Rightarrow> bytes list \<Rightarrow> bytes \<Rightarrow> bool" where
  "peripheral_conversation L uuid key se sent replies sd \<longleftrightarrow>
     (\<exists>p r. serve_run (uuid_text uuid) (compute_ident L key) se p \<and> server_phase p = Stopped (Inr r) \<and> session_data_bytes r = sd \<and>
        sent = notifications p \<and> replies = reply_chunks (mdoc_writes p))"

definition transports_realised :: "environment \<Rightarrow> bool" where
  "transports_realised R \<longleftrightarrow>
     (\<forall>uuid se sd. env_central_exchange R uuid se = Inr sd \<longrightarrow>
        (\<exists>sent replies. central_conversation se sent replies sd)) \<and>
     (\<forall>uuid key se sd. env_peripheral_exchange R uuid key se = Inr sd \<longrightarrow>
        (\<exists>sent replies. peripheral_conversation (env_lib R) uuid key se sent replies sd))"

text \<open>In both roles the mdoc gets exactly the message, and the answer is its first complete message.\<close>

definition delivered_and_answered :: "bytes \<Rightarrow> bytes list \<Rightarrow> bytes list \<Rightarrow> bytes \<Rightarrow> bool" where
  "delivered_and_answered se sent replies sd \<longleftrightarrow>
     receive feed Reassembler sent = Inr ([se], Reassembler) \<and> first_message [] replies = Some sd"

lemma central_delivers: "central_conversation se sent replies sd \<Longrightarrow> delivered_and_answered se sent replies sd"
  by (auto simp: central_conversation_def delivered_and_answered_def dest: finished_exchange)

lemma peripheral_delivers:
  "peripheral_conversation L uuid key se sent replies sd \<Longrightarrow> delivered_and_answered se sent replies sd"
  by (auto simp: peripheral_conversation_def delivered_and_answered_def dest: finished_serve)

lemma exchange_messages_delivers:
  assumes "transports_realised R" "snd (exchange_messages R b de se) = Inr sd"
  shows "\<exists>sent replies. delivered_and_answered se sent replies sd"
proof -
  have "(\<exists>sent replies. central_conversation se sent replies sd) \<or>
      (\<exists>uuid key sent replies. peripheral_conversation (env_lib R) uuid key se sent replies sd)"
    using assms unfolding transports_realised_def
    by (fastforce simp: exchange_messages_def split: if_splits option.splits)
  then show ?thesis using central_delivers peripheral_delivers by meson
qed

section \<open>Properties across components\<close>


definition demo_linked :: environment where
  "demo_linked = demo_environment\<lparr>env_central_exchange := (\<lambda>uuid se. if se = [255] then Inr [40] else Inl TimeoutError)\<rparr>"

lemma demo_linked_realised: "transports_realised demo_linked"
proof -
  have "chunk_message [255] (negotiate_chunk_size 23) = Inr [[0, 255]]" by code_simp
  from exchange_run_short [OF this, of "[]" "[40]"]
  have "\<exists>sent replies. central_conversation [255] sent replies [40]"
    unfolding central_conversation_def by force
  then show ?thesis
    by (auto simp: transports_realised_def demo_linked_def demo_environment_def split: if_splits)
qed


end
